theory Spec2Isabelle
  imports Complex_Main
begin

section \<open>Numbers, vectors and colours\<close>

text \<open>
  JavaScript numbers are modelled as mathematical reals: rounding, overflow and the
  infinities of IEEE doubles are not part of that model. The one place of the live
  code where a number can be \<open>NaN\<close> is the result of \<open>parseInt\<close> inside
  \<open>Color.hex\<close>; there the number type is \<open>jsnum\<close>. The length of a normalized
  vector depends on the rounding; for it \<open>V2.len\<close> and \<open>V2.normalize\<close> are modelled
  over doubles as well, after their model over the reals.
\<close>

datatype jsnum = NaN | Num real

datatype error = ParseError string | TypeError

fun jsdiv :: "jsnum \<Rightarrow> real \<Rightarrow> jsnum" where
  "jsdiv NaN d = NaN"
| "jsdiv (Num v) d = Num (v / d)"

definition lerp :: "real \<Rightarrow> real \<Rightarrow> real \<Rightarrow> real" where
  "lerp a b t = a + (b - a) * t"

text \<open>\<open>Math.random()\<close> is the next element of a sequence of draws; \<open>rnd k\<close> is the
  value of the \<open>k\<close>-th call. A function that draws takes the number of calls made so
  far and returns the new count with its result.\<close>

type_synonym random = "nat \<Rightarrow> real"

definition randomBetween :: "random \<Rightarrow> nat \<Rightarrow> real \<Rightarrow> real \<Rightarrow> real" where
  "randomBetween rnd k lo hi = rnd k * (hi - lo) + lo"

definition randomAngle :: "random \<Rightarrow> nat \<Rightarrow> real" where
  "randomAngle rnd k = randomBetween rnd k 0 (2 * pi)"

subsection \<open>Color\<close>

datatype 'n Color = Color (cr: 'n) (cg: 'n) (cb: 'n) (ca: 'n)

definition Color_withAlpha :: "'n Color \<Rightarrow> 'n \<Rightarrow> 'n Color" where
  "Color_withAlpha c a' = Color (cr c) (cg c) (cb c) a'"

definition Color_grayScale :: "real Color \<Rightarrow> real \<Rightarrow> real Color" where
  "Color_grayScale c t =
     (let x = (cr c + cg c + cb c) / 3
      in Color (lerp (cr c) x t) (lerp (cg c) x t) (lerp (cb c) x t) (ca c))"

text \<open>The character class \<open>[0-9a-z]\<close> under the flag \<open>i\<close>: a digit or a letter of
  either case.\<close>

definition inClass :: "char \<Rightarrow> bool" where
  "inClass c =
     (let n = (of_char c :: nat)
      in (48 \<le> n \<and> n \<le> 57) \<or> (97 \<le> n \<and> n \<le> 122) \<or> (65 \<le> n \<and> n \<le> 90))"

text \<open>\<open>hexcolor.match(/#([0-9a-z]{2})([0-9a-z]{2})([0-9a-z]{2})/i)\<close>: the leftmost
  position holding \<open>#\<close> and six characters of the class; the result is the three
  captured groups, \<open>None\<close> for \<open>null\<close>.\<close>

fun hexMatch :: "string \<Rightarrow> (string \<times> string \<times> string) option" where
  "hexMatch [] = None"
| "hexMatch (c # cs) =
     (if c = CHR ''#'' \<and> 6 \<le> length cs \<and> list_all inClass (take 6 cs)
      then Some (take 2 cs, take 2 (drop 2 cs), take 2 (drop 4 cs))
      else hexMatch cs)"

text \<open>\<open>parseInt(s, 16)\<close>: leading white space (of ASCII) and a sign are skipped, then a prefix
  \<open>0x\<close> or \<open>0X\<close>, and the longest run of hexadecimal digits is read; an empty run
  is \<open>NaN\<close>.\<close>

definition digitValue :: "char \<Rightarrow> nat option" where
  "digitValue c =
     (let n = (of_char c :: nat)
      in if 48 \<le> n \<and> n \<le> 57 then Some (n - 48)
         else if 97 \<le> n \<and> n \<le> 102 then Some (n - 87)
         else if 65 \<le> n \<and> n \<le> 70 then Some (n - 55)
         else None)"

definition isWhiteSpace :: "char \<Rightarrow> bool" where
  "isWhiteSpace c = ((of_char c :: nat) \<in> {9, 10, 11, 12, 13, 32})"

fun hexDigits :: "nat \<Rightarrow> string \<Rightarrow> nat" where
  "hexDigits acc [] = acc"
| "hexDigits acc (c # cs) =
     (case digitValue c of None \<Rightarrow> acc | Some d \<Rightarrow> hexDigits (16 * acc + d) cs)"

definition parseInt16 :: "string \<Rightarrow> jsnum" where
  "parseInt16 s =
     (let s1 = dropWhile isWhiteSpace s;
          sign = (if take 1 s1 = ''-'' then - 1 else 1 :: real);
          s2 = (if take 1 s1 = ''+'' \<or> take 1 s1 = ''-'' then drop 1 s1 else s1);
          s3 = (if take 2 s2 = ''0x'' \<or> take 2 s2 = ''0X'' then drop 2 s2 else s2)
      in case s3 of
           [] \<Rightarrow> NaN
         | c # cs \<Rightarrow> (case digitValue c of
                        None \<Rightarrow> NaN
                      | Some d \<Rightarrow> Num (sign * real (hexDigits 0 s3))))"

definition Color_hex :: "string \<Rightarrow> error + jsnum Color" where
  "Color_hex hexcolor =
     (case hexMatch hexcolor of
        Some (r, g, b) \<Rightarrow>
          Inr (Color (jsdiv (parseInt16 r) 255) (jsdiv (parseInt16 g) 255)
                 (jsdiv (parseInt16 b) 255) (Num 1))
      | None \<Rightarrow> Inl (ParseError hexcolor))"

subsection \<open>V2\<close>

datatype V2 = V2 (vx: real) (vy: real)

definition V2_add :: "V2 \<Rightarrow> V2 \<Rightarrow> V2" where
  "V2_add this that = V2 (vx this + vx that) (vy this + vy that)"

definition V2_sub :: "V2 \<Rightarrow> V2 \<Rightarrow> V2" where
  "V2_sub this that = V2 (vx this - vx that) (vy this - vy that)"

definition V2_scale :: "V2 \<Rightarrow> real \<Rightarrow> V2" where
  "V2_scale this s = V2 (vx this * s) (vy this * s)"

definition V2_len :: "V2 \<Rightarrow> real" where
  "V2_len this = sqrt (vx this * vx this + vy this * vy this)"

definition V2_normalize :: "V2 \<Rightarrow> V2" where
  "V2_normalize this =
     (let n = V2_len this
      in if n = 0 then V2 0 0 else V2 (vx this / n) (vy this / n))"

definition V2_dist :: "V2 \<Rightarrow> V2 \<Rightarrow> real" where
  "V2_dist this that = V2_len (V2_sub this that)"

definition V2_polar :: "real \<Rightarrow> real \<Rightarrow> V2" where
  "V2_polar mag dir = V2 (cos dir * mag) (sin dir * mag)"

subsection \<open>V2 in double precision\<close>

text \<open>
  The numbers of the program are IEEE 754 binary64 numbers. Whether the length of a
  normalized vector is 1 is a matter of their rounding, so \<open>V2.len\<close> and
  \<open>V2.normalize\<close> are embedded a second time, over doubles.

  A double is a sign and a magnitude, an infinity with its sign, or \<open>NaN\<close>; the sign is
  \<open>True\<close> for a negative number, and the two zeros are \<open>Finite False 0\<close> and
  \<open>Finite True 0\<close>. The magnitude of a finite double is a multiple \<open>j * 2 ^ (e - 52)\<close>
  with \<open>j < 2 ^ 53\<close> and \<open>- 1022 \<le> e \<le> 1023\<close>.
\<close>

datatype double = Finite (negative: bool) (magnitude: real) | Infinite bool | NotANumber

text \<open>The integer nearest to \<open>z\<close>, the even one of the two when \<open>z\<close> is halfway.\<close>

definition roundEven :: "real \<Rightarrow> int" where
  "roundEven z =
     (let f = \<lfloor>z\<rfloor>
      in if z - of_int f < 1 / 2 then f
         else if 1 / 2 < z - of_int f then f + 1
         else if even f then f else f + 1)"

text \<open>
  Rounding to nearest, ties to even. The exponent of a magnitude \<open>m\<close> is that of its
  binade, and \<open>- 1022\<close> for the subnormal magnitudes; doubles of that exponent are
  \<open>ulp m\<close> apart; \<open>nearest m\<close> is the multiple of \<open>ulp m\<close> nearest to \<open>m\<close>;
  a result of \<open>2 ^ 1024\<close> or more is an infinity.
\<close>

definition exponent :: "real \<Rightarrow> int" where
  "exponent m = max \<lfloor>log 2 m\<rfloor> (- 1022)"

definition ulp :: "real \<Rightarrow> real" where
  "ulp m = 2 powi (exponent m - 52)"

definition nearest :: "real \<Rightarrow> real" where
  "nearest m = (if m = 0 then 0 else of_int (roundEven (m / ulp m)) * ulp m)"

definition binary64 :: "bool \<Rightarrow> real \<Rightarrow> double" where
  "binary64 s m = (let r = nearest m in if 2 ^ 1024 \<le> r then Infinite s else Finite s r)"

definition signed :: "bool \<Rightarrow> real \<Rightarrow> real" where
  "signed s m = (if s then - m else m)"

text \<open>
  The operators \<open>*\<close>, \<open>+\<close> and \<open>/\<close> on numbers, \<open>Math.sqrt\<close> (the correctly
  rounded square root of IEEE 754) and the comparison \<open>=== 0\<close>, which holds of both zeros
  and not of \<open>NaN\<close>. Each operation rounds the exact result once.
\<close>

fun times64 :: "double \<Rightarrow> double \<Rightarrow> double" where
  "times64 (Finite s a) (Finite t b) = binary64 (s \<noteq> t) (a * b)"
| "times64 (Finite s a) (Infinite t) = (if a = 0 then NotANumber else Infinite (s \<noteq> t))"
| "times64 (Infinite s) (Finite t b) = (if b = 0 then NotANumber else Infinite (s \<noteq> t))"
| "times64 (Infinite s) (Infinite t) = Infinite (s \<noteq> t)"
| "times64 NotANumber y = NotANumber"
| "times64 x NotANumber = NotANumber"

fun plus64 :: "double \<Rightarrow> double \<Rightarrow> double" where
  "plus64 (Finite s a) (Finite t b) =
     (let v = signed s a + signed t b
      in if v = 0 then Finite (s \<and> t) 0 else binary64 (v < 0) \<bar>v\<bar>)"
| "plus64 (Finite s a) (Infinite t) = Infinite t"
| "plus64 (Infinite s) (Finite t b) = Infinite s"
| "plus64 (Infinite s) (Infinite t) = (if s = t then Infinite s else NotANumber)"
| "plus64 NotANumber y = NotANumber"
| "plus64 x NotANumber = NotANumber"

fun divide64 :: "double \<Rightarrow> double \<Rightarrow> double" where
  "divide64 (Finite s a) (Finite t b) =
     (if b = 0 then (if a = 0 then NotANumber else Infinite (s \<noteq> t))
      else binary64 (s \<noteq> t) (a / b))"
| "divide64 (Finite s a) (Infinite t) = Finite (s \<noteq> t) 0"
| "divide64 (Infinite s) (Finite t b) = Infinite (s \<noteq> t)"
| "divide64 (Infinite s) (Infinite t) = NotANumber"
| "divide64 NotANumber y = NotANumber"
| "divide64 x NotANumber = NotANumber"

fun sqrt64 :: "double \<Rightarrow> double" where
  "sqrt64 (Finite s a) =
     (if a = 0 then Finite s 0 else if s then NotANumber else binary64 False (sqrt a))"
| "sqrt64 (Infinite s) = (if s then NotANumber else Infinite False)"
| "sqrt64 NotANumber = NotANumber"

fun isZero64 :: "double \<Rightarrow> bool" where
  "isZero64 (Finite s a) = (a = 0)"
| "isZero64 (Infinite s) = False"
| "isZero64 NotANumber = False"

text \<open>\<open>V2.len\<close> and \<open>V2.normalize\<close>, operation by operation as in the source.\<close>

datatype V2_64 = V2_64 (x64: double) (y64: double)

definition V2_len64 :: "V2_64 \<Rightarrow> double" where
  "V2_len64 this =
     sqrt64 (plus64 (times64 (x64 this) (x64 this)) (times64 (y64 this) (y64 this)))"

definition V2_normalize64 :: "V2_64 \<Rightarrow> V2_64" where
  "V2_normalize64 this =
     (let n = V2_len64 this
      in if isZero64 n then V2_64 (Finite False 0) (Finite False 0)
         else V2_64 (divide64 (x64 this) n) (divide64 (y64 this) n))"

section \<open>Constants\<close>

definition TRIANGLE_PAIR :: nat where "TRIANGLE_PAIR = 2"
definition TRIANGLE_VERTICIES :: nat where "TRIANGLE_VERTICIES = 3"
definition VEC2_COUNT :: nat where "VEC2_COUNT = 2"
definition VEC2_X :: nat where "VEC2_X = 0"
definition VEC2_Y :: nat where "VEC2_Y = 1"
definition RGBA_COUNT :: nat where "RGBA_COUNT = 4"
definition RGBA_R :: nat where "RGBA_R = 0"
definition RGBA_G :: nat where "RGBA_G = 1"
definition RGBA_B :: nat where "RGBA_B = 2"
definition RGBA_A :: nat where "RGBA_A = 3"
definition CIRCLE_BATCH_CAPACITY :: nat where "CIRCLE_BATCH_CAPACITY = 1024"

text \<open>The colour constants are the values of \<open>Color.hex\<close> at the literals of the
  source (lemma \<open>color_constants\<close> below).\<close>

definition PLAYER_COLOR :: "real Color" where
  "PLAYER_COLOR = Color (244 / 255) (56 / 255) (65 / 255) 1"
definition ENEMY_COLOR :: "real Color" where
  "ENEMY_COLOR = Color (158 / 255) (149 / 255) (199 / 255) 1"
definition MESSAGE_COLOR :: "real Color" where
  "MESSAGE_COLOR = Color (255 / 255) (255 / 255) (255 / 255) 1"

definition PLAYER_SPEED :: real where "PLAYER_SPEED = 1000"
definition PLAYER_RADIUS :: real where "PLAYER_RADIUS = 69"
definition PLAYER_MAX_HEALTH :: real where "PLAYER_MAX_HEALTH = 100"
definition PLAYER_SHOOT_COOLDOWN :: real where "PLAYER_SHOOT_COOLDOWN = 0.25"
definition PLAYER_TRAIL_RATE :: real where "PLAYER_TRAIL_RATE = 3.0"
definition TUTORIAL_POPUP_SPEED :: real where "TUTORIAL_POPUP_SPEED = 1.7"
definition BULLET_RADIUS :: real where "BULLET_RADIUS = 42"
definition BULLET_SPEED :: real where "BULLET_SPEED = 2000"
definition BULLET_LIFETIME :: real where "BULLET_LIFETIME = 5.0"
definition ENEMY_SPEED :: real where "ENEMY_SPEED = PLAYER_SPEED / 3"
definition ENEMY_RADIUS :: real where "ENEMY_RADIUS = PLAYER_RADIUS"
definition ENEMY_SPAWN_ANIMATION_SPEED :: real where
  "ENEMY_SPAWN_ANIMATION_SPEED = ENEMY_RADIUS * 8"
definition ENEMY_SPAWN_COOLDOWN :: real where "ENEMY_SPAWN_COOLDOWN = 1.0"
definition ENEMY_SPAWN_GROWTH :: real where "ENEMY_SPAWN_GROWTH = 1.01"
definition ENEMY_SPAWN_DISTANCE :: real where "ENEMY_SPAWN_DISTANCE = 1500.0"
definition ENEMY_DESPAWN_DISTANCE :: real where
  "ENEMY_DESPAWN_DISTANCE = ENEMY_SPAWN_DISTANCE * 2"
definition ENEMY_DAMAGE :: real where "ENEMY_DAMAGE = PLAYER_MAX_HEALTH / 5"
definition ENEMY_KILL_HEAL :: real where "ENEMY_KILL_HEAL = PLAYER_MAX_HEALTH / 10"
definition ENEMY_KILL_SCORE :: int where "ENEMY_KILL_SCORE = 100"
definition ENEMY_TRAIL_RATE :: real where "ENEMY_TRAIL_RATE = 2.0"
definition PARTICLES_COUNT_RANGE :: "real \<times> real" where "PARTICLES_COUNT_RANGE = (0, 50)"
definition PARTICLE_RADIUS_RANGE :: "real \<times> real" where
  "PARTICLE_RADIUS_RANGE = (10.0, 20.0)"
definition PARTICLE_MAG_RANGE :: "real \<times> real" where
  "PARTICLE_MAG_RANGE = (0, BULLET_SPEED)"
definition PARTICLE_MAX_LIFETIME :: real where "PARTICLE_MAX_LIFETIME = 1.0"
definition PARTICLE_LIFETIME_RANGE :: "real \<times> real" where
  "PARTICLE_LIFETIME_RANGE = (0, PARTICLE_MAX_LIFETIME)"
definition TRAIL_COOLDOWN :: real where "TRAIL_COOLDOWN = 1 / 60"

definition directionMap :: "string \<Rightarrow> V2 option" where
  "directionMap =
     [''KeyS'' \<mapsto> V2 0 1.0, ''KeyW'' \<mapsto> V2 0 (- 1.0),
      ''KeyA'' \<mapsto> V2 (- 1.0) 0, ''KeyD'' \<mapsto> V2 1.0 0]"

section \<open>Trail\<close>

record Dot =
  dot_pos :: V2
  dot_a :: real

record Trail =
  trail :: "Dot list"
  cooldown :: real
  disabled :: bool
  trail_radius :: real
  trail_color :: "real Color"
  rate :: real

definition Trail_new :: "real \<Rightarrow> real Color \<Rightarrow> real \<Rightarrow> Trail" where
  "Trail_new radius color rt =
     \<lparr>trail = [], cooldown = 0, disabled = False,
      trail_radius = radius, trail_color = color, rate = rt\<rparr>"

text \<open>The \<open>while\<close> loop of \<open>Trail.update\<close>: shift while the first sample has
  \<open>a \<le> 0\<close>.\<close>

fun evict :: "Dot list \<Rightarrow> Dot list" where
  "evict [] = []"
| "evict (dot # dots) = (if dot_a dot \<le> 0.0 then evict dots else dot # dots)"

definition decay :: "real \<Rightarrow> Dot \<Rightarrow> Dot" where
  "decay d dot = dot\<lparr>dot_a := dot_a dot - d\<rparr>"

definition Trail_update :: "real \<Rightarrow> Trail \<Rightarrow> Trail" where
  "Trail_update dt t =
     t\<lparr>trail := evict (map (decay (rate t * dt)) (trail t)),
       cooldown := cooldown t - dt\<rparr>"

definition Trail_push :: "V2 \<Rightarrow> Trail \<Rightarrow> Trail" where
  "Trail_push pos t =
     (if \<not> disabled t \<and> cooldown t \<le> 0
      then t\<lparr>trail := trail t @ [\<lparr>dot_pos = pos, dot_a = 1.0\<rparr>],
             cooldown := TRAIL_COOLDOWN\<rparr>
      else t)"

text \<open>The trails the program builds: the constructor with a rate that is not negative
  (the program's rates are the constants 3.0 and 2.0), then any sequence of
  \<open>push\<close>, \<open>update\<close> with any \<open>dt\<close>, and the assignment \<open>disabled = true\<close> of
  \<open>Game.update\<close>.\<close>

inductive Trail_reachable :: "Trail \<Rightarrow> bool" where
  reach_new: "0 \<le> rt \<Longrightarrow> Trail_reachable (Trail_new radius color rt)"
| reach_push: "Trail_reachable t \<Longrightarrow> Trail_reachable (Trail_push pos t)"
| reach_update: "Trail_reachable t \<Longrightarrow> Trail_reachable (Trail_update dt t)"
| reach_disable: "Trail_reachable t \<Longrightarrow> Trail_reachable (t\<lparr>disabled := True\<rparr>)"

section \<open>Particles, enemies, bullets\<close>

record Particle =
  particle_pos :: V2
  particle_vel :: V2
  particle_lifetime :: real
  particle_radius :: real
  particle_color :: "real Color"

definition Particle_update :: "real \<Rightarrow> Particle \<Rightarrow> Particle" where
  "Particle_update dt p =
     p\<lparr>particle_pos := V2_add (particle_pos p) (V2_scale (particle_vel p) dt),
       particle_lifetime := particle_lifetime p - dt\<rparr>"

text \<open>\<open>particleBurst\<close>: one draw for \<open>N\<close>, then the loop \<open>for (i = 0; i < N; ++i)\<close>,
  which runs \<open>nat \<lceil>N\<rceil>\<close> times; each round draws magnitude, angle, lifetime and
  radius in this order. The result is the extended array and the new number of draws.\<close>

fun burstLoop ::
  "random \<Rightarrow> nat \<Rightarrow> nat \<Rightarrow> V2 \<Rightarrow> real Color \<Rightarrow> Particle list \<Rightarrow> Particle list \<times> nat" where
  "burstLoop rnd 0 k center color ps = (ps, k)"
| "burstLoop rnd (Suc n) k center color ps =
     burstLoop rnd n (k + 4) center color
       (ps @ [\<lparr>particle_pos = center,
               particle_vel =
                 V2_polar (randomBetween rnd k (fst PARTICLE_MAG_RANGE) (snd PARTICLE_MAG_RANGE))
                   (randomAngle rnd (k + 1)),
               particle_lifetime =
                 randomBetween rnd (k + 2) (fst PARTICLE_LIFETIME_RANGE)
                   (snd PARTICLE_LIFETIME_RANGE),
               particle_radius =
                 randomBetween rnd (k + 3) (fst PARTICLE_RADIUS_RANGE)
                   (snd PARTICLE_RADIUS_RANGE),
               particle_color = color\<rparr>])"

definition particleBurst ::
  "random \<Rightarrow> nat \<Rightarrow> Particle list \<Rightarrow> V2 \<Rightarrow> real Color \<Rightarrow> Particle list \<times> nat" where
  "particleBurst rnd k ps center color =
     (let N = randomBetween rnd k (fst PARTICLES_COUNT_RANGE) (snd PARTICLES_COUNT_RANGE)
      in burstLoop rnd (nat \<lceil>N\<rceil>) (k + 1) center color ps)"

record Enemy =
  enemy_pos :: V2
  ded :: bool
  enemy_radius :: real
  enemy_trail :: Trail

definition Enemy_new :: "V2 \<Rightarrow> Enemy" where
  "Enemy_new pos =
     \<lparr>enemy_pos = pos, ded = False, enemy_radius = 0.0,
      enemy_trail = Trail_new ENEMY_RADIUS ENEMY_COLOR ENEMY_TRAIL_RATE\<rparr>"

definition Enemy_update :: "real \<Rightarrow> V2 \<Rightarrow> Enemy \<Rightarrow> Enemy" where
  "Enemy_update dt followPos e =
     (let vel = V2_scale (V2_normalize (V2_sub followPos (enemy_pos e))) (ENEMY_SPEED * dt)
      in e\<lparr>enemy_trail := Trail_update dt (Trail_push (enemy_pos e) (enemy_trail e)),
            enemy_pos := V2_add (enemy_pos e) vel,
            enemy_radius :=
              (if enemy_radius e < ENEMY_RADIUS
               then enemy_radius e + ENEMY_SPAWN_ANIMATION_SPEED * dt
               else ENEMY_RADIUS)\<rparr>)"

record Bullet =
  bullet_pos :: V2
  bullet_vel :: V2
  bullet_lifetime :: real

definition Bullet_new :: "V2 \<Rightarrow> V2 \<Rightarrow> Bullet" where
  "Bullet_new pos vel = \<lparr>bullet_pos = pos, bullet_vel = vel, bullet_lifetime = BULLET_LIFETIME\<rparr>"

definition Bullet_update :: "real \<Rightarrow> Bullet \<Rightarrow> Bullet" where
  "Bullet_update dt b =
     b\<lparr>bullet_pos := V2_add (bullet_pos b) (V2_scale (bullet_vel b) dt),
       bullet_lifetime := bullet_lifetime b - dt\<rparr>"

section \<open>Tutorial\<close>

text \<open>The tutorial stage is read from the storage slot, where it is a string, or starts
  as the number 0. The slot is modelled for the contents the program writes: \<open>null\<close> or
  a string of decimal digits. On such a value \<open>state == n\<close> compares the number the
  digits denote, \<open>state += 1\<close> appends the character \<open>1\<close> to a string, and
  \<open>TutorialMessages[state]\<close> is defined for the indices 0, 1 and 2 in their canonical
  spelling.\<close>

datatype tstate = StNum nat | StStr string

fun decimal :: "nat \<Rightarrow> string" where
  "decimal n =
     (if n < 10 then [char_of (48 + n)] else decimal (n div 10) @ [char_of (48 + n mod 10)])"

definition isDigit :: "char \<Rightarrow> bool" where
  "isDigit c = (48 \<le> (of_char c :: nat) \<and> (of_char c :: nat) \<le> 57)"

definition digitsValue :: "string \<Rightarrow> nat" where
  "digitsValue s = foldl (\<lambda>acc c. 10 * acc + ((of_char c :: nat) - 48)) 0 s"

definition strEqNum :: "string \<Rightarrow> nat \<Rightarrow> bool" where
  "strEqNum s n = (list_all isDigit s \<and> digitsValue s = n)"

fun stateEq :: "tstate \<Rightarrow> nat \<Rightarrow> bool" where
  "stateEq (StNum m) n = (m = n)"
| "stateEq (StStr s) n = strEqNum s n"

fun stateInc :: "tstate \<Rightarrow> tstate" where
  "stateInc (StNum m) = StNum (m + 1)"
| "stateInc (StStr s) = StStr (s @ ''1'')"

fun stateString :: "tstate \<Rightarrow> string" where
  "stateString (StNum m) = decimal m"
| "stateString (StStr s) = s"

definition LearningMovement :: nat where "LearningMovement = 0"
definition LearningShooting :: nat where "LearningShooting = 1"
definition Finished :: nat where "Finished = 2"

text \<open>\<open>coarse\<close> is the value of \<open>window.matchMedia("(pointer: coarse)").matches\<close>
  when the script loads.\<close>

definition TutorialMessages :: "bool \<Rightarrow> string list" where
  "TutorialMessages coarse =
     (if coarse
      then [''Drag left side of screen to move'',
            ''Drag or tap right side of screen to shoot'', []]
      else [''WASD to move'', ''Left Mouse Click to shoot'', []])"

definition messageAt :: "bool \<Rightarrow> tstate \<Rightarrow> string option" where
  "messageAt coarse st =
     (let key = stateString st
      in if key = ''0'' then Some (TutorialMessages coarse ! 0)
         else if key = ''1'' then Some (TutorialMessages coarse ! 1)
         else if key = ''2'' then Some (TutorialMessages coarse ! 2)
         else None)"

record TutorialPopup =
  alpha :: real
  dalpha :: real
  popup_text :: "string option"

definition TutorialPopup_new :: "string option \<Rightarrow> TutorialPopup" where
  "TutorialPopup_new txt = \<lparr>alpha = 0.0, dalpha = 0.0, popup_text = txt\<rparr>"

definition fadeIn :: "TutorialPopup \<Rightarrow> TutorialPopup" where
  "fadeIn p = p\<lparr>dalpha := TUTORIAL_POPUP_SPEED\<rparr>"

definition fadeOut :: "TutorialPopup \<Rightarrow> TutorialPopup" where
  "fadeOut p = p\<lparr>dalpha := - TUTORIAL_POPUP_SPEED\<rparr>"

record Tutorial =
  tutorial_state :: tstate
  popup :: TutorialPopup

definition Tutorial_new :: "bool \<Rightarrow> string option \<Rightarrow> Tutorial" where
  "Tutorial_new coarse stored =
     (let st = (case stored of None \<Rightarrow> StNum 0 | Some s \<Rightarrow> StStr s)
      in \<lparr>tutorial_state = st, popup = fadeIn (TutorialPopup_new (messageAt coarse st))\<rparr>)"

text \<open>\<open>Tutorial.update\<close> is \<open>TutorialPopup.update\<close> with the callbacks of the
  constructor: \<open>onFadedOut\<close> swaps the text and fades in, \<open>onFadedIn\<close> is undefined.\<close>

definition Tutorial_update :: "bool \<Rightarrow> real \<Rightarrow> Tutorial \<Rightarrow> Tutorial" where
  "Tutorial_update coarse dt t =
     (let p = (popup t)\<lparr>alpha := alpha (popup t) + dalpha (popup t) * dt\<rparr>
      in if dalpha p < 0.0 \<and> alpha p \<le> 0.0
         then t\<lparr>popup := fadeIn (p\<lparr>dalpha := 0.0, alpha := 0.0,
                                   popup_text := messageAt coarse (tutorial_state t)\<rparr>)\<rparr>
         else if dalpha p > 0.0 \<and> alpha p \<ge> 1.0
         then t\<lparr>popup := p\<lparr>dalpha := 0.0, alpha := 1.0\<rparr>\<rparr>
         else t\<lparr>popup := p\<rparr>)"

text \<open>\<open>playerMoved\<close> and \<open>playerShot\<close> return the tutorial and the content of the
  storage slot after the call.\<close>

definition advance :: "nat \<Rightarrow> Tutorial \<times> string option \<Rightarrow> Tutorial \<times> string option" where
  "advance stage ts =
     (let t = fst ts
      in if stateEq (tutorial_state t) stage
         then (t\<lparr>popup := fadeOut (popup t), tutorial_state := stateInc (tutorial_state t)\<rparr>,
               Some (stateString (stateInc (tutorial_state t))))
         else ts)"

definition Tutorial_playerMoved :: "Tutorial \<times> string option \<Rightarrow> Tutorial \<times> string option" where
  "Tutorial_playerMoved = advance LearningMovement"

definition Tutorial_playerShot :: "Tutorial \<times> string option \<Rightarrow> Tutorial \<times> string option" where
  "Tutorial_playerShot = advance LearningShooting"

section \<open>Player\<close>

record Player =
  health :: real
  target :: V2
  shootCooldown :: real
  lastShoot :: real
  player_trail :: Trail
  player_pos :: V2
  accuracy :: int
  shootCount :: int
  shooting :: bool

definition Player_new :: "string option \<Rightarrow> V2 \<Rightarrow> Player" where
  "Player_new stored pos =
     \<lparr>health = PLAYER_MAX_HEALTH, target = V2 0.0 0.0,
      shootCooldown = PLAYER_SHOOT_COOLDOWN, lastShoot = 0.0,
      player_trail = Trail_new PLAYER_RADIUS PLAYER_COLOR PLAYER_TRAIL_RATE,
      player_pos = pos, accuracy = 0,
      shootCount = (case stored of None \<Rightarrow> - 1
                    | Some s \<Rightarrow> if strEqNum s Finished then 0 else - 1),
      shooting = False\<rparr>"

definition Player_update :: "real \<Rightarrow> V2 \<Rightarrow> Player \<Rightarrow> Player" where
  "Player_update dt vel p =
     p\<lparr>player_trail := Trail_update dt (Trail_push (player_pos p) (player_trail p)),
       player_pos := V2_add (player_pos p) (V2_scale vel dt)\<rparr>"

definition Player_shoot :: "Player \<Rightarrow> Player \<times> Bullet" where
  "Player_shoot p =
     (let bulletDir = V2_normalize (V2_sub (target p) (player_pos p));
          bulletVel = V2_scale bulletDir BULLET_SPEED;
          bulletPos = V2_add (player_pos p) (V2_scale bulletDir (PLAYER_RADIUS + BULLET_RADIUS))
      in (p\<lparr>shootCount := shootCount p + 1\<rparr>, Bullet_new bulletPos bulletVel))"

definition Player_damage :: "real \<Rightarrow> Player \<Rightarrow> Player" where
  "Player_damage v p = p\<lparr>health := max (health p - v) 0.0\<rparr>"

definition Player_heal :: "real \<Rightarrow> Player \<Rightarrow> Player" where
  "Player_heal v p =
     (if health p > 0.0 then p\<lparr>health := min (health p + v) PLAYER_MAX_HEALTH\<rparr> else p)"

section \<open>Renderers\<close>

text \<open>Both renderer classes declare \<open>cameraPos\<close> and \<open>cameraVel\<close> with the same
  \<open>setTarget\<close> and \<open>update\<close>; \<open>grayness\<close> is declared by \<open>Renderer2D\<close> and
  created on a \<open>RendererWebGL\<close> by the first assignment of \<open>Game.update\<close>
  (\<open>None\<close> before it). The fields of one class only are in \<open>backend\<close>. The GL context,
  the 2D context and what is drawn on them are outside the model; of the canvas, its
  size is kept, which \<open>screenToWorld\<close> reads.\<close>

record RendererWebGL =
  circlesCount :: nat
  circleCenterBufferData :: "real list"
  circleRadiusBufferData :: "real list"
  circleColorBufferData :: "real list"

record Renderer2D =
  unitsPerPixel :: real
  canvas_width :: real
  canvas_height :: real

datatype Backend = WebGL RendererWebGL | Canvas2D Renderer2D

record Renderer =
  cameraPos :: V2
  cameraVel :: V2
  grayness :: "real option"
  backend :: Backend

text \<open>The constructor of \<open>RendererWebGL\<close>: three \<open>Float32Array\<close>s of fixed length,
  filled with zeros.\<close>

definition RendererWebGL_new :: RendererWebGL where
  "RendererWebGL_new =
     \<lparr>circlesCount = 0,
      circleCenterBufferData = replicate (VEC2_COUNT * CIRCLE_BATCH_CAPACITY) 0,
      circleRadiusBufferData = replicate CIRCLE_BATCH_CAPACITY 0,
      circleColorBufferData = replicate (RGBA_COUNT * CIRCLE_BATCH_CAPACITY) 0\<rparr>"

text \<open>A write \<open>a[i] = v\<close> to a typed array is \<open>a[i := v]\<close>: outside the array both do
  nothing.\<close>

definition RendererWebGL_fillCircle ::
  "V2 \<Rightarrow> real \<Rightarrow> real Color \<Rightarrow> RendererWebGL \<Rightarrow> RendererWebGL" where
  "RendererWebGL_fillCircle center radius color this =
     (if circlesCount this < CIRCLE_BATCH_CAPACITY
      then this\<lparr>circleCenterBufferData :=
                   (circleCenterBufferData this)
                     [circlesCount this * VEC2_COUNT + VEC2_X := vx center,
                      circlesCount this * VEC2_COUNT + VEC2_Y := vy center],
                 circleRadiusBufferData :=
                   (circleRadiusBufferData this)[circlesCount this := radius],
                 circleColorBufferData :=
                   (circleColorBufferData this)
                     [circlesCount this * RGBA_COUNT + RGBA_R := cr color,
                      circlesCount this * RGBA_COUNT + RGBA_G := cg color,
                      circlesCount this * RGBA_COUNT + RGBA_B := cb color,
                      circlesCount this * RGBA_COUNT + RGBA_A := ca color],
                 circlesCount := circlesCount this + 1\<rparr>
      else this)"

definition RendererWebGL_clear :: "RendererWebGL \<Rightarrow> RendererWebGL" where
  "RendererWebGL_clear this = this\<lparr>circlesCount := 0\<rparr>"

definition Renderer_new :: "Backend \<Rightarrow> Renderer" where
  "Renderer_new b =
     \<lparr>cameraPos = V2 0 0, cameraVel = V2 0 0,
      grayness = (case b of WebGL w \<Rightarrow> None | Canvas2D c \<Rightarrow> Some 0.0),
      backend = b\<rparr>"

definition Renderer_setTarget :: "V2 \<Rightarrow> Renderer \<Rightarrow> Renderer" where
  "Renderer_setTarget tgt this = this\<lparr>cameraVel := V2_sub tgt (cameraPos this)\<rparr>"

definition Renderer_update :: "real \<Rightarrow> Renderer \<Rightarrow> Renderer" where
  "Renderer_update dt this =
     this\<lparr>cameraPos := V2_add (cameraPos this) (V2_scale (cameraVel this) dt)\<rparr>"

text \<open>\<open>screenToWorld\<close> is a method of \<open>Renderer2D\<close> only: the call on a
  \<open>RendererWebGL\<close> is a \<open>TypeError\<close>.\<close>

definition Renderer_screenToWorld :: "Renderer \<Rightarrow> V2 \<Rightarrow> error + V2" where
  "Renderer_screenToWorld this point =
     (case backend this of
        WebGL w \<Rightarrow> Inl TypeError
      | Canvas2D c \<Rightarrow>
          Inr (V2_add
                 (V2_scale (V2_sub point (V2 (canvas_width c / 2) (canvas_height c / 2)))
                    (unitsPerPixel c))
                 (cameraPos this)))"

definition Renderer_clear :: "Renderer \<Rightarrow> Renderer" where
  "Renderer_clear this =
     (case backend this of
        WebGL w \<Rightarrow> this\<lparr>backend := WebGL (RendererWebGL_clear w)\<rparr>
      | Canvas2D c \<Rightarrow> this)"

definition Renderer_fillCircle :: "V2 \<Rightarrow> real \<Rightarrow> real Color \<Rightarrow> Renderer \<Rightarrow> Renderer" where
  "Renderer_fillCircle center radius color this =
     (case backend this of
        WebGL w \<Rightarrow> this\<lparr>backend := WebGL (RendererWebGL_fillCircle center radius color w)\<rparr>
      | Canvas2D c \<Rightarrow> this)"

section \<open>Rendering the entities\<close>

definition Trail_render :: "Trail \<Rightarrow> Renderer \<Rightarrow> Renderer" where
  "Trail_render t =
     fold (\<lambda>dot. Renderer_fillCircle (dot_pos dot) (trail_radius t * dot_a dot)
                   (Color_withAlpha (trail_color t) (0.2 * dot_a dot)))
       (trail t)"

definition Particle_render :: "Particle \<Rightarrow> Renderer \<Rightarrow> Renderer" where
  "Particle_render p =
     Renderer_fillCircle (particle_pos p) (particle_radius p)
       (Color_withAlpha (particle_color p) (particle_lifetime p / PARTICLE_MAX_LIFETIME))"

definition Enemy_render :: "Enemy \<Rightarrow> Renderer \<Rightarrow> Renderer" where
  "Enemy_render e r =
     Renderer_fillCircle (enemy_pos e) (enemy_radius e) ENEMY_COLOR (Trail_render (enemy_trail e) r)"

definition Bullet_render :: "Bullet \<Rightarrow> Renderer \<Rightarrow> Renderer" where
  "Bullet_render b = Renderer_fillCircle (bullet_pos b) BULLET_RADIUS PLAYER_COLOR"

definition Player_render :: "Player \<Rightarrow> Renderer \<Rightarrow> Renderer" where
  "Player_render p r =
     (let r1 = Trail_render (player_trail p) r
      in if health p > 0.0 then Renderer_fillCircle (player_pos p) PLAYER_RADIUS PLAYER_COLOR r1
         else r1)"

section \<open>Game\<close>

text \<open>The fields of \<open>Game\<close> as \<open>restart\<close> and the constructor assign them.
  \<open>camera\<close> is the property that \<open>mouseMove\<close> reads: no method assigns it, so it
  is \<open>None\<close> (undefined) in a constructed game. The last two fields are the browser
  state the methods read and write: the storage slot \<open>tutorial\<close> and the number of
  calls of \<open>Math.random\<close> made so far.\<close>

record Game =
  player :: Player
  score :: int
  mousePos :: V2
  movingTouchId :: "int option"
  movingTouchStart :: V2
  movingTouchDirection :: V2
  shootingTouchId :: "int option"
  shootingTouchStart :: V2
  shootingTouchDirection :: V2
  pressedKeys :: "string list"
  tutorial :: Tutorial
  bullets :: "Bullet list"
  enemies :: "Enemy list"
  particles :: "Particle list"
  enemySpawnRate :: real
  enemySpawnCooldown :: real
  paused :: bool
  renderer :: Renderer
  camera :: "Renderer option"
  localStorage :: "string option"
  randomCalls :: nat

definition Game_restart :: "bool \<Rightarrow> Game \<Rightarrow> Game" where
  "Game_restart coarse this =
     this\<lparr>player := Player_new (localStorage this) (V2 0 0),
          score := 0,
          mousePos := V2 0 0,
          movingTouchId := None,
          movingTouchStart := V2 0.0 0.0,
          movingTouchDirection := V2 0.0 0.0,
          shootingTouchId := None,
          shootingTouchStart := V2 0.0 0.0,
          shootingTouchDirection := V2 0.0 0.0,
          pressedKeys := [],
          tutorial := Tutorial_new coarse (localStorage this),
          bullets := [],
          enemies := [],
          particles := [],
          enemySpawnRate := ENEMY_SPAWN_COOLDOWN,
          enemySpawnCooldown := ENEMY_SPAWN_COOLDOWN,
          paused := False,
          renderer := (renderer this)\<lparr>cameraPos := V2 0.0 0.0, cameraVel := V2 0.0 0.0\<rparr>\<rparr>"

text \<open>The constructor stores the renderer and calls \<open>restart\<close>.\<close>

definition Game_new :: "bool \<Rightarrow> Renderer \<Rightarrow> string option \<Rightarrow> nat \<Rightarrow> Game" where
  "Game_new coarse r stored calls =
     \<lparr>player = Player_new stored (V2 0 0),
      score = 0,
      mousePos = V2 0 0,
      movingTouchId = None,
      movingTouchStart = V2 0.0 0.0,
      movingTouchDirection = V2 0.0 0.0,
      shootingTouchId = None,
      shootingTouchStart = V2 0.0 0.0,
      shootingTouchDirection = V2 0.0 0.0,
      pressedKeys = [],
      tutorial = Tutorial_new coarse stored,
      bullets = [],
      enemies = [],
      particles = [],
      enemySpawnRate = ENEMY_SPAWN_COOLDOWN,
      enemySpawnCooldown = ENEMY_SPAWN_COOLDOWN,
      paused = False,
      renderer = r\<lparr>cameraPos := V2 0.0 0.0, cameraVel := V2 0.0 0.0\<rparr>,
      camera = None,
      localStorage = stored,
      randomCalls = calls\<rparr>"

subsection \<open>The stages of \<open>Game.update\<close>\<close>

text \<open>Lines 824 to 825: the camera.\<close>

definition cameraStage :: "real \<Rightarrow> Game \<Rightarrow> Game" where
  "cameraStage dt this =
     this\<lparr>renderer :=
            Renderer_update dt (Renderer_setTarget (player_pos (player this)) (renderer this))\<rparr>"

text \<open>Lines 827 to 840: the velocity of the held keys (in the order they were pressed)
  and of the touch drag, the tutorial transition, the player's move. The keys are the
  values of \<open>event.code\<close>, none of which names a property that \<open>directionMap\<close>
  inherits, so \<open>key in directionMap\<close> is a lookup of its four own keys.\<close>

definition heldKeys :: "string list \<Rightarrow> V2 \<times> bool" where
  "heldKeys keys =
     fold (\<lambda>key vm. case directionMap key of
                       Some d \<Rightarrow> (V2_add (fst vm) d, True)
                     | None \<Rightarrow> vm)
       keys (V2 0 0, False)"

definition moveStage :: "real \<Rightarrow> Game \<Rightarrow> Game" where
  "moveStage dt this =
     (let vm = heldKeys (pressedKeys this);
          vel = V2_scale (V2_normalize (V2_add (fst vm) (movingTouchDirection this))) PLAYER_SPEED;
          ts = (if snd vm then Tutorial_playerMoved (tutorial this, localStorage this)
                else (tutorial this, localStorage this))
      in this\<lparr>tutorial := fst ts, localStorage := snd ts,
               player := Player_update dt vel (player this)\<rparr>)"

text \<open>Lines 841 to 848: shooting. \<open>now\<close> is \<open>performance.now() / 1000\<close>, the wall
  clock read in this frame.\<close>

definition shootStage :: "real \<Rightarrow> Game \<Rightarrow> Game" where
  "shootStage now this =
     (if shooting (player this)
      then if now - lastShoot (player this) > shootCooldown (player this)
           then (let ts = Tutorial_playerShot (tutorial this, localStorage this);
                     pb = Player_shoot ((player this)\<lparr>lastShoot := now\<rparr>)
                 in this\<lparr>tutorial := fst ts, localStorage := snd ts,
                          player := fst pb, bullets := bullets this @ [snd pb]\<rparr>)
           else this
      else this)"

text \<open>Line 850.\<close>

definition tutorialStage :: "bool \<Rightarrow> real \<Rightarrow> Game \<Rightarrow> Game" where
  "tutorialStage coarse dt this = this\<lparr>tutorial := Tutorial_update coarse dt (tutorial this)\<rparr>"

text \<open>Lines 855 to 862: the body of the inner loop, for the enemy at index \<open>i\<close> and
  the bullet at index \<open>j\<close>.\<close>

definition bulletHit :: "random \<Rightarrow> nat \<Rightarrow> nat \<Rightarrow> Game \<Rightarrow> Game" where
  "bulletHit rnd i j this =
     (let enemy = enemies this ! i; bullet = bullets this ! j
      in if V2_dist (enemy_pos enemy) (bullet_pos bullet) \<le> BULLET_RADIUS + ENEMY_RADIUS
         then (let burst = particleBurst rnd (randomCalls this) (particles this)
                             (enemy_pos enemy) ENEMY_COLOR
               in this\<lparr>score := score this + ENEMY_KILL_SCORE,
                        player := (Player_heal ENEMY_KILL_HEAL (player this))
                                    \<lparr>accuracy := accuracy (player this) + 1\<rparr>,
                        bullets := (bullets this)[j := bullet\<lparr>bullet_lifetime := 0.0\<rparr>],
                        enemies := (enemies this)[i := enemy\<lparr>ded := True\<rparr>],
                        particles := fst burst,
                        randomCalls := snd burst\<rparr>)
         else this)"

text \<open>Lines 866 to 878: the enemy at index \<open>i\<close> against the player.\<close>

definition disableTrail :: "Enemy \<Rightarrow> Enemy" where
  "disableTrail e = e\<lparr>enemy_trail := (enemy_trail e)\<lparr>disabled := True\<rparr>\<rparr>"

definition playerHit :: "random \<Rightarrow> nat \<Rightarrow> Game \<Rightarrow> Game" where
  "playerHit rnd i this =
     (let enemy = enemies this ! i
      in if health (player this) > 0.0 \<and> \<not> ded enemy
         then if V2_dist (enemy_pos enemy) (player_pos (player this))
                   \<le> PLAYER_RADIUS + ENEMY_RADIUS
              then (let p1 = Player_damage ENEMY_DAMAGE (player this);
                        dead = (health p1 \<le> 0.0);
                        p2 = (if dead then p1\<lparr>player_trail := (player_trail p1)\<lparr>disabled := True\<rparr>\<rparr>
                              else p1);
                        es = (if dead then map disableTrail (enemies this) else enemies this);
                        burst = particleBurst rnd (randomCalls this) (particles this)
                                  (enemy_pos enemy) PLAYER_COLOR
                    in this\<lparr>player := p2,
                             enemies := es[i := (es ! i)\<lparr>ded := True\<rparr>],
                             particles := fst burst,
                             randomCalls := snd burst\<rparr>)
              else this
         else this)"

text \<open>Lines 852 to 879: the two loops. The enemies and the bullets are visited by
  index; neither array changes its length during the scan.\<close>

definition collideEnemy :: "random \<Rightarrow> nat \<Rightarrow> Game \<Rightarrow> Game" where
  "collideEnemy rnd i this =
     playerHit rnd i
       (if \<not> ded (enemies this ! i)
        then fold (bulletHit rnd i) [0..<length (bullets this)] this
        else this)"

definition collisions :: "random \<Rightarrow> Game \<Rightarrow> Game" where
  "collisions rnd this = fold (collideEnemy rnd) [0..<length (enemies this)] this"

text \<open>Lines 881 to 896: every bullet, particle and enemy is updated, and the arrays
  are filtered.\<close>

definition advanceStage :: "real \<Rightarrow> Game \<Rightarrow> Game" where
  "advanceStage dt this =
     this\<lparr>bullets := filter (\<lambda>bullet. bullet_lifetime bullet > 0.0)
                        (map (Bullet_update dt) (bullets this)),
          particles := filter (\<lambda>particle. particle_lifetime particle > 0.0)
                         (map (Particle_update dt) (particles this)),
          enemies := filter (\<lambda>enemy. \<not> ded enemy \<and>
                                V2_dist (enemy_pos enemy) (player_pos (player this))
                                  < ENEMY_DESPAWN_DISTANCE)
                       (map (Enemy_update dt (player_pos (player this))) (enemies this))\<rparr>"

text \<open>Lines 936 to 939 and 898 to 905: the spawn scheduler.\<close>

definition spawnEnemy :: "random \<Rightarrow> Game \<Rightarrow> Game" where
  "spawnEnemy rnd this =
     (let dir = randomAngle rnd (randomCalls this)
      in this\<lparr>enemies := enemies this @
                  [Enemy_new (V2_add (player_pos (player this))
                                (V2_polar ENEMY_SPAWN_DISTANCE dir))],
               randomCalls := randomCalls this + 1\<rparr>)"


definition spawnScheduler :: "random \<Rightarrow> real \<Rightarrow> Game \<Rightarrow> Game" where
  "spawnScheduler rnd dt this =
     (if stateEq (tutorial_state (tutorial this)) Finished
      then (let g1 = this\<lparr>enemySpawnCooldown := enemySpawnCooldown this - dt\<rparr>
            in if enemySpawnCooldown g1 \<le> 0.0
               then (let g2 = spawnEnemy rnd g1
                     in g2\<lparr>enemySpawnCooldown := enemySpawnRate g2,
                           enemySpawnRate := enemySpawnRate g2 / ENEMY_SPAWN_GROWTH\<rparr>)
               else g1)
      else this)"

subsection \<open>\<open>Game.update\<close>\<close>

text \<open>\<open>coarse\<close>, \<open>rnd\<close> and \<open>now\<close> are what the browser supplies: the pointer kind read
  when the script loaded, the draws of \<open>Math.random\<close>, and the clock of this frame in
  seconds.\<close>

text \<open>Lines 820 to 822: the time of a frame is divided by 50 once the player is
  dead.\<close>

definition frameTime :: "real \<Rightarrow> Game \<Rightarrow> real" where
  "frameTime dt0 this = (if health (player this) \<le> 0.0 then dt0 / 50 else dt0)"

definition Game_update :: "bool \<Rightarrow> random \<Rightarrow> real \<Rightarrow> real \<Rightarrow> Game \<Rightarrow> Game" where
  "Game_update coarse rnd now dt0 this =
     (if paused this
      then this\<lparr>renderer := (renderer this)\<lparr>grayness := Some 1.0\<rparr>\<rparr>
      else (let g0 = this\<lparr>renderer := (renderer this)
                       \<lparr>grayness := Some (1.0 - health (player this) / PLAYER_MAX_HEALTH)\<rparr>\<rparr>;
                dt = frameTime dt0 g0
            in spawnScheduler rnd dt
                 (advanceStage dt
                    (collisions rnd
                       (tutorialStage coarse dt
                          (shootStage now
                             (moveStage dt
                                (cameraStage dt g0))))))))"

subsection \<open>\<open>Game.render\<close>\<close>

definition Game_render :: "Game \<Rightarrow> Game" where
  "Game_render this =
     this\<lparr>renderer :=
            fold Enemy_render (enemies this)
              (fold Particle_render (particles this)
                 (fold Bullet_render (bullets this)
                    (Player_render (player this) (Renderer_clear (renderer this)))))\<rparr>"

subsection \<open>The input handlers\<close>

record Touch =
  touch_identifier :: int
  clientX :: real
  clientY :: real

definition Game_togglePause :: "Game \<Rightarrow> Game" where
  "Game_togglePause this = this\<lparr>paused := \<not> paused this\<rparr>"

definition Game_keyDown :: "bool \<Rightarrow> string \<Rightarrow> Game \<Rightarrow> Game" where
  "Game_keyDown coarse code this =
     (if health (player this) \<le> 0.0 \<and> code = ''Space'' then Game_restart coarse this
      else (let g1 = (if code = ''Space'' then Game_togglePause this else this)
            in g1\<lparr>pressedKeys :=
                    (if code \<in> set (pressedKeys g1) then pressedKeys g1
                     else pressedKeys g1 @ [code])\<rparr>))"

definition Game_keyUp :: "string \<Rightarrow> Game \<Rightarrow> Game" where
  "Game_keyUp code this = this\<lparr>pressedKeys := removeAll code (pressedKeys this)\<rparr>"

text \<open>\<open>mouseMove\<close> reads \<open>this.camera\<close>; a call of a method on \<open>undefined\<close> is a
  \<open>TypeError\<close>, raised before the player's target is assigned.\<close>

definition Game_mouseMove :: "real \<Rightarrow> real \<Rightarrow> Game \<Rightarrow> error + Game" where
  "Game_mouseMove offsetX offsetY this =
     (if \<not> paused this \<and> shooting (player this)
      then (case camera this of
              None \<Rightarrow> Inl TypeError
            | Some c \<Rightarrow>
                (case Renderer_screenToWorld c (V2 offsetX offsetY) of
                   Inl e \<Rightarrow> Inl e
                 | Inr p \<Rightarrow> Inr (this\<lparr>player := (player this)\<lparr>target := p\<rparr>\<rparr>)))
      else Inr this)"

definition Game_mouseDown :: "real \<Rightarrow> real \<Rightarrow> Game \<Rightarrow> error + Game" where
  "Game_mouseDown offsetX offsetY this =
     (if paused this then Inr (this\<lparr>paused := False\<rparr>)
      else if health (player this) \<le> 0.0 then Inr this
      else (case Renderer_screenToWorld (renderer this) (V2 offsetX offsetY) of
              Inl e \<Rightarrow> Inl e
            | Inr p \<Rightarrow> Inr (this\<lparr>player := (player this)\<lparr>target := p, shooting := True\<rparr>\<rparr>)))"

definition Game_mouseUp :: "Game \<Rightarrow> Game" where
  "Game_mouseUp this = this\<lparr>player := (player this)\<lparr>shooting := False\<rparr>\<rparr>"

definition touchMove1 :: "Touch \<Rightarrow> Game \<Rightarrow> Game" where
  "touchMove1 touch this =
     (let g1 = (if Some (touch_identifier touch) = movingTouchId this
                then this\<lparr>movingTouchDirection :=
                            V2_sub (V2 (clientX touch) (clientY touch)) (movingTouchStart this)\<rparr>
                else this)
      in if Some (touch_identifier touch) = shootingTouchId g1
         then (let d = V2_scale (V2_sub (V2 (clientX touch) (clientY touch))
                                   (shootingTouchStart g1)) 1000
               in g1\<lparr>shootingTouchDirection := d,
                     player := (player g1)\<lparr>target := V2_add (player_pos (player g1)) d,
                                            shooting := True\<rparr>\<rparr>)
         else g1)"

definition Game_touchMove :: "Touch list \<Rightarrow> Game \<Rightarrow> Game" where
  "Game_touchMove changedTouches this = fold touchMove1 changedTouches this"

text \<open>\<open>innerWidth\<close> is \<open>window.innerWidth\<close> at the event.\<close>

definition touchDown1 :: "real \<Rightarrow> Touch \<Rightarrow> Game \<Rightarrow> Game" where
  "touchDown1 innerWidth touch this =
     (if clientX touch < innerWidth / 2
      then if movingTouchId this = None
           then this\<lparr>movingTouchId := Some (touch_identifier touch),
                     movingTouchStart := V2 (clientX touch) (clientY touch)\<rparr>
           else this
      else if shootingTouchId this = None
           then this\<lparr>shootingTouchId := Some (touch_identifier touch),
                     shootingTouchStart := V2 (clientX touch) (clientY touch)\<rparr>
           else this)"

definition Game_touchDown :: "bool \<Rightarrow> real \<Rightarrow> Touch list \<Rightarrow> Game \<Rightarrow> Game" where
  "Game_touchDown coarse innerWidth changedTouches this =
     (if paused this then this\<lparr>paused := False\<rparr>
      else if health (player this) \<le> 0.0 then Game_restart coarse this
      else (let ts = Tutorial_playerMoved (tutorial this, localStorage this)
            in fold (touchDown1 innerWidth) changedTouches
                 (this\<lparr>tutorial := fst ts, localStorage := snd ts\<rparr>)))"

definition touchUp1 :: "Touch \<Rightarrow> Game \<Rightarrow> Game" where
  "touchUp1 touch this =
     (let g1 = (if movingTouchId this = Some (touch_identifier touch)
                then this\<lparr>movingTouchId := None, movingTouchDirection := V2 0.0 0.0\<rparr>
                else this)
      in if shootingTouchId g1 = Some (touch_identifier touch)
         then g1\<lparr>shootingTouchId := None, player := (player g1)\<lparr>shooting := False\<rparr>\<rparr>
         else g1)"

definition Game_touchUp :: "Touch list \<Rightarrow> Game \<Rightarrow> Game" where
  "Game_touchUp changedTouches this = fold touchUp1 changedTouches this"

text \<open>The listener of \<open>blur\<close>.\<close>

definition onBlur :: "Game \<Rightarrow> Game" where
  "onBlur this = (if health (player this) > 0.0 then this\<lparr>paused := True\<rparr> else this)"

subsection \<open>Runs of the game\<close>

text \<open>What the browser delivers to the game: the input events and the animation frame,
  which calls \<open>update\<close> and then \<open>render\<close>. A handler that raises leaves the game as
  it was.\<close>

datatype event =
    KeyDown string
  | KeyUp string
  | MouseMove real real
  | MouseDown real real
  | MouseUp
  | TouchMove "Touch list"
  | TouchDown real "Touch list"
  | TouchUp "Touch list"
  | Blur
  | Frame real real

fun handle :: "bool \<Rightarrow> random \<Rightarrow> event \<Rightarrow> Game \<Rightarrow> error + Game" where
  "handle coarse rnd (KeyDown code) g = Inr (Game_keyDown coarse code g)"
| "handle coarse rnd (KeyUp code) g = Inr (Game_keyUp code g)"
| "handle coarse rnd (MouseMove ox oy) g = Game_mouseMove ox oy g"
| "handle coarse rnd (MouseDown ox oy) g = Game_mouseDown ox oy g"
| "handle coarse rnd MouseUp g = Inr (Game_mouseUp g)"
| "handle coarse rnd (TouchMove ts) g = Inr (Game_touchMove ts g)"
| "handle coarse rnd (TouchDown w ts) g = Inr (Game_touchDown coarse w ts g)"
| "handle coarse rnd (TouchUp ts) g = Inr (Game_touchUp ts g)"
| "handle coarse rnd Blur g = Inr (onBlur g)"
| "handle coarse rnd (Frame now dt) g = Inr (Game_render (Game_update coarse rnd now dt g))"

inductive reachable :: "bool \<Rightarrow> random \<Rightarrow> Game \<Rightarrow> bool" for coarse rnd where
  reach_game: "reachable coarse rnd (Game_new coarse r stored calls)"
| reach_event: "reachable coarse rnd g \<Longrightarrow> handle coarse rnd ev g = Inr g' \<Longrightarrow> reachable coarse rnd g'"

section \<open>Invariants and observations\<close>

text \<open>The samples of a trail are in the order of their insertion, and a sample loses
  intensity from the tick of its insertion on: the intensities do not decrease from the
  front to the back, and the newest sample is bounded by the time since its insertion.\<close>

definition Trail_inv :: "Trail \<Rightarrow> bool" where
  "Trail_inv t =
     (0 \<le> rate t \<and> sorted (map dot_a (trail t)) \<and>
      (trail t = [] \<or>
       dot_a (last (trail t)) + rate t * (TRAIL_COOLDOWN - cooldown t) \<le> 1))"

text \<open>The buffers of a \<open>RendererWebGL\<close> have the lengths the constructor gives them,
  and \<open>recorded this i\<close> is the circle that the three buffers hold in slot \<open>i\<close>.\<close>

definition buffersAllocated :: "RendererWebGL \<Rightarrow> bool" where
  "buffersAllocated this =
     (length (circleCenterBufferData this) = VEC2_COUNT * CIRCLE_BATCH_CAPACITY \<and>
      length (circleRadiusBufferData this) = CIRCLE_BATCH_CAPACITY \<and>
      length (circleColorBufferData this) = RGBA_COUNT * CIRCLE_BATCH_CAPACITY)"

definition recorded :: "RendererWebGL \<Rightarrow> nat \<Rightarrow> V2 \<times> real \<times> real Color" where
  "recorded this i =
     (V2 (circleCenterBufferData this ! (i * VEC2_COUNT + VEC2_X))
         (circleCenterBufferData this ! (i * VEC2_COUNT + VEC2_Y)),
      circleRadiusBufferData this ! i,
      Color (circleColorBufferData this ! (i * RGBA_COUNT + RGBA_R))
            (circleColorBufferData this ! (i * RGBA_COUNT + RGBA_G))
            (circleColorBufferData this ! (i * RGBA_COUNT + RGBA_B))
            (circleColorBufferData this ! (i * RGBA_COUNT + RGBA_A)))"

text \<open>A sequence of calls of \<open>fillCircle\<close>, each with its centre, radius and colour.\<close>

definition fillCircles :: "(V2 \<times> real \<times> real Color) list \<Rightarrow> RendererWebGL \<Rightarrow> RendererWebGL" where
  "fillCircles cs this =
     fold (\<lambda>c. RendererWebGL_fillCircle (fst c) (fst (snd c)) (snd (snd c))) cs this"

text \<open>What the collision scan of \<open>Game.update\<close> keeps from one step to the next: it
  touches the score, the player's health and counters, the particles, the draws, the
  \<open>ded\<close> flags, the lifetimes of bullets and the \<open>disabled\<close> flags of trails, and
  nothing else; a \<open>ded\<close> flag is never reset, a lifetime set to 0 stays 0, and the
  score and the hit counter do not go down.\<close>

definition scanKeeps :: "Game \<Rightarrow> Game \<Rightarrow> bool" where
  "scanKeeps g g' =
     (camera g' = camera g \<and> paused g' = paused g \<and> tutorial g' = tutorial g \<and>
      localStorage g' = localStorage g \<and> renderer g' = renderer g \<and>
      enemySpawnRate g' = enemySpawnRate g \<and> enemySpawnCooldown g' = enemySpawnCooldown g \<and>
      player_pos (player g') = player_pos (player g) \<and>
      shooting (player g') = shooting (player g) \<and>
      cooldown (player_trail (player g')) = cooldown (player_trail (player g)) \<and>
      score g \<le> score g' \<and> accuracy (player g) \<le> accuracy (player g') \<and>
      list_all2 (\<lambda>e e'. enemy_pos e' = enemy_pos e \<and> (\<not> ded e \<or> ded e'))
        (enemies g) (enemies g') \<and>
      list_all2 (\<lambda>b b'. bullet_pos b' = bullet_pos b \<and> bullet_vel b' = bullet_vel b \<and>
                         (bullet_lifetime b' = bullet_lifetime b \<or> bullet_lifetime b' = 0))
        (bullets g) (bullets g'))"


text \<open>
  The error of one rounding is at most the unit roundoff, relative to the exact value,
  for a magnitude in the range of the normal doubles. \<open>nearly k a b\<close>: the magnitudes
  \<open>a\<close> and \<open>b\<close> are the same up to \<open>k\<close> roundings.
\<close>

definition unitRoundoff :: real where
  "unitRoundoff = 1 / 2 ^ 53"

definition nearly :: "nat \<Rightarrow> real \<Rightarrow> real \<Rightarrow> bool" where
  "nearly k a b \<longleftrightarrow>
     0 \<le> a \<and> 0 \<le> b \<and> b * (1 - unitRoundoff) ^ k \<le> a \<and> a * (1 - unitRoundoff) ^ k \<le> b"

definition normal :: "real \<Rightarrow> bool" where
  "normal m \<longleftrightarrow> 1 / 2 ^ 1022 \<le> m \<and> m \<le> 2 ^ 1023"

section \<open>Sample inputs\<close>

text \<open>Concrete inputs: a source of draws that are all 0, a 2D renderer on a canvas of
  the reference size, the game of a first session, and the game of a session that finds
  the finished tutorial in the storage slot.\<close>

definition zeroDraws :: random where
  "zeroDraws k = 0"

definition canvasRenderer :: Renderer where
  "canvasRenderer =
     Renderer_new (Canvas2D \<lparr>unitsPerPixel = 1, canvas_width = 3840, canvas_height = 2160\<rparr>)"

definition firstGame :: Game where
  "firstGame = Game_new False canvasRenderer None 0"

definition trainedGame :: Game where
  "trainedGame = Game_new False canvasRenderer (Some ''2'') 0"

text \<open>The first game after a press of the mouse button 1000 pixels to the right of the
  centre of the canvas (lemma \<open>aimingGame_mouseDown\<close>).\<close>

definition aimingGame :: Game where
  "aimingGame = firstGame\<lparr>player := (player firstGame)\<lparr>target := V2 1000 0, shooting := True\<rparr>\<rparr>"

text \<open>Two games in the middle of a session that finds the finished tutorial: an enemy
  500 units to the right of the player and a bullet at the enemy's position; the player
  has 95 health in the first and is dead (health 0, the trail disabled) in the second.\<close>

definition duelGame :: Game where
  "duelGame =
     trainedGame\<lparr>player := (player trainedGame)\<lparr>health := 95\<rparr>,
                 enemies := [Enemy_new (V2 500 0)],
                 bullets := [Bullet_new (V2 500 0) (V2 2000 0)]\<rparr>"

definition fallenGame :: Game where
  "fallenGame =
     trainedGame\<lparr>player := (player trainedGame)
                   \<lparr>health := 0,
                    player_trail := (player_trail (player trainedGame))\<lparr>disabled := True\<rparr>\<rparr>,
                 enemies := [Enemy_new (V2 500 0)],
                 bullets := [Bullet_new (V2 500 0) (V2 2000 0)]\<rparr>"

section \<open>Properties\<close>

subsection \<open>Colours\<close>

lemma color_constants:
  "Color_hex ''#f43841'' = Inr (map_Color Num PLAYER_COLOR)"
  "Color_hex ''#9e95c7'' = Inr (map_Color Num ENEMY_COLOR)"
  "Color_hex ''#ffffff'' = Inr (map_Color Num MESSAGE_COLOR)"
  by (simp_all add: Color_hex_def inClass_def parseInt16_def digitValue_def isWhiteSpace_def
      PLAYER_COLOR_def ENEMY_COLOR_def MESSAGE_COLOR_def)

lemma Color_hex_raises_iff: "(\<exists>e. Color_hex s = Inl e) \<longleftrightarrow> hexMatch s = None"
  by (auto simp: Color_hex_def split: option.splits)

text \<open>
  Claim C5. \<open>Color.hex\<close> should succeed exactly on the strings that hold a colour of
  six hexadecimal digits, and raise a parse error on every other string. The class of
  the pattern is \<open>[0-9a-z]\<close>, not \<open>[0-9a-f]\<close>: the string \<open>#zzzzzz\<close> matches, no
  error is raised, and the colour returned has \<open>NaN\<close> for red, green and blue.
\<close>

theorem Color_hex_accepts_non_hex:
  "Color_hex ''#zzzzzz'' = Inr (Color NaN NaN NaN (Num 1))"
  by (simp add: Color_hex_def inClass_def parseInt16_def digitValue_def isWhiteSpace_def)

subsection \<open>Vectors\<close>

text \<open>Rounding: the integer chosen, the exponent of a normal magnitude, and the bound
  of the error.\<close>

lemma roundEven_near: "\<bar>of_int (roundEven z) - z\<bar> \<le> 1 / 2"
  unfolding roundEven_def Let_def by (auto; linarith)

lemma roundEven_eq:
  assumes "of_int m - 1 / 2 < z" and "z < of_int m + 1 / 2"
  shows "roundEven z = m"
proof -
  have "\<bar>of_int (roundEven z) - z\<bar> \<le> 1 / 2" by (rule roundEven_near)
  then have "\<bar>(of_int (roundEven z) :: real) - of_int m\<bar> < 1" using assms by linarith
  then have "\<bar>(of_int (roundEven z - m) :: real)\<bar> < 1" by simp
  then have "\<bar>roundEven z - m\<bar> < 1" by linarith
  then show ?thesis by simp
qed

lemma powi_powr: "(2::real) powi k = 2 powr of_int k"
  by (simp add: powr_real_of_int')

lemma exponent_eq:
  assumes lo: "2 powi k \<le> m" and hi: "m < 2 powi (k + 1)" and k: "- 1022 \<le> k"
  shows "exponent m = k"
proof -
  have "(0::real) < 2 powi k" by simp
  then have pos: "0 < m" using lo by linarith
  have "(2::real) powr of_int k \<le> m" using lo by (simp only: powi_powr)
  moreover have "m < (2::real) powr of_int (k + 1)" using hi by (simp only: powi_powr)
  ultimately have "\<lfloor>log 2 m\<rfloor> = k" using pos floor_log_eq_powr_iff [of m 2 k] by simp
  then show ?thesis using k by (simp add: exponent_def)
qed

lemma normal_pos: "normal m \<Longrightarrow> 0 < m"
proof -
  assume "normal m"
  then have "1 / 2 ^ 1022 \<le> m" by (simp add: normal_def)
  moreover have "(0::real) < 1 / 2 ^ 1022" by simp
  ultimately show ?thesis by linarith
qed

lemma exponent_normal:
  assumes n: "normal m"
  shows "\<exists>k. - 1022 \<le> k \<and> k \<le> 1023 \<and> exponent m = k \<and> 2 powi k \<le> m \<and> m < 2 powi (k + 1)"
proof -
  define k where "k = \<lfloor>log 2 m\<rfloor>"
  have pos: "0 < m" using n by (rule normal_pos)
  have b: "2 powr of_int k \<le> m \<and> m < 2 powr of_int (k + 1)"
    using floor_log_eq_powr_iff [of m 2 k] pos by (simp add: k_def)
  have lo: "(2::real) powi (- 1022) \<le> m"
    using n by (simp add: normal_def power_int_minus field_simps)
  have hi: "m \<le> (2::real) powi 1023"
    using n by (simp add: normal_def)
  have "(2::real) powr of_int (- 1022) < 2 powr of_int (k + 1)"
    using lo b unfolding powi_powr by linarith
  then have "(of_int (- 1022) :: real) < of_int (k + 1)" by (simp only: powr_less_cancel_iff one_less_numeral_iff num.simps semiring_norm)
  then have k1: "- 1022 < k + 1" by (simp only: of_int_less_iff)
  have "(2::real) powr of_int k \<le> 2 powr of_int 1023" using hi b unfolding powi_powr by linarith
  then have "(of_int k :: real) \<le> of_int 1023" by (simp only: powr_le_cancel_iff one_less_numeral_iff num.simps semiring_norm)
  then have k2: "k \<le> 1023" by (simp only: of_int_le_iff)
  have "exponent m = k" using k1 by (simp add: exponent_def k_def [symmetric])
  then show ?thesis using k1 k2 b by (auto simp: powi_powr)
qed


lemma nearest_normal:
  assumes n: "normal m"
  shows "m * (1 - unitRoundoff) \<le> nearest m" and "nearest m \<le> m * (1 + unitRoundoff)"
proof -
  obtain k where k: "exponent m = k" "2 powi k \<le> m"
    using exponent_normal [OF n] by blast
  define q where "q = ulp m"
  have q: "q = 2 powi k / 2 ^ 52" by (simp add: q_def ulp_def k power_int_diff)
  have qpos: "0 < q" by (simp add: q)
  have pos: "0 < m" using n by (rule normal_pos)
  define z where "z = m / q"
  have mz: "m = z * q" using qpos by (simp add: z_def)
  have r: "nearest m = of_int (roundEven z) * q" using pos by (simp add: nearest_def q_def z_def)
  have "\<bar>of_int (roundEven z) - z\<bar> \<le> 1 / 2" by (rule roundEven_near)
  then have "\<bar>of_int (roundEven z) - z\<bar> * q \<le> 1 / 2 * q"
    using qpos by (simp only: mult_le_cancel_right_pos)
  moreover have "of_int (roundEven z) * q - m = (of_int (roundEven z) - z) * q"
    using mz by (simp add: left_diff_distrib)
  then have "\<bar>nearest m - m\<bar> = \<bar>of_int (roundEven z) - z\<bar> * q"
    using qpos by (simp only: r abs_mult abs_of_pos)
  ultimately have d: "\<bar>nearest m - m\<bar> \<le> q / 2" by simp
  have "q / 2 = unitRoundoff * 2 powi k" by (simp add: q unitRoundoff_def)
  also have "\<dots> \<le> unitRoundoff * m" using k by (simp add: unitRoundoff_def)
  finally have "\<bar>nearest m - m\<bar> \<le> unitRoundoff * m" using d by linarith
  then show "m * (1 - unitRoundoff) \<le> nearest m" and "nearest m \<le> m * (1 + unitRoundoff)"
    by (simp_all add: algebra_simps abs_le_iff)
qed


text \<open>How the error grows through sums, products, quotients and square roots.\<close>

lemma roundoff_bounds: "0 < 1 - unitRoundoff" "1 - unitRoundoff \<le> 1" "0 \<le> unitRoundoff"
  by (simp_all add: unitRoundoff_def)

lemma roundoff_power: "0 < (1 - unitRoundoff) ^ k" "(1 - unitRoundoff) ^ k \<le> 1"
  using roundoff_bounds by (simp_all add: power_le_one)

lemma nearly_refl: "0 \<le> a \<Longrightarrow> nearly k a a"
  using roundoff_power [of k] by (simp add: nearly_def mult_left_le)

lemma nearly_trans:
  assumes "nearly j a b" and "nearly k b c"
  shows "nearly (j + k) a c"
proof -
  let ?c = "1 - unitRoundoff"
  have cj: "0 \<le> ?c ^ j" and ck: "0 \<le> ?c ^ k" using roundoff_power by (simp_all add: less_imp_le)
  have "c * ?c ^ (j + k) = (c * ?c ^ k) * ?c ^ j" by (simp add: power_add)
  also have "\<dots> \<le> b * ?c ^ j" using assms(2) cj by (simp only: nearly_def mult_right_mono)
  also have "\<dots> \<le> a" using assms(1) by (simp add: nearly_def)
  finally have 1: "c * ?c ^ (j + k) \<le> a" .
  have "a * ?c ^ (j + k) = (a * ?c ^ j) * ?c ^ k" by (simp add: power_add)
  also have "\<dots> \<le> b * ?c ^ k" using assms(1) ck by (simp only: nearly_def mult_right_mono)
  also have "\<dots> \<le> c" using assms(2) by (simp add: nearly_def)
  finally have 2: "a * ?c ^ (j + k) \<le> c" .
  show ?thesis using 1 2 assms by (simp add: nearly_def)
qed

lemma nearly_add:
  assumes "nearly k a b" and "nearly k a' b'"
  shows "nearly k (a + a') (b + b')"
  using assms by (simp add: nearly_def distrib_right)

lemma nearly_mult:
  assumes "nearly j a b" and "nearly k a' b'"
  shows "nearly (j + k) (a * a') (b * b')"
proof -
  let ?c = "1 - unitRoundoff"
  have cj: "0 \<le> ?c ^ j" and ck: "0 \<le> ?c ^ k" using roundoff_power by (simp_all add: less_imp_le)
  have "(b * ?c ^ j) * (b' * ?c ^ k) \<le> a * a'"
    using assms cj ck by (intro mult_mono) (simp_all add: nearly_def)
  moreover have "(a * ?c ^ j) * (a' * ?c ^ k) \<le> b * b'"
    using assms cj ck by (intro mult_mono) (simp_all add: nearly_def)
  ultimately show ?thesis using assms by (simp add: nearly_def power_add mult_ac)
qed

lemma nearly_divide:
  assumes "nearly j a b" and "nearly k a' b'" and "0 < a'" and "0 < b'"
  shows "nearly (j + k) (a / a') (b / b')"
proof -
  let ?c = "1 - unitRoundoff"
  have cj: "0 \<le> ?c ^ j" and ck: "0 \<le> ?c ^ k" using roundoff_power by (simp_all add: less_imp_le)
  have "(b * ?c ^ j) * (a' * ?c ^ k) \<le> a * b'"
    using assms cj ck by (intro mult_mono) (simp_all add: nearly_def)
  then have 1: "b / b' * ?c ^ (j + k) \<le> a / a'"
    using assms(3,4) by (simp add: field_simps power_add)
  have "(a * ?c ^ j) * (b' * ?c ^ k) \<le> b * a'"
    using assms cj ck by (intro mult_mono) (simp_all add: nearly_def)
  then have 2: "a / a' * ?c ^ (j + k) \<le> b / b'"
    using assms(3,4) by (simp add: field_simps power_add)
  show ?thesis using 1 2 assms by (simp add: nearly_def)
qed

lemma nearly_sqrt:
  assumes "nearly (2 * k) a b"
  shows "nearly k (sqrt a) (sqrt b)"
proof -
  let ?c = "1 - unitRoundoff"
  have ck: "0 \<le> ?c ^ k" using roundoff_power by (simp add: less_imp_le)
  have "sqrt ((?c ^ k)\<^sup>2) = ?c ^ k" using ck by (simp only: real_sqrt_abs abs_of_nonneg)
  then have sq: "sqrt (?c ^ (2 * k)) = ?c ^ k" by (simp only: power_even_eq)
  have "sqrt (b * ?c ^ (2 * k)) \<le> sqrt a" using assms by (simp only: nearly_def real_sqrt_le_iff)
  then have 1: "sqrt b * ?c ^ k \<le> sqrt a" by (simp only: real_sqrt_mult sq)
  have "sqrt (a * ?c ^ (2 * k)) \<le> sqrt b" using assms by (simp only: nearly_def real_sqrt_le_iff)
  then have 2: "sqrt a * ?c ^ k \<le> sqrt b" by (simp only: real_sqrt_mult sq)
  show ?thesis using 1 2 assms by (simp add: nearly_def)
qed

lemma nearly_mono:
  assumes "nearly j a b" and "j \<le> k"
  shows "nearly k a b"
proof -
  have "nearly (j + (k - j)) a b" using assms(1) nearly_refl [of b "k - j"]
    by (intro nearly_trans [of j a b "k - j" b]) (simp_all add: nearly_def)
  then show ?thesis using assms(2) by simp
qed

lemma roundoff_eight: "1 / 2 \<le> (1 - unitRoundoff) ^ 8"
  by (simp add: unitRoundoff_def power_divide)

lemma nearly_half:
  assumes "nearly k a b" and "k \<le> 8"
  shows "b / 2 \<le> a" and "a \<le> 2 * b"
proof -
  have n: "nearly 8 a b" using assms by (rule nearly_mono)
  let ?c = "(1 - unitRoundoff) ^ 8"
  have "b * (1 / 2) \<le> b * ?c" using n roundoff_eight by (intro mult_left_mono) (simp_all add: nearly_def)
  then show "b / 2 \<le> a" using n by (simp add: nearly_def)
  have "a * (1 / 2) \<le> a * ?c" using n roundoff_eight by (intro mult_left_mono) (simp_all add: nearly_def)
  then show "a \<le> 2 * b" using n by (simp add: nearly_def)
qed

lemma nearly_pos: "nearly k a b \<Longrightarrow> 0 < b \<Longrightarrow> 0 < a"
proof -
  assume n: "nearly k a b" and b: "0 < b"
  have "0 < b * (1 - unitRoundoff) ^ k" using b roundoff_power by simp
  then show ?thesis using n by (simp add: nearly_def)
qed

text \<open>One rounding of a normal magnitude: no overflow, and an error of one rounding.\<close>

lemma binary64_zero: "binary64 s 0 = Finite s 0"
  by (simp add: binary64_def nearest_def)

lemma binary64_normal:
  assumes n: "normal m"
  shows "\<exists>r. binary64 s m = Finite s r \<and> nearly 1 r m"
proof -
  have pos: "0 < m" using n by (rule normal_pos)
  note b = nearest_normal [OF n]
  have "m * (1 + unitRoundoff) \<le> 2 ^ 1023 * (1 + unitRoundoff)"
    using n roundoff_bounds by (intro mult_right_mono) (simp_all add: normal_def)
  also have "\<dots> < 2 ^ 1024" by (simp add: unitRoundoff_def)
  finally have "nearest m < 2 ^ 1024" using b(2) by linarith
  then have 1: "binary64 s m = Finite s (nearest m)" by (simp add: binary64_def)
  have 0: "0 \<le> m * (1 - unitRoundoff)" using pos roundoff_bounds by simp
  have "nearest m * (1 - unitRoundoff) \<le> m * (1 + unitRoundoff) * (1 - unitRoundoff)"
    using b(2) roundoff_bounds by (intro mult_right_mono) simp_all
  also have "\<dots> = m * (1 - unitRoundoff * unitRoundoff)" by (simp add: algebra_simps)
  also have "\<dots> \<le> m" using pos by (simp add: mult_left_le unitRoundoff_def)
  finally have "nearly 1 (nearest m) m" using b(1) 0 pos by (simp add: nearly_def)
  then show ?thesis using 1 by blast
qed

lemma nearly_unit:
  assumes "nearly 5 L 1"
  shows "\<bar>L - 1\<bar> \<le> 3 / 2 ^ 52"
proof -
  let ?c = "(1 - unitRoundoff) ^ 5"
  have lo: "1 - 3 / 2 ^ 52 \<le> ?c" by (simp add: unitRoundoff_def power_divide)
  have hi: "(1 + 3 / 2 ^ 52) * ?c \<ge> 1" by (simp add: unitRoundoff_def power_divide)
  have cpos: "0 < ?c" by (rule roundoff_power)
  have 1: "?c \<le> L" and 2: "L * ?c \<le> 1" using assms by (simp_all add: nearly_def)
  have "L * ?c \<le> (1 + 3 / 2 ^ 52) * ?c" using 2 hi by linarith
  then have "L \<le> 1 + 3 / 2 ^ 52" using cpos by (simp only: mult_le_cancel_right_pos)
  then show ?thesis using 1 lo by linarith
qed


text \<open>The length of a vector whose components are zero or between \<open>2 ^ - 510\<close> and
  \<open>2 ^ 510\<close>, not both zero: two roundings from the exact length, and not zero.\<close>

lemma binary64_exact_or_normal:
  assumes "m = 0 \<or> normal m"
  shows "\<exists>r. binary64 s m = Finite s r \<and> nearly 1 r m"
proof (cases "m = 0")
  case True
  then show ?thesis using binary64_zero [of s] nearly_refl [of 0 1] by simp
next
  case False
  then show ?thesis using assms binary64_normal by simp
qed

lemma square64:
  assumes "c = 0 \<or> (1 / 2 ^ 510 \<le> c \<and> c \<le> 2 ^ 510)"
  shows "\<exists>p. times64 (Finite s c) (Finite s c) = Finite False p \<and> nearly 1 p (c * c)"
proof -
  have "c * c = 0 \<or> normal (c * c)"
  proof (cases "c = 0")
    case True
    then show ?thesis by simp
  next
    case False
    then have c: "1 / 2 ^ 510 \<le> c" "c \<le> 2 ^ 510" using assms by simp_all
    have "(1 / 2 ^ 510) * (1 / 2 ^ 510) \<le> c * c" using c by (intro mult_mono) simp_all
    moreover have "c * c \<le> 2 ^ 510 * 2 ^ 510" using c by (intro mult_mono) simp_all
    ultimately show ?thesis by (simp add: normal_def)
  qed
  then show ?thesis using binary64_exact_or_normal [of "c * c" False] by simp
qed

lemma sum64:
  assumes p: "nearly 1 p P" and q: "nearly 1 q Q"
    and lo: "1 / 2 ^ 1020 \<le> P + Q" and hi: "P + Q \<le> 2 ^ 1021"
  shows "\<exists>r. plus64 (Finite False p) (Finite False q) = Finite False r \<and> nearly 2 r (P + Q)"
proof -
  have n: "nearly 1 (p + q) (P + Q)" using p q by (rule nearly_add)
  have "(0::real) < 1 / 2 ^ 1020" by simp
  then have "0 < P + Q" using lo by linarith
  then have pos: "0 < p + q" using n nearly_pos by blast
  have "(P + Q) / 2 \<le> p + q" and "p + q \<le> 2 * (P + Q)"
    using nearly_half [OF n] by simp_all
  then have "normal (p + q)" using lo hi by (simp add: normal_def)
  then obtain r where r: "binary64 False (p + q) = Finite False r" "nearly 1 r (p + q)"
    using binary64_normal by blast
  have "nearly 2 r (P + Q)" using nearly_trans [OF r(2) n] by (simp only: one_add_one)
  moreover have "plus64 (Finite False p) (Finite False q) = Finite False r"
    using pos r(1) by (simp add: signed_def Let_def)
  ultimately show ?thesis by blast
qed

lemma sqrt_power_bounds:
  "sqrt (1 / 2 ^ 1020) = 1 / 2 ^ 510" "sqrt (2 ^ 1022) = 2 ^ 511"
  by (rule real_sqrt_unique; simp add: power_divide)+

lemma sqrt64_nearly:
  assumes r: "nearly 2 r R" and lo: "1 / 2 ^ 1020 \<le> R" and hi: "R \<le> 2 ^ 1021"
  shows "\<exists>n. sqrt64 (Finite False r) = Finite False n \<and> nearly 2 n (sqrt R) \<and> 0 < n"
proof -
  have "nearly (2 * 1) r R" using r by simp
  then have n: "nearly 1 (sqrt r) (sqrt R)" by (rule nearly_sqrt)
  have "(0::real) < 1 / 2 ^ 1020" by simp
  then have Rpos: "0 < R" using lo by linarith
  then have rpos: "0 < r" using r nearly_pos by blast
  have "sqrt (1 / 2 ^ 1020) \<le> sqrt R" using lo by (simp only: real_sqrt_le_iff)
  then have slo: "1 / 2 ^ 510 \<le> sqrt R" by (simp only: sqrt_power_bounds)
  have "R \<le> 2 ^ 1022" using hi by simp
  then have "sqrt R \<le> sqrt (2 ^ 1022)" by (simp only: real_sqrt_le_iff)
  then have shi: "sqrt R \<le> 2 ^ 511" by (simp only: sqrt_power_bounds)
  have "sqrt R / 2 \<le> sqrt r" and "sqrt r \<le> 2 * sqrt R"
    using nearly_half [OF n] by simp_all
  then have "normal (sqrt r)" using slo shi by (simp add: normal_def)
  then obtain k where k: "binary64 False (sqrt r) = Finite False k" "nearly 1 k (sqrt r)"
    using binary64_normal by blast
  have 2: "nearly 2 k (sqrt R)" using nearly_trans [OF k(2) n] by (simp only: one_add_one)
  have "0 < sqrt R" using Rpos by simp
  then have "0 < k" using 2 nearly_pos by blast
  moreover have "sqrt64 (Finite False r) = Finite False k" using rpos k(1) by simp
  ultimately show ?thesis using 2 by blast
qed

lemma V2_len64_nearly:
  assumes a: "a = 0 \<or> (1 / 2 ^ 510 \<le> a \<and> a \<le> 2 ^ 510)"
    and b: "b = 0 \<or> (1 / 2 ^ 510 \<le> b \<and> b \<le> 2 ^ 510)"
    and nz: "a \<noteq> 0 \<or> b \<noteq> 0"
  shows "\<exists>n. V2_len64 (V2_64 (Finite s a) (Finite t b)) = Finite False n
             \<and> nearly 2 n (sqrt (a * a + b * b)) \<and> 0 < n"
proof -
  obtain p where p: "times64 (Finite s a) (Finite s a) = Finite False p" "nearly 1 p (a * a)"
    using square64 [OF a] by blast
  obtain q where q: "times64 (Finite t b) (Finite t b) = Finite False q" "nearly 1 q (b * b)"
    using square64 [OF b] by blast
  have sq: "\<And>c::real. c = 0 \<or> (1 / 2 ^ 510 \<le> c \<and> c \<le> 2 ^ 510)
      \<Longrightarrow> 0 \<le> c * c \<and> c * c \<le> 2 ^ 1020 \<and> (c \<noteq> 0 \<longrightarrow> 1 / 2 ^ 1020 \<le> c * c)"
  proof -
    fix c :: real
    assume c: "c = 0 \<or> (1 / 2 ^ 510 \<le> c \<and> c \<le> 2 ^ 510)"
    show "0 \<le> c * c \<and> c * c \<le> 2 ^ 1020 \<and> (c \<noteq> 0 \<longrightarrow> 1 / 2 ^ 1020 \<le> c * c)"
    proof (cases "c = 0")
      case True
      then show ?thesis by simp
    next
      case False
      then have c': "1 / 2 ^ 510 \<le> c" "c \<le> 2 ^ 510" using c by simp_all
      have "(1 / 2 ^ 510) * (1 / 2 ^ 510) \<le> c * c" using c' by (intro mult_mono) simp_all
      moreover have "c * c \<le> 2 ^ 510 * 2 ^ 510" using c' by (intro mult_mono) simp_all
      ultimately show ?thesis by simp
    qed
  qed
  have lo: "1 / 2 ^ 1020 \<le> a * a + b * b" using sq [OF a] sq [OF b] nz by auto
  have hi: "a * a + b * b \<le> 2 ^ 1021" using sq [OF a] sq [OF b] by simp
  obtain r where r: "plus64 (Finite False p) (Finite False q) = Finite False r"
      "nearly 2 r (a * a + b * b)"
    using sum64 [OF p(2) q(2) lo hi] by blast
  obtain n where n: "sqrt64 (Finite False r) = Finite False n"
      "nearly 2 n (sqrt (a * a + b * b))" "0 < n"
    using sqrt64_nearly [OF r(2) lo hi] by blast
  have "V2_len64 (V2_64 (Finite s a) (Finite t b)) = Finite False n"
    by (simp only: V2_len64_def V2_64.sel p(1) q(1) r(1) n(1))
  then show ?thesis using n by blast
qed


text \<open>The components of the normalized vector, and its length: five roundings from 1.\<close>

lemma nearly_trans_le: "nearly j a b \<Longrightarrow> nearly k b c \<Longrightarrow> j + k \<le> n \<Longrightarrow> nearly n a c"
  using nearly_trans nearly_mono by blast

lemma nearly_range:
  assumes "nearly k y x" and "k \<le> 8" and "lo \<le> x" and "x \<le> hi"
  shows "lo / 2 \<le> y" and "y \<le> 2 * hi"
  using nearly_half [OF assms(1,2)] assms(3,4) by linarith+

lemma component64:
  assumes a: "a = 0 \<or> (1 / 2 ^ 250 \<le> a \<and> a \<le> 2 ^ 250)"
    and n: "nearly 2 n N" and npos: "0 < n" and aN: "a \<le> N" and N: "N \<le> 2 ^ 251"
  shows "\<exists>c. divide64 (Finite s a) (Finite False n) = Finite s c \<and> nearly 3 c (a / N)
             \<and> (c = 0 \<or> (1 / 2 ^ 510 \<le> c \<and> c \<le> 2 ^ 510)) \<and> (a \<noteq> 0 \<longrightarrow> c \<noteq> 0)"
proof (cases "a = 0")
  case True
  have "nearly 3 0 0" by (rule nearly_refl) simp
  then show ?thesis using True npos by (simp add: binary64_zero)
next
  case False
  then have a': "1 / 2 ^ 250 \<le> a" "a \<le> 2 ^ 250" using a by simp_all
  have "(0::real) < 1 / 2 ^ 250" by simp
  then have apos: "0 < a" using a' by linarith
  then have Npos: "0 < N" using aN by linarith
  have "nearly 0 a a" using apos by (intro nearly_refl) simp
  then have "nearly (0 + 2) (a / n) (a / N)" using n npos Npos by (rule nearly_divide)
  then have d: "nearly 2 (a / n) (a / N)" by (simp only: add_0)
  have lo: "1 / 2 ^ 501 \<le> a / N"
  proof -
    have "1 / 2 ^ 501 = (1 / 2 ^ 250) / (2 ^ 251 :: real)" by simp
    also have "\<dots> \<le> a / 2 ^ 251" using a' by (simp only: divide_right_mono zero_le_power zero_le_numeral)
    also have "\<dots> \<le> a / N" using N Npos apos by (intro divide_left_mono) simp_all
    finally show ?thesis .
  qed
  have hi: "a / N \<le> 1" using aN Npos by simp
  have le: "(2::nat) \<le> 8" "(3::nat) \<le> 8" by simp_all
  have k1: "(1::real) / 2 ^ 1022 \<le> 1 / 2 ^ 501 / 2" and k2: "(2::real) * 1 \<le> 2 ^ 1023"
    and k3: "(1::real) / 2 ^ 510 \<le> 1 / 2 ^ 501 / 2" and k4: "(2::real) * 1 \<le> 2 ^ 510"
    by simp_all
  note y = nearly_range [OF d le(1) lo hi]
  have "normal (a / n)"
    unfolding normal_def using order_trans [OF k1 y(1)] order_trans [OF y(2) k2] by (rule conjI)
  then obtain c where c: "binary64 s (a / n) = Finite s c" "nearly 1 c (a / n)"
    using binary64_normal by blast
  have c3: "nearly 3 c (a / N)" using c(2) d by (rule nearly_trans_le) simp
  note z = nearly_range [OF c3 le(2) lo hi]
  have "(0::real) < 1 / 2 ^ 510" by simp
  then have "c \<noteq> 0" using order_trans [OF k3 z(1)] by linarith
  then have r: "1 / 2 ^ 510 \<le> c \<and> c \<le> 2 ^ 510 \<and> c \<noteq> 0"
    using order_trans [OF k3 z(1)] order_trans [OF z(2) k4] by blast
  have "divide64 (Finite s a) (Finite False n) = Finite s c" using npos c(1) by simp
  then show ?thesis using c3 r by blast
qed

lemma V2_normalize64_nearly:
  assumes a: "a = 0 \<or> (1 / 2 ^ 250 \<le> a \<and> a \<le> 2 ^ 250)"
    and b: "b = 0 \<or> (1 / 2 ^ 250 \<le> b \<and> b \<le> 2 ^ 250)"
    and nz: "a \<noteq> 0 \<or> b \<noteq> 0"
  shows "\<not> isZero64 (V2_len64 (V2_64 (Finite s a) (Finite t b)))
         \<and> (\<exists>L. V2_len64 (V2_normalize64 (V2_64 (Finite s a) (Finite t b))) = Finite False L
                \<and> nearly 5 L 1)"
proof -
  define N where "N = sqrt (a * a + b * b)"
  have a0: "0 \<le> a" and b0: "0 \<le> b" using a b by auto
  have sq: "\<And>c::real. c = 0 \<or> (1 / 2 ^ 250 \<le> c \<and> c \<le> 2 ^ 250) \<Longrightarrow> c * c \<le> 2 ^ 250 * 2 ^ 250"
  proof -
    fix c :: real
    assume c: "c = 0 \<or> (1 / 2 ^ 250 \<le> c \<and> c \<le> 2 ^ 250)"
    show "c * c \<le> 2 ^ 250 * 2 ^ 250"
    proof (cases "c = 0")
      case True
      then show ?thesis by simp
    next
      case False
      then have "1 / 2 ^ 250 \<le> c" "c \<le> 2 ^ 250" using c by simp_all
      then show ?thesis by (intro mult_mono) simp_all
    qed
  qed
  have a2: "a * a \<le> 2 ^ 250 * 2 ^ 250" using a by (rule sq)
  have b2: "b * b \<le> 2 ^ 250 * 2 ^ 250" using b by (rule sq)
  have "a * a + b * b \<le> 2 ^ 502" using a2 b2 by simp
  then have "N \<le> sqrt (2 ^ 502)" by (simp only: N_def real_sqrt_le_iff)
  moreover have "sqrt (2 ^ 502) = (2 ^ 251 :: real)" by (rule real_sqrt_unique) simp_all
  ultimately have N: "N \<le> 2 ^ 251" by simp
  have "sqrt (a * a) \<le> N" by (simp only: N_def real_sqrt_le_iff) simp
  then have aN: "a \<le> N" using a0 by simp
  have "sqrt (b * b) \<le> N" by (simp only: N_def real_sqrt_le_iff) simp
  then have bN: "b \<le> N" using b0 by simp
  have Npos: "0 < N" using nz a0 b0 aN bN by linarith
  have NN: "N * N = a * a + b * b" by (simp add: N_def a0 b0)
  have a510: "a = 0 \<or> (1 / 2 ^ 510 \<le> a \<and> a \<le> 2 ^ 510)"
  proof (cases "a = 0")
    case False
    then have "1 / 2 ^ 250 \<le> a" "a \<le> 2 ^ 250" using a by simp_all
    then show ?thesis by simp
  qed simp
  have b510: "b = 0 \<or> (1 / 2 ^ 510 \<le> b \<and> b \<le> 2 ^ 510)"
  proof (cases "b = 0")
    case False
    then have "1 / 2 ^ 250 \<le> b" "b \<le> 2 ^ 250" using b by simp_all
    then show ?thesis by simp
  qed simp
  obtain n where n: "V2_len64 (V2_64 (Finite s a) (Finite t b)) = Finite False n"
      "nearly 2 n N" "0 < n"
    using V2_len64_nearly [OF a510 b510 nz] unfolding N_def by blast
  obtain c where c: "divide64 (Finite s a) (Finite False n) = Finite s c" "nearly 3 c (a / N)"
      "c = 0 \<or> (1 / 2 ^ 510 \<le> c \<and> c \<le> 2 ^ 510)" "a \<noteq> 0 \<longrightarrow> c \<noteq> 0"
    using component64 [OF a n(2) n(3) aN N] by blast
  obtain d where d: "divide64 (Finite t b) (Finite False n) = Finite t d" "nearly 3 d (b / N)"
      "d = 0 \<or> (1 / 2 ^ 510 \<le> d \<and> d \<le> 2 ^ 510)" "b \<noteq> 0 \<longrightarrow> d \<noteq> 0"
    using component64 [OF b n(2) n(3) bN N] by blast
  have norm: "V2_normalize64 (V2_64 (Finite s a) (Finite t b)) = V2_64 (Finite s c) (Finite t d)"
  proof -
    have "\<not> isZero64 (Finite False n)" using n(3) by simp
    then show ?thesis by (simp only: V2_normalize64_def Let_def V2_64.sel n(1) c(1) d(1) if_False)
  qed
  have nz': "c \<noteq> 0 \<or> d \<noteq> 0" using nz c(4) d(4) by blast
  obtain L where L: "V2_len64 (V2_64 (Finite s c) (Finite t d)) = Finite False L"
      "nearly 2 L (sqrt (c * c + d * d))"
    using V2_len64_nearly [OF c(3) d(3) nz'] by blast
  have "nearly (3 + 3) (c * c) (a / N * (a / N))" using c(2) c(2) by (rule nearly_mult)
  moreover have "nearly (3 + 3) (d * d) (b / N * (b / N))" using d(2) d(2) by (rule nearly_mult)
  ultimately have "nearly (3 + 3) (c * c + d * d) (a / N * (a / N) + b / N * (b / N))"
    by (rule nearly_add)
  moreover have "a / N * (a / N) + b / N * (b / N) = 1"
  proof -
    have "a / N * (a / N) + b / N * (b / N) = (a * a + b * b) / (N * N)"
      by (simp add: add_divide_distrib)
    also have "\<dots> = (N * N) / (N * N)" by (simp only: NN)
    also have "\<dots> = 1" using Npos by simp
    finally show ?thesis .
  qed
  ultimately have "nearly (2 * 3) (c * c + d * d) 1" by simp
  then have "nearly 3 (sqrt (c * c + d * d)) (sqrt 1)" by (rule nearly_sqrt)
  then have "nearly 3 (sqrt (c * c + d * d)) 1" by simp
  then have "nearly 5 L 1" using L(2) by (intro nearly_trans_le [of 2 L _ 3 1]) simp_all
  moreover have "\<not> isZero64 (V2_len64 (V2_64 (Finite s a) (Finite t b)))"
    using n(3) by (simp add: n(1))
  ultimately show ?thesis using L(1) norm by simp
qed


text \<open>
  Claim C6, as the doubles compute it. For every vector whose components are zero or of
  a magnitude between \<open>2 ^ - 250\<close> and \<open>2 ^ 250\<close>, and not both zero, the length is not
  zero and the length of \<open>v.normalize()\<close> is a double within \<open>3 / 2 ^ 52\<close> of 1: it is
  1 up to the rounding of the ten operations. For every vector whose length is zero,
  the zero vector among them, \<open>normalize\<close> returns the zero vector.
\<close>

theorem V2_normalize64_unit:
  "((a = 0 \<or> 1 / 2 ^ 250 \<le> a \<and> a \<le> 2 ^ 250) \<and> (b = 0 \<or> 1 / 2 ^ 250 \<le> b \<and> b \<le> 2 ^ 250)
      \<and> (a \<noteq> 0 \<or> b \<noteq> 0) \<longrightarrow>
      \<not> isZero64 (V2_len64 (V2_64 (Finite s a) (Finite t b)))
      \<and> (\<exists>L. V2_len64 (V2_normalize64 (V2_64 (Finite s a) (Finite t b))) = Finite False L
             \<and> \<bar>L - 1\<bar> \<le> 3 / 2 ^ 52))
   \<and> (isZero64 (V2_len64 v) \<longrightarrow> V2_normalize64 v = V2_64 (Finite False 0) (Finite False 0))
   \<and> V2_normalize64 (V2_64 (Finite s 0) (Finite t 0)) = V2_64 (Finite False 0) (Finite False 0)"
proof (intro conjI impI)
  assume h: "(a = 0 \<or> 1 / 2 ^ 250 \<le> a \<and> a \<le> 2 ^ 250) \<and> (b = 0 \<or> 1 / 2 ^ 250 \<le> b \<and> b \<le> 2 ^ 250)
      \<and> (a \<noteq> 0 \<or> b \<noteq> 0)"
  then show "\<not> isZero64 (V2_len64 (V2_64 (Finite s a) (Finite t b)))"
    using V2_normalize64_nearly [of a b s t] by blast
  from h obtain L where "V2_len64 (V2_normalize64 (V2_64 (Finite s a) (Finite t b))) = Finite False L"
      "nearly 5 L 1"
    using V2_normalize64_nearly [of a b s t] by blast
  then show "\<exists>L. V2_len64 (V2_normalize64 (V2_64 (Finite s a) (Finite t b))) = Finite False L
      \<and> \<bar>L - 1\<bar> \<le> 3 / 2 ^ 52"
    using nearly_unit by blast
next
  assume "isZero64 (V2_len64 v)"
  then show "V2_normalize64 v = V2_64 (Finite False 0) (Finite False 0)"
    by (simp add: V2_normalize64_def)
next
  show "V2_normalize64 (V2_64 (Finite s 0) (Finite t 0)) = V2_64 (Finite False 0) (Finite False 0)"
    by (simp add: V2_normalize64_def V2_len64_def binary64_zero signed_def Let_def)
qed

theorem V2_normalize64_unit_witness:
  "\<not> isZero64 (V2_len64 (V2_64 (Finite True 3) (Finite False 4)))
   \<and> (\<exists>L. V2_len64 (V2_normalize64 (V2_64 (Finite True 3) (Finite False 4))) = Finite False L
          \<and> \<bar>L - 1\<bar> \<le> 3 / 2 ^ 52)
   \<and> isZero64 (V2_len64 (V2_64 (Finite True 0) (Finite False 0)))
   \<and> V2_normalize64 (V2_64 (Finite True 0) (Finite False 0)) = V2_64 (Finite False 0) (Finite False 0)"
  using V2_normalize64_unit [of 3 4 True False "V2_64 (Finite True 0) (Finite False 0)"]
  by (simp add: V2_len64_def binary64_zero signed_def)

text \<open>The doubles of the run on \<open>(1, 1)\<close>, rounding by rounding.\<close>

lemma nearest_eq:
  assumes lo: "2 powi k \<le> m" and hi: "m < 2 powi (k + 1)" and k: "- 1022 \<le> k"
    and q: "q = 2 powi (k - 52)"
    and j: "of_int j - 1 / 2 < m / q" "m / q < of_int j + 1 / 2"
  shows "nearest m = of_int j * q"
proof -
  have "(0::real) < 2 powi k" by simp
  then have pos: "m \<noteq> 0" using lo by linarith
  have "exponent m = k" using lo hi k by (rule exponent_eq)
  then have "ulp m = q" by (simp add: ulp_def q)
  moreover have "roundEven (m / q) = j" using j by (rule roundEven_eq)
  ultimately show ?thesis using pos by (simp add: nearest_def)
qed

lemma binary64_eq:
  assumes lo: "2 powi k \<le> m" and hi: "m < 2 powi (k + 1)" and k: "- 1022 \<le> k"
    and q: "q = 2 powi (k - 52)"
    and j: "of_int j - 1 / 2 < m / q" "m / q < of_int j + 1 / 2"
    and fin: "of_int j * q < 2 ^ 1024"
  shows "binary64 s m = Finite s (of_int j * q)"
  using nearest_eq [OF lo hi k q j] fin by (simp add: binary64_def)

lemma binary64_one: "binary64 False 1 = Finite False 1"
  using binary64_eq [of 0 1 "1 / 2 ^ 52" "2 ^ 52" False] by (simp add: power_int_minus)

lemma binary64_two: "binary64 False 2 = Finite False 2"
  using binary64_eq [of 1 2 "1 / 2 ^ 51" "2 ^ 52" False] by (simp add: power_int_minus)

lemma binary64_sqrt_two: "binary64 False (sqrt 2) = Finite False (6369051672525773 / 2 ^ 52)"
proof -
  have 1: "1 \<le> sqrt 2" by simp
  have 2: "sqrt 2 < 2" by (rule real_less_lsqrt) simp_all
  have 3: "(6369051672525773 - 1 / 2) / 2 ^ 52 < sqrt 2"
    by (rule real_less_rsqrt) (simp add: power_divide)
  have 4: "sqrt 2 < (6369051672525773 + 1 / 2) / 2 ^ 52"
    by (rule real_less_lsqrt) (simp_all add: power_divide)
  show ?thesis
    using binary64_eq [of 0 "sqrt 2" "1 / 2 ^ 52" 6369051672525773 False] 1 2 3 4
    by (simp add: power_int_minus field_simps)
qed


lemma len_diagonal:
  "V2_len64 (V2_64 (Finite False 1) (Finite False 1)) = Finite False (6369051672525773 / 2 ^ 52)"
  by (simp add: V2_len64_def binary64_one binary64_two signed_def binary64_sqrt_two)

lemma binary64_quotient:
  "binary64 False (1 / (6369051672525773 / 2 ^ 52)) = Finite False (6369051672525772 / 2 ^ 53)"
  using binary64_eq [of "- 1" "1 / (6369051672525773 / 2 ^ 52)" "1 / 2 ^ 53" 6369051672525772 False]
  by (simp add: power_int_minus)

lemma binary64_square:
  "binary64 False (6369051672525772 / 2 ^ 53 * (6369051672525772 / 2 ^ 53))
     = Finite False (9007199254740990 / 2 ^ 54)"
  using binary64_eq [of "- 2" "6369051672525772 / 2 ^ 53 * (6369051672525772 / 2 ^ 53)"
      "1 / 2 ^ 54" 9007199254740990 False]
  by (simp add: power_int_minus)

lemma binary64_sum:
  "binary64 False (9007199254740990 / 2 ^ 54 + 9007199254740990 / 2 ^ 54)
     = Finite False (9007199254740990 / 2 ^ 53)"
  using binary64_eq [of "- 1" "9007199254740990 / 2 ^ 54 + 9007199254740990 / 2 ^ 54"
      "1 / 2 ^ 53" 9007199254740990 False]
  by (simp add: power_int_minus)

lemma binary64_sqrt_sum:
  "binary64 False (sqrt (9007199254740990 / 2 ^ 53)) = Finite False (9007199254740991 / 2 ^ 53)"
proof -
  let ?t = "9007199254740990 / 2 ^ 53 :: real"
  have 1: "1 / 2 \<le> sqrt ?t" by (rule real_le_rsqrt) (simp add: power_divide)
  have 2: "sqrt ?t < 1" by (rule real_less_lsqrt) simp_all
  have 3: "(9007199254740991 - 1 / 2) / 2 ^ 53 < sqrt ?t"
    by (rule real_less_rsqrt) (simp add: power_divide)
  have 4: "sqrt ?t < (9007199254740991 + 1 / 2) / 2 ^ 53"
    by (rule real_less_lsqrt) (simp_all add: power_divide)
  show ?thesis
    using binary64_eq [of "- 1" "sqrt ?t" "1 / 2 ^ 53" 9007199254740991 False] 1 2 3 4
    by (simp add: power_int_minus field_simps)
qed


lemma normalize_diagonal:
  "V2_normalize64 (V2_64 (Finite False 1) (Finite False 1))
     = V2_64 (Finite False (6369051672525772 / 2 ^ 53)) (Finite False (6369051672525772 / 2 ^ 53))"
  using binary64_quotient by (simp add: V2_normalize64_def len_diagonal)

lemma len_normalize_diagonal:
  "V2_len64 (V2_normalize64 (V2_64 (Finite False 1) (Finite False 1)))
     = Finite False (9007199254740991 / 2 ^ 53)"
  using binary64_square binary64_sum binary64_sqrt_sum
  by (simp add: normalize_diagonal V2_len64_def signed_def)

text \<open>
  The length is not always 1. For the vector \<open>(1, 1)\<close> the length is the double of
  \<open>sqrt 2\<close>, each component of the normalized vector is \<open>6369051672525772 / 2 ^ 53\<close>,
  and the length of the normalized vector is \<open>1 - 1 / 2 ^ 53\<close>, the double before 1
  (printed \<open>0.9999999999999999\<close>).
\<close>

theorem V2_normalize64_diagonal:
  "V2_len64 (V2_normalize64 (V2_64 (Finite False 1) (Finite False 1))) = Finite False (1 - 1 / 2 ^ 53)
   \<and> V2_len64 (V2_normalize64 (V2_64 (Finite False 1) (Finite False 1))) \<noteq> Finite False 1"
  by (simp add: len_normalize_diagonal)

text \<open>
  Outside the range of the claim the squares overflow: the length of
  \<open>(2 ^ 600, 2 ^ 600)\<close> is \<open>Infinity\<close>, and the vector is normalized to the zero vector.
\<close>

lemma binary64_overflow: "binary64 s (2 ^ 1200) = Infinite s"
  using nearest_eq [of 1200 "2 ^ 1200" "2 ^ 1148" "2 ^ 52"] by (simp add: binary64_def)

lemma V2_normalize64_overflow:
  "V2_len64 (V2_64 (Finite False (2 ^ 600)) (Finite False (2 ^ 600))) = Infinite False
   \<and> V2_normalize64 (V2_64 (Finite False (2 ^ 600)) (Finite False (2 ^ 600)))
       = V2_64 (Finite False 0) (Finite False 0)"
proof -
  have "(2::real) ^ 600 * 2 ^ 600 = 2 ^ 1200" by simp
  then have "times64 (Finite False (2 ^ 600)) (Finite False (2 ^ 600)) = Infinite False"
    by (simp only: times64.simps binary64_overflow) simp
  then have "V2_len64 (V2_64 (Finite False (2 ^ 600)) (Finite False (2 ^ 600))) = Infinite False"
    by (simp add: V2_len64_def)
  then show ?thesis by (simp add: V2_normalize64_def)
qed

subsection \<open>Trails\<close>

lemma sorted_evict: "sorted (map dot_a ds) \<Longrightarrow> sorted (map dot_a (evict ds))"
  by (induction ds) auto

lemma evict_positive: "sorted (map dot_a ds) \<Longrightarrow> \<forall>d \<in> set (evict ds). 0 < dot_a d"
  by (induction ds) (auto simp: not_le intro: less_le_trans)

lemma evict_filter: "sorted (map dot_a ds) \<Longrightarrow> evict ds = filter (\<lambda>d. 0 < dot_a d) ds"
proof (induction ds)
  case Nil
  then show ?case by simp
next
  case (Cons d ds)
  show ?case
  proof (cases "dot_a d \<le> 0")
    case True
    with Cons show ?thesis by simp
  next
    case False
    with Cons.prems have "\<forall>e \<in> set ds. 0 < dot_a e" by (auto intro: less_le_trans)
    then have "filter (\<lambda>d. 0 < dot_a d) ds = ds" by (simp add: filter_id_conv)
    with False show ?thesis by simp
  qed
qed

lemma evict_suffix: "\<exists>k. evict ds = drop k ds"
proof (induction ds)
  case Nil
  then show ?case by simp
next
  case (Cons d ds)
  then obtain k where k: "evict ds = drop k ds" by blast
  show ?case
  proof (cases "dot_a d \<le> 0")
    case True
    then have "evict (d # ds) = drop (Suc k) (d # ds)" using k by simp
    then show ?thesis by blast
  next
    case False
    then have "evict (d # ds) = drop 0 (d # ds)" by simp
    then show ?thesis by blast
  qed
qed

lemma evict_all_nonpos: "\<forall>d \<in> set ds. dot_a d \<le> 0 \<Longrightarrow> evict ds = []"
  by (induction ds) auto

lemma last_evict: "evict ds \<noteq> [] \<Longrightarrow> last (evict ds) = last ds"
  by (induction ds) (auto split: if_splits)

lemma sorted_decay: "sorted (map dot_a ds) \<Longrightarrow> sorted (map dot_a (map (decay c) ds))"
  by (induction ds) (auto simp: decay_def)

lemma sorted_le_last: "sorted (map f xs) \<Longrightarrow> x \<in> set xs \<Longrightarrow> f x \<le> (f (last xs) :: real)"
  by (induction xs) auto

lemma Trail_inv_new: "0 \<le> rt \<Longrightarrow> Trail_inv (Trail_new radius color rt)"
  by (simp add: Trail_inv_def Trail_new_def)

lemma Trail_inv_update:
  assumes "Trail_inv t"
  shows "Trail_inv (Trail_update dt t)"
proof -
  let ?ds = "map (decay (rate t * dt)) (trail t)"
  have s: "sorted (map dot_a (evict ?ds))"
    using assms by (intro sorted_evict sorted_decay) (simp add: Trail_inv_def)
  have l: "dot_a (last (evict ?ds)) + rate t * (TRAIL_COOLDOWN - (cooldown t - dt)) \<le> 1"
    if ne: "evict ?ds \<noteq> []"
  proof -
    from ne have tne: "trail t \<noteq> []" by auto
    have "last (evict ?ds) = last ?ds" using ne by (rule last_evict)
    also have "\<dots> = decay (rate t * dt) (last (trail t))" using tne by (simp add: last_map)
    finally have "dot_a (last (evict ?ds)) = dot_a (last (trail t)) - rate t * dt"
      by (simp add: decay_def)
    moreover have "dot_a (last (trail t)) + rate t * (TRAIL_COOLDOWN - cooldown t) \<le> 1"
      using assms tne by (simp add: Trail_inv_def)
    ultimately show ?thesis by (simp add: algebra_simps)
  qed
  show ?thesis using assms s l by (auto simp: Trail_inv_def Trail_update_def)
qed

lemma Trail_inv_push:
  assumes "Trail_inv t"
  shows "Trail_inv (Trail_push pos t)"
proof (cases "\<not> disabled t \<and> cooldown t \<le> 0")
  case False
  then show ?thesis using assms by (auto simp: Trail_push_def)
next
  case True
  have r: "0 \<le> rate t" and s: "sorted (map dot_a (trail t))"
    using assms by (simp_all add: Trail_inv_def)
  have "dot_a d \<le> 1" if d: "d \<in> set (trail t)" for d
  proof -
    from d have ne: "trail t \<noteq> []" by auto
    have "dot_a d \<le> dot_a (last (trail t))" using s d by (rule sorted_le_last)
    moreover have "dot_a (last (trail t)) + rate t * (TRAIL_COOLDOWN - cooldown t) \<le> 1"
      using assms ne by (simp add: Trail_inv_def)
    moreover have "0 \<le> rate t * (TRAIL_COOLDOWN - cooldown t)"
      using r True by (intro mult_nonneg_nonneg) (simp_all add: TRAIL_COOLDOWN_def)
    ultimately show ?thesis by linarith
  qed
  then have "sorted (map dot_a (trail t @ [\<lparr>dot_pos = pos, dot_a = 1\<rparr>]))"
    using s by (auto simp: sorted_append)
  then show ?thesis using True r by (simp add: Trail_inv_def Trail_push_def)
qed

lemma Trail_reachable_inv: "Trail_reachable t \<Longrightarrow> Trail_inv t"
proof (induction rule: Trail_reachable.induct)
  case (reach_new rt radius color)
  then show ?case by (rule Trail_inv_new)
next
  case (reach_push t pos)
  then show ?case by (simp add: Trail_inv_push)
next
  case (reach_update t dt)
  then show ?case by (simp add: Trail_inv_update)
next
  case (reach_disable t)
  then show ?case by (simp add: Trail_inv_def)
qed

lemma push_update_empty:
  assumes inv: "Trail_inv t" and acc: "\<not> disabled t" "cooldown t \<le> 0"
    and big: "1 \<le> rate t * dt"
  shows "trail (Trail_update dt (Trail_push pos t)) = []"
proof -
  let ?t = "Trail_push pos t"
  have inv': "Trail_inv ?t" using inv by (rule Trail_inv_push)
  have tr: "trail ?t = trail t @ [\<lparr>dot_pos = pos, dot_a = 1\<rparr>]" and rt: "rate ?t = rate t"
    using acc by (simp_all add: Trail_push_def)
  have "dot_a d \<le> 1" if "d \<in> set (trail ?t)" for d
  proof -
    have "dot_a d \<le> dot_a (last (trail ?t))"
      using inv' that by (intro sorted_le_last) (simp_all add: Trail_inv_def)
    then show ?thesis by (simp add: tr)
  qed
  then have "\<forall>d \<in> set (map (decay (rate ?t * dt)) (trail ?t)). dot_a d \<le> 0"
    using big by (fastforce simp: decay_def rt)
  then have "evict (map (decay (rate ?t * dt)) (trail ?t)) = []" by (rule evict_all_nonpos)
  then show ?thesis by (simp add: Trail_update_def)
qed

text \<open>
  Claim C4. For every trail the program builds and every \<open>dt\<close>: \<open>Trail.update\<close>
  lowers the intensity of every sample by \<open>rate * dt\<close> and evicts, from the front,
  every sample whose intensity is then \<open>\<le> 0\<close> (what is kept is the decayed samples
  of positive intensity, and it is a suffix of the decayed array); after \<open>update\<close> no
  sample of the trail has an intensity \<open>\<le> 0\<close>; and a sample pushed (the trail enabled
  and off its cooldown, as a new trail is) is gone after an \<open>update\<close> with
  \<open>rate * dt \<ge> 1\<close>.
\<close>

theorem Trail_update_decay_evict:
  assumes "Trail_reachable t"
  shows "trail (Trail_update dt t) =
           filter (\<lambda>dot. 0 < dot_a dot) (map (decay (rate t * dt)) (trail t))
       \<and> (\<exists>k. trail (Trail_update dt t) = drop k (map (decay (rate t * dt)) (trail t)))
       \<and> (\<forall>dot \<in> set (trail (Trail_update dt t)). 0 < dot_a dot)
       \<and> (\<not> disabled t \<and> cooldown t \<le> 0 \<and> 1 \<le> rate t * dt
            \<longrightarrow> trail (Trail_update dt (Trail_push pos t)) = [])"
proof -
  have inv: "Trail_inv t" using assms by (rule Trail_reachable_inv)
  let ?ds = "map (decay (rate t * dt)) (trail t)"
  have s: "sorted (map dot_a ?ds)" using inv by (intro sorted_decay) (simp add: Trail_inv_def)
  have tr: "trail (Trail_update dt t) = evict ?ds" by (simp add: Trail_update_def)
  have 1: "trail (Trail_update dt t) = filter (\<lambda>dot. 0 < dot_a dot) ?ds"
    unfolding tr using s by (rule evict_filter)
  have 2: "\<exists>k. trail (Trail_update dt t) = drop k ?ds" unfolding tr by (rule evict_suffix)
  have 3: "\<forall>dot \<in> set (trail (Trail_update dt t)). 0 < dot_a dot"
    unfolding tr using s by (rule evict_positive)
  show ?thesis using 1 2 3 push_update_empty [OF inv] by blast
qed

theorem Trail_update_decay_evict_witness:
  "Trail_reachable (Trail_new 69 PLAYER_COLOR 3)
   \<and> trail (Trail_update (1 / 3) (Trail_push (V2 0 0) (Trail_new 69 PLAYER_COLOR 3))) = []
   \<and> trail (Trail_update (1 / 6) (Trail_push (V2 0 0) (Trail_new 69 PLAYER_COLOR 3))) =
        [\<lparr>dot_pos = V2 0 0, dot_a = 1 / 2\<rparr>]"
proof -
  have r: "Trail_reachable (Trail_new 69 PLAYER_COLOR 3)" by (rule reach_new) simp
  have r2: "Trail_reachable (Trail_push (V2 0 0) (Trail_new 69 PLAYER_COLOR 3))"
    using r by (rule reach_push)
  show ?thesis
    using r Trail_update_decay_evict [OF r, of "1 / 3" "V2 0 0"]
      Trail_update_decay_evict [OF r2, of "1 / 6" "V2 0 0"]
    by (simp add: Trail_new_def Trail_push_def decay_def)
qed

subsection \<open>The spawn animation of an enemy\<close>

lemma Enemy_update_radius:
  "enemy_radius (Enemy_update dt followPos e) =
     (if enemy_radius e < ENEMY_RADIUS then enemy_radius e + ENEMY_SPAWN_ANIMATION_SPEED * dt
      else ENEMY_RADIUS)"
  by (simp add: Enemy_update_def Let_def)

text \<open>
  Claim C7. After every call of \<open>Enemy.update\<close> the radius should be at most the full
  radius of an enemy. The radius is clamped only on the tick after it has passed the
  full radius: a new enemy updated eight times with \<open>dt = 1/60\<close> has the radius 73.6,
  above the full radius 69, and the ninth update sets it to 69.
\<close>

theorem Enemy_update_overshoot:
  "enemy_radius ((Enemy_update (1 / 60) (V2 0 0) ^^ 8) (Enemy_new (V2 1500 0))) = 368 / 5
   \<and> ENEMY_RADIUS = 69
   \<and> enemy_radius ((Enemy_update (1 / 60) (V2 0 0) ^^ 9) (Enemy_new (V2 1500 0))) = 69"
  by (simp add: eval_nat_numeral Enemy_update_radius ENEMY_SPAWN_ANIMATION_SPEED_def
      ENEMY_RADIUS_def PLAYER_RADIUS_def Enemy_new_def)

subsection \<open>The batch renderer\<close>

lemmas layout = VEC2_COUNT_def VEC2_X_def VEC2_Y_def RGBA_COUNT_def RGBA_R_def RGBA_G_def
  RGBA_B_def RGBA_A_def

lemma buffersAllocated_new: "buffersAllocated RendererWebGL_new"
  by (simp add: buffersAllocated_def RendererWebGL_new_def)

lemma fillCircle_allocated:
  "buffersAllocated this \<Longrightarrow> buffersAllocated (RendererWebGL_fillCircle c r col this)"
  by (simp add: buffersAllocated_def RendererWebGL_fillCircle_def)

lemma fillCircle_count:
  "circlesCount (RendererWebGL_fillCircle c r col this) =
     (if circlesCount this < CIRCLE_BATCH_CAPACITY then circlesCount this + 1
      else circlesCount this)"
  by (simp add: RendererWebGL_fillCircle_def)

lemma fillCircle_full:
  "CIRCLE_BATCH_CAPACITY \<le> circlesCount this \<Longrightarrow> RendererWebGL_fillCircle c r col this = this"
  by (simp add: RendererWebGL_fillCircle_def)

lemma fillCircle_recorded_new:
  assumes "buffersAllocated this" "circlesCount this < CIRCLE_BATCH_CAPACITY"
  shows "recorded (RendererWebGL_fillCircle c r col this) (circlesCount this) = (c, r, col)"
  using assms
  by (simp add: recorded_def RendererWebGL_fillCircle_def buffersAllocated_def layout)

lemma fillCircle_recorded_old:
  assumes "i < circlesCount this"
  shows "recorded (RendererWebGL_fillCircle c r col this) i = recorded this i"
  using assms
  by (simp add: recorded_def RendererWebGL_fillCircle_def layout)

lemma fillCircles_allocated:
  "buffersAllocated this \<Longrightarrow> buffersAllocated (fillCircles cs this)"
  unfolding fillCircles_def
  by (induction cs arbitrary: this) (simp_all add: fillCircle_allocated)

lemma fillCircles_count:
  "circlesCount this \<le> CIRCLE_BATCH_CAPACITY \<Longrightarrow>
   circlesCount (fillCircles cs this) = min (circlesCount this + length cs) CIRCLE_BATCH_CAPACITY"
  unfolding fillCircles_def
  by (induction cs arbitrary: this) (auto simp: fillCircle_count)

lemma fillCircles_recorded:
  assumes "buffersAllocated this" "circlesCount this \<le> CIRCLE_BATCH_CAPACITY"
    "i < min (circlesCount this + length cs) CIRCLE_BATCH_CAPACITY"
  shows "recorded (fillCircles cs this) i =
           (if i < circlesCount this then recorded this i else cs ! (i - circlesCount this))"
  using assms
proof (induction cs arbitrary: this)
  case Nil
  then show ?case by (simp add: fillCircles_def)
next
  case (Cons c cs)
  let ?this' = "RendererWebGL_fillCircle (fst c) (fst (snd c)) (snd (snd c)) this"
  have step: "fillCircles (c # cs) this = fillCircles cs ?this'" by (simp add: fillCircles_def)
  show ?case
  proof (cases "circlesCount this < CIRCLE_BATCH_CAPACITY")
    case False
    with Cons.prems have "i < circlesCount this" by simp
    moreover have "?this' = this" using False by (simp add: fillCircle_full)
    ultimately show ?thesis using Cons.IH [of this] Cons.prems step by simp
  next
    case True
    have cnt: "circlesCount ?this' = circlesCount this + 1" using True by (simp add: fillCircle_count)
    have alloc: "buffersAllocated ?this'" using Cons.prems(1) by (rule fillCircle_allocated)
    have i: "i < min (circlesCount ?this' + length cs) CIRCLE_BATCH_CAPACITY"
      using Cons.prems(3) cnt by simp
    have le: "circlesCount ?this' \<le> CIRCLE_BATCH_CAPACITY" using True cnt by simp
    have IH: "recorded (fillCircles cs ?this') i =
           (if i < circlesCount ?this' then recorded ?this' i else cs ! (i - circlesCount ?this'))"
      using alloc le i by (rule Cons.IH)
    show ?thesis
    proof (cases "i < circlesCount this")
      case True
      then show ?thesis using IH cnt step by (simp add: fillCircle_recorded_old)
    next
      case False
      show ?thesis
      proof (cases "i = circlesCount this")
        case True
        then show ?thesis
          using IH cnt step fillCircle_recorded_new [OF Cons.prems(1) \<open>circlesCount this < CIRCLE_BATCH_CAPACITY\<close>, of "fst c" "fst (snd c)" "snd (snd c)"]
          by simp
      next
        case neq: False
        with False have "circlesCount this < i" by simp
        then show ?thesis using IH cnt step False by (simp add: Suc_diff_Suc nth_Cons')
      qed
    qed
  qed
qed

text \<open>
  Claim C8. For a batch renderer with the buffers of its constructor: while the counter
  is below the capacity, \<open>fillCircle\<close> writes inside the three buffers, records the
  centre, the radius and the colour in the next free slot, leaves the slots before it as
  they were, and adds 1 to the counter; once the counter has reached the capacity,
  \<open>fillCircle\<close> changes nothing (and, being a total function into renderers, raises
  nothing); \<open>clear\<close> sets the counter to 0; and after \<open>clear\<close> any sequence of
  requests leaves the counter at the number of requests or at the capacity, whichever is
  smaller, with the first requests recorded in order. So more requests than the
  capacity leave exactly \<open>capacity\<close> circles.
\<close>

theorem RendererWebGL_fillCircle_batch:
  assumes "buffersAllocated this"
  shows "(circlesCount this < CIRCLE_BATCH_CAPACITY \<longrightarrow>
           circlesCount this * VEC2_COUNT + VEC2_Y < length (circleCenterBufferData this)
         \<and> circlesCount this < length (circleRadiusBufferData this)
         \<and> circlesCount this * RGBA_COUNT + RGBA_A < length (circleColorBufferData this)
         \<and> recorded (RendererWebGL_fillCircle center radius color this) (circlesCount this)
             = (center, radius, color)
         \<and> (\<forall>i < circlesCount this.
               recorded (RendererWebGL_fillCircle center radius color this) i = recorded this i)
         \<and> circlesCount (RendererWebGL_fillCircle center radius color this)
             = circlesCount this + 1)
       \<and> (CIRCLE_BATCH_CAPACITY \<le> circlesCount this \<longrightarrow>
            RendererWebGL_fillCircle center radius color this = this)
       \<and> buffersAllocated (RendererWebGL_fillCircle center radius color this)
       \<and> circlesCount (RendererWebGL_clear this) = 0
       \<and> circlesCount (fillCircles cs (RendererWebGL_clear this))
            = min (length cs) CIRCLE_BATCH_CAPACITY
       \<and> (\<forall>i < min (length cs) CIRCLE_BATCH_CAPACITY.
             recorded (fillCircles cs (RendererWebGL_clear this)) i = cs ! i)"
proof -
  have cl: "buffersAllocated (RendererWebGL_clear this)" "circlesCount (RendererWebGL_clear this) = 0"
    using assms by (simp_all add: buffersAllocated_def RendererWebGL_clear_def)
  have bounds: "circlesCount this * VEC2_COUNT + VEC2_Y < length (circleCenterBufferData this)
         \<and> circlesCount this < length (circleRadiusBufferData this)
         \<and> circlesCount this * RGBA_COUNT + RGBA_A < length (circleColorBufferData this)"
    if "circlesCount this < CIRCLE_BATCH_CAPACITY"
    using assms that by (simp add: buffersAllocated_def layout)
  have rec: "recorded (fillCircles cs (RendererWebGL_clear this)) i = cs ! i"
    if "i < min (length cs) CIRCLE_BATCH_CAPACITY" for i
    using fillCircles_recorded [OF cl(1), of i cs] that cl(2) by simp
  have cnt: "circlesCount (fillCircles cs (RendererWebGL_clear this)) = min (length cs) CIRCLE_BATCH_CAPACITY"
    using fillCircles_count [of "RendererWebGL_clear this" cs] cl(2) by simp
  show ?thesis
    using bounds rec cnt cl(2) fillCircle_recorded_new [OF assms] fillCircle_recorded_old
      fillCircle_count [of center radius color this] fillCircle_full fillCircle_allocated [OF assms]
    by simp
qed

theorem RendererWebGL_fillCircle_batch_witness:
  "buffersAllocated RendererWebGL_new
   \<and> circlesCount RendererWebGL_new < CIRCLE_BATCH_CAPACITY
   \<and> recorded (RendererWebGL_fillCircle (V2 1 2) 3 PLAYER_COLOR RendererWebGL_new) 0
        = (V2 1 2, 3, PLAYER_COLOR)
   \<and> circlesCount (RendererWebGL_fillCircle (V2 1 2) 3 PLAYER_COLOR RendererWebGL_new) = 1
   \<and> CIRCLE_BATCH_CAPACITY \<le> circlesCount (RendererWebGL_new\<lparr>circlesCount := 1024\<rparr>)
   \<and> RendererWebGL_fillCircle (V2 1 2) 3 PLAYER_COLOR (RendererWebGL_new\<lparr>circlesCount := 1024\<rparr>)
        = RendererWebGL_new\<lparr>circlesCount := 1024\<rparr>
   \<and> circlesCount (fillCircles (replicate 2000 (V2 1 2, 3, PLAYER_COLOR))
                       (RendererWebGL_clear RendererWebGL_new)) = 1024
   \<and> recorded (fillCircles (replicate 2000 (V2 1 2, 3, PLAYER_COLOR))
                   (RendererWebGL_clear RendererWebGL_new)) 1023 = (V2 1 2, 3, PLAYER_COLOR)"
proof -
  have a: "buffersAllocated RendererWebGL_new" by (rule buffersAllocated_new)
  have b: "buffersAllocated (RendererWebGL_new\<lparr>circlesCount := 1024\<rparr>)"
    using a by (simp add: buffersAllocated_def)
  have c: "circlesCount RendererWebGL_new = 0" by (simp add: RendererWebGL_new_def)
  show ?thesis
    using a c
      RendererWebGL_fillCircle_batch [OF a, of "V2 1 2" 3 PLAYER_COLOR
        "replicate 2000 (V2 1 2, 3, PLAYER_COLOR)"]
      RendererWebGL_fillCircle_batch [OF b, of "V2 1 2" 3 PLAYER_COLOR "[]"]
    by (simp add: CIRCLE_BATCH_CAPACITY_def)
qed

subsection \<open>A paused game\<close>

text \<open>
  Claim C9. When the game is paused, \<open>Game.update(dt)\<close> sets the renderer's
  \<open>grayness\<close> to 1 and returns: for every \<open>dt\<close> (and whatever the clock and the
  draws), the result is the game it was called on with that one field of the renderer
  changed; the player, the enemies, the bullets, the particles, the tutorial, the score,
  the spawn timers and the camera are as before.
\<close>

theorem Game_update_paused:
  assumes "paused this"
  shows "Game_update coarse rnd now dt this
           = this\<lparr>renderer := (renderer this)\<lparr>grayness := Some 1\<rparr>\<rparr>
       \<and> player (Game_update coarse rnd now dt this) = player this
       \<and> enemies (Game_update coarse rnd now dt this) = enemies this
       \<and> bullets (Game_update coarse rnd now dt this) = bullets this
       \<and> particles (Game_update coarse rnd now dt this) = particles this
       \<and> tutorial (Game_update coarse rnd now dt this) = tutorial this
       \<and> score (Game_update coarse rnd now dt this) = score this
       \<and> enemySpawnRate (Game_update coarse rnd now dt this) = enemySpawnRate this
       \<and> enemySpawnCooldown (Game_update coarse rnd now dt this) = enemySpawnCooldown this
       \<and> cameraPos (renderer (Game_update coarse rnd now dt this)) = cameraPos (renderer this)
       \<and> cameraVel (renderer (Game_update coarse rnd now dt this)) = cameraVel (renderer this)
       \<and> backend (renderer (Game_update coarse rnd now dt this)) = backend (renderer this)
       \<and> grayness (renderer (Game_update coarse rnd now dt this)) = Some 1"
  using assms by (simp add: Game_update_def)

theorem Game_update_paused_witness:
  "paused (onBlur firstGame)
   \<and> Game_update False zeroDraws 7 (1 / 60) (onBlur firstGame)
        = (onBlur firstGame)\<lparr>renderer := (renderer (onBlur firstGame))\<lparr>grayness := Some 1\<rparr>\<rparr>
   \<and> enemySpawnCooldown (Game_update False zeroDraws 7 (1 / 60) (onBlur firstGame)) = 1"
proof -
  have p: "paused (onBlur firstGame)"
    by (simp add: onBlur_def firstGame_def Game_new_def Player_new_def PLAYER_MAX_HEALTH_def)
  have c: "enemySpawnCooldown (onBlur firstGame) = 1"
    by (simp add: onBlur_def firstGame_def Game_new_def ENEMY_SPAWN_COOLDOWN_def)
  show ?thesis
    using p c Game_update_paused [OF p, of False zeroDraws 7 "1 / 60"] by simp
qed

subsection \<open>Sample games\<close>

lemmas sample_defs = firstGame_def trainedGame_def aimingGame_def canvasRenderer_def zeroDraws_def
  Game_new_def Player_new_def Tutorial_new_def TutorialPopup_new_def Trail_new_def Renderer_new_def

lemmas scalar_defs = PLAYER_SPEED_def PLAYER_RADIUS_def PLAYER_MAX_HEALTH_def
  PLAYER_SHOOT_COOLDOWN_def PLAYER_TRAIL_RATE_def TUTORIAL_POPUP_SPEED_def BULLET_RADIUS_def
  BULLET_SPEED_def BULLET_LIFETIME_def ENEMY_SPEED_def ENEMY_RADIUS_def
  ENEMY_SPAWN_ANIMATION_SPEED_def ENEMY_SPAWN_COOLDOWN_def ENEMY_SPAWN_GROWTH_def
  ENEMY_SPAWN_DISTANCE_def ENEMY_DESPAWN_DISTANCE_def ENEMY_DAMAGE_def ENEMY_KILL_HEAL_def
  ENEMY_KILL_SCORE_def ENEMY_TRAIL_RATE_def TRAIL_COOLDOWN_def PARTICLE_MAX_LIFETIME_def

lemma aimingGame_mouseDown:
  "handle False zeroDraws (MouseDown 2920 1080) firstGame = Inr aimingGame"
  by (simp add: Game_mouseDown_def Renderer_screenToWorld_def sample_defs scalar_defs
      V2_add_def V2_sub_def V2_scale_def)


subsection \<open>The collision scan\<close>

lemma scanKeeps_refl: "scanKeeps g g"
  by (simp add: scanKeeps_def list_all2_refl)

lemma scanKeeps_trans: "scanKeeps g g' \<Longrightarrow> scanKeeps g' g'' \<Longrightarrow> scanKeeps g g''"
  unfolding scanKeeps_def
  by (elim conjE, intro conjI) (simp_all, (erule (1) list_all2_trans [rotated], auto)+)

lemma fold_keeps:
  assumes "\<And>x s. scanKeeps s (f x s)"
  shows "scanKeeps g (fold f xs g)"
proof (induction xs arbitrary: g)
  case Nil
  show ?case by (simp add: scanKeeps_refl)
next
  case (Cons x xs)
  have "scanKeeps g (f x g)" by (rule assms)
  moreover have "scanKeeps (f x g) (fold f xs (f x g))" by (rule Cons.IH)
  ultimately show ?case by (simp add: scanKeeps_trans)
qed

lemma Player_heal_fields:
  "player_pos (Player_heal v p) = player_pos p" "shooting (Player_heal v p) = shooting p"
  "accuracy (Player_heal v p) = accuracy p" "player_trail (Player_heal v p) = player_trail p"
  "health (Player_heal v p) = (if 0 < health p then min (health p + v) PLAYER_MAX_HEALTH else health p)"
  by (simp_all add: Player_heal_def)

lemma Player_damage_fields:
  "player_pos (Player_damage v p) = player_pos p" "shooting (Player_damage v p) = shooting p"
  "player_trail (Player_damage v p) = player_trail p" "accuracy (Player_damage v p) = accuracy p"
  by (simp_all add: Player_damage_def)

lemma list_all2_update_one:
  assumes "\<And>x. P x x" and "i < length xs \<Longrightarrow> P (xs ! i) y"
  shows "list_all2 P xs (xs[i := y])"
proof (cases "i < length xs")
  case True
  then show ?thesis using assms by (simp add: list_all2_conv_all_nth nth_list_update)
next
  case False
  then show ?thesis using assms(1) by (simp add: list_all2_conv_all_nth)
qed

lemma list_all2_map_update_one:
  assumes "\<And>x. P x (f x)" and "i < length xs \<Longrightarrow> P (xs ! i) y"
  shows "list_all2 P xs ((map f xs)[i := y])"
proof (cases "i < length xs")
  case True
  then show ?thesis using assms by (simp add: list_all2_conv_all_nth nth_list_update)
next
  case False
  then show ?thesis using assms(1) by (simp add: list_all2_conv_all_nth)
qed

lemma bulletHit_keeps: "scanKeeps g (bulletHit rnd i j g)"
  by (simp add: scanKeeps_def bulletHit_def Let_def Player_heal_fields list_all2_refl
      list_all2_update_one ENEMY_KILL_SCORE_def)

lemma playerHit_keeps: "scanKeeps g (playerHit rnd i g)"
  by (simp add: scanKeeps_def playerHit_def Let_def Player_damage_fields list_all2_refl
      list_all2_update_one list_all2_map_update_one disableTrail_def)

lemma collideEnemy_keeps: "scanKeeps g (collideEnemy rnd i g)"
proof -
  let ?g1 = "if \<not> ded (enemies g ! i) then fold (bulletHit rnd i) [0..<length (bullets g)] g else g"
  have "scanKeeps g ?g1" by (simp add: scanKeeps_refl fold_keeps bulletHit_keeps)
  moreover have "scanKeeps ?g1 (playerHit rnd i ?g1)" by (rule playerHit_keeps)
  ultimately show ?thesis unfolding collideEnemy_def by (rule scanKeeps_trans)
qed

lemma collisions_keeps: "scanKeeps g (collisions rnd g)"
  unfolding collisions_def by (rule fold_keeps) (rule collideEnemy_keeps)

lemma scanKeeps_lengths:
  assumes "scanKeeps g g'"
  shows "length (enemies g') = length (enemies g)" "length (bullets g') = length (bullets g)"
  using assms by (auto simp: scanKeeps_def dest: list_all2_lengthD)

lemma scanKeeps_enemy:
  assumes "scanKeeps g g'" "i < length (enemies g)"
  shows "enemy_pos (enemies g' ! i) = enemy_pos (enemies g ! i)"
    and "ded (enemies g ! i) \<Longrightarrow> ded (enemies g' ! i)"
proof -
  have "list_all2 (\<lambda>e e'. enemy_pos e' = enemy_pos e \<and> (\<not> ded e \<or> ded e'))
          (enemies g) (enemies g')"
    using assms(1) by (simp add: scanKeeps_def)
  then have "enemy_pos (enemies g' ! i) = enemy_pos (enemies g ! i)
             \<and> (\<not> ded (enemies g ! i) \<or> ded (enemies g' ! i))"
    using assms(2) by (rule list_all2_nthD)
  then show "enemy_pos (enemies g' ! i) = enemy_pos (enemies g ! i)"
    and "ded (enemies g ! i) \<Longrightarrow> ded (enemies g' ! i)" by auto
qed

lemma scanKeeps_bullet:
  assumes "scanKeeps g g'" "j < length (bullets g)"
  shows "bullet_pos (bullets g' ! j) = bullet_pos (bullets g ! j)"
    and "bullet_lifetime (bullets g ! j) = 0 \<Longrightarrow> bullet_lifetime (bullets g' ! j) = 0"
proof -
  have "list_all2 (\<lambda>b b'. bullet_pos b' = bullet_pos b \<and> bullet_vel b' = bullet_vel b \<and>
                         (bullet_lifetime b' = bullet_lifetime b \<or> bullet_lifetime b' = 0))
          (bullets g) (bullets g')"
    using assms(1) by (simp add: scanKeeps_def)
  then have "bullet_pos (bullets g' ! j) = bullet_pos (bullets g ! j)
     \<and> bullet_vel (bullets g' ! j) = bullet_vel (bullets g ! j)
     \<and> (bullet_lifetime (bullets g' ! j) = bullet_lifetime (bullets g ! j)
        \<or> bullet_lifetime (bullets g' ! j) = 0)"
    using assms(2) by (rule list_all2_nthD)
  then show "bullet_pos (bullets g' ! j) = bullet_pos (bullets g ! j)"
    and "bullet_lifetime (bullets g ! j) = 0 \<Longrightarrow> bullet_lifetime (bullets g' ! j) = 0" by auto
qed

text \<open>A step for the enemy at index \<open>k\<close> leaves the \<open>ded\<close> flag of every other enemy
  alone.\<close>

lemma bulletHit_other: "k \<noteq> i \<Longrightarrow> enemies (bulletHit rnd k j g) ! i = enemies g ! i"
  by (simp add: bulletHit_def Let_def)

lemma bulletHits_other:
  "k \<noteq> i \<Longrightarrow> enemies (fold (bulletHit rnd k) js g) ! i = enemies g ! i"
  by (induction js arbitrary: g) (simp_all add: bulletHit_other)

lemma playerHit_other:
  "k \<noteq> i \<Longrightarrow> i < length (enemies g) \<Longrightarrow>
   ded (enemies (playerHit rnd k g) ! i) = ded (enemies g ! i)"
  by (simp add: playerHit_def Let_def disableTrail_def)

lemma collideEnemy_other:
  assumes "k \<noteq> i" "i < length (enemies g)"
  shows "ded (enemies (collideEnemy rnd k g) ! i) = ded (enemies g ! i)"
proof -
  let ?g1 = "if \<not> ded (enemies g ! k) then fold (bulletHit rnd k) [0..<length (bullets g)] g else g"
  have k1: "scanKeeps g ?g1" by (simp add: scanKeeps_refl fold_keeps bulletHit_keeps)
  have e1: "enemies ?g1 ! i = enemies g ! i" using assms(1) by (simp add: bulletHits_other)
  have "i < length (enemies ?g1)" using assms(2) scanKeeps_lengths(1) [OF k1] by simp
  then have "ded (enemies (playerHit rnd k ?g1) ! i) = ded (enemies ?g1 ! i)"
    using assms(1) by (simp add: playerHit_other)
  then show ?thesis unfolding collideEnemy_def using e1 by simp
qed

lemma collideEnemies_other:
  assumes "i \<notin> set ks" "i < length (enemies g)"
  shows "ded (enemies (fold (collideEnemy rnd) ks g) ! i) = ded (enemies g ! i)"
  using assms
proof (induction ks arbitrary: g)
  case Nil
  then show ?case by simp
next
  case (Cons k ks)
  let ?g = "collideEnemy rnd k g"
  have len: "i < length (enemies ?g)"
    using Cons.prems(2) scanKeeps_lengths(1) [OF collideEnemy_keeps, of rnd k g] by simp
  have "ded (enemies (fold (collideEnemy rnd) ks ?g) ! i) = ded (enemies ?g ! i)"
    using Cons.prems(1) len by (intro Cons.IH) simp_all
  also have "\<dots> = ded (enemies g ! i)"
    using Cons.prems by (intro collideEnemy_other) auto
  finally show ?case by simp
qed

lemma bulletHit_fires:
  assumes "i < length (enemies g)" "j < length (bullets g)"
    and "V2_dist (enemy_pos (enemies g ! i)) (bullet_pos (bullets g ! j))
           \<le> BULLET_RADIUS + ENEMY_RADIUS"
  shows "ded (enemies (bulletHit rnd i j g) ! i)"
    and "bullet_lifetime (bullets (bulletHit rnd i j g) ! j) = 0"
  using assms by (simp_all add: bulletHit_def Let_def)

lemma upt_split: "j < m \<Longrightarrow> [0..<m] = [0..<j] @ j # [Suc j..<m]"
  using upt_add_eq_append [of 0 j "m - j"] by (simp add: upt_conv_Cons)

lemma collideEnemy_hits:
  assumes i: "i < length (enemies g)" and j: "j < length (bullets g)"
    and alive: "\<not> ded (enemies g ! i)"
    and near: "V2_dist (enemy_pos (enemies g ! i)) (bullet_pos (bullets g ! j))
                 \<le> BULLET_RADIUS + ENEMY_RADIUS"
  shows "ded (enemies (collideEnemy rnd i g) ! i)"
    and "bullet_lifetime (bullets (collideEnemy rnd i g) ! j) = 0"
proof -
  let ?m = "length (bullets g)"
  let ?gb = "fold (bulletHit rnd i) [0..<j] g"
  let ?gc = "bulletHit rnd i j ?gb"
  let ?gd = "fold (bulletHit rnd i) [Suc j..<?m] ?gc"
  have kb: "scanKeeps g ?gb" by (rule fold_keeps) (rule bulletHit_keeps)
  have ib: "i < length (enemies ?gb)" and jb: "j < length (bullets ?gb)"
    using i j scanKeeps_lengths [OF kb] by simp_all
  have "V2_dist (enemy_pos (enemies ?gb ! i)) (bullet_pos (bullets ?gb ! j))
          \<le> BULLET_RADIUS + ENEMY_RADIUS"
    using near scanKeeps_enemy(1) [OF kb i] scanKeeps_bullet(1) [OF kb j] by simp
  then have c: "ded (enemies ?gc ! i)" "bullet_lifetime (bullets ?gc ! j) = 0"
    using ib jb by (simp_all add: bulletHit_fires)
  have kc: "scanKeeps ?gb ?gc" by (rule bulletHit_keeps)
  have ic: "i < length (enemies ?gc)" and jc: "j < length (bullets ?gc)"
    using ib jb scanKeeps_lengths [OF kc] by simp_all
  have kd: "scanKeeps ?gc ?gd" by (rule fold_keeps) (rule bulletHit_keeps)
  have d: "ded (enemies ?gd ! i)" "bullet_lifetime (bullets ?gd ! j) = 0"
    using c scanKeeps_enemy(2) [OF kd ic] scanKeeps_bullet(2) [OF kd jc] by simp_all
  have id: "i < length (enemies ?gd)" and jd: "j < length (bullets ?gd)"
    using ic jc scanKeeps_lengths [OF kd] by simp_all
  have split: "fold (bulletHit rnd i) [0..<?m] g = ?gd"
    using upt_split [OF j] by simp
  have ke: "scanKeeps ?gd (playerHit rnd i ?gd)" by (rule playerHit_keeps)
  have "collideEnemy rnd i g = playerHit rnd i ?gd"
    using alive split by (simp add: collideEnemy_def)
  then show "ded (enemies (collideEnemy rnd i g) ! i)"
    and "bullet_lifetime (bullets (collideEnemy rnd i g) ! j) = 0"
    using d scanKeeps_enemy(2) [OF ke id] scanKeeps_bullet(2) [OF ke jd] by simp_all
qed

lemma collisions_hits:
  assumes i: "i < length (enemies g)" and j: "j < length (bullets g)"
    and alive: "\<not> ded (enemies g ! i)"
    and near: "V2_dist (enemy_pos (enemies g ! i)) (bullet_pos (bullets g ! j))
                 \<le> BULLET_RADIUS + ENEMY_RADIUS"
  shows "ded (enemies (collisions rnd g) ! i)"
    and "bullet_lifetime (bullets (collisions rnd g) ! j) = 0"
proof -
  let ?n = "length (enemies g)"
  let ?ga = "fold (collideEnemy rnd) [0..<i] g"
  let ?gb = "collideEnemy rnd i ?ga"
  let ?gc = "fold (collideEnemy rnd) [Suc i..<?n] ?gb"
  have ka: "scanKeeps g ?ga" by (rule fold_keeps) (rule collideEnemy_keeps)
  have ia: "i < length (enemies ?ga)" and ja: "j < length (bullets ?ga)"
    using i j scanKeeps_lengths [OF ka] by simp_all
  have "ded (enemies ?ga ! i) = ded (enemies g ! i)"
    using i by (intro collideEnemies_other) simp_all
  then have alive_a: "\<not> ded (enemies ?ga ! i)" using alive by simp
  have near_a: "V2_dist (enemy_pos (enemies ?ga ! i)) (bullet_pos (bullets ?ga ! j))
          \<le> BULLET_RADIUS + ENEMY_RADIUS"
    using near scanKeeps_enemy(1) [OF ka i] scanKeeps_bullet(1) [OF ka j] by simp
  have b: "ded (enemies ?gb ! i)" "bullet_lifetime (bullets ?gb ! j) = 0"
    using collideEnemy_hits [OF ia ja alive_a near_a] by simp_all
  have kb: "scanKeeps ?ga ?gb" by (rule collideEnemy_keeps)
  have ib: "i < length (enemies ?gb)" and jb: "j < length (bullets ?gb)"
    using ia ja scanKeeps_lengths [OF kb] by simp_all
  have kc: "scanKeeps ?gb ?gc" by (rule fold_keeps) (rule collideEnemy_keeps)
  have "collisions rnd g = ?gc"
    using upt_split [OF i] by (simp add: collisions_def)
  then show "ded (enemies (collisions rnd g) ! i)"
    and "bullet_lifetime (bullets (collisions rnd g) ! j) = 0"
    using b scanKeeps_enemy(2) [OF kc ib] scanKeeps_bullet(2) [OF kc jb] by simp_all
qed

lemma burstLoop_appends:
  "\<exists>burst. fst (burstLoop rnd n k center color ps) = ps @ burst \<and> length burst = n \<and>
     (\<forall>p \<in> set burst. particle_pos p = center \<and> particle_color p = color)"
proof (induction n arbitrary: k ps)
  case 0
  show ?case by simp
next
  case (Suc n)
  let ?p = "\<lparr>particle_pos = center,
               particle_vel =
                 V2_polar (randomBetween rnd k (fst PARTICLE_MAG_RANGE) (snd PARTICLE_MAG_RANGE))
                   (randomAngle rnd (k + 1)),
               particle_lifetime =
                 randomBetween rnd (k + 2) (fst PARTICLE_LIFETIME_RANGE)
                   (snd PARTICLE_LIFETIME_RANGE),
               particle_radius =
                 randomBetween rnd (k + 3) (fst PARTICLE_RADIUS_RANGE)
                   (snd PARTICLE_RADIUS_RANGE),
               particle_color = color\<rparr>"
  obtain burst where b: "fst (burstLoop rnd n (k + 4) center color (ps @ [?p])) = (ps @ [?p]) @ burst"
    "length burst = n" "\<forall>p \<in> set burst. particle_pos p = center \<and> particle_color p = color"
    using Suc.IH [of "k + 4" "ps @ [?p]"] by blast
  have "fst (burstLoop rnd (Suc n) k center color ps) = ps @ (?p # burst)"
    using b(1) by simp
  moreover have "length (?p # burst) = Suc n" using b(2) by simp
  moreover have "\<forall>p \<in> set (?p # burst). particle_pos p = center \<and> particle_color p = color"
    using b(3) by simp
  ultimately show ?case by blast
qed

lemma particleBurst_appends:
  "\<exists>burst. fst (particleBurst rnd k ps center color) = ps @ burst \<and>
     length burst = nat \<lceil>rnd k * 50\<rceil> \<and>
     (\<forall>p \<in> set burst. particle_pos p = center \<and> particle_color p = color)"
  using burstLoop_appends [of rnd "nat \<lceil>rnd k * 50\<rceil>" "k + 1" center color ps]
  by (simp add: particleBurst_def randomBetween_def PARTICLES_COUNT_RANGE_def)

lemma V2_dist_self: "V2_dist p p = 0"
  by (simp add: V2_dist_def V2_sub_def V2_len_def)

lemma advanceStage_prunes:
  "\<forall>b \<in> set (bullets (advanceStage dt g)). 0 < bullet_lifetime b"
  "\<forall>e \<in> set (enemies (advanceStage dt g)). \<not> ded e"
  by (simp_all add: advanceStage_def)

lemma advanceStage_removes_bullet:
  assumes "j < length (bullets g)" "bullet_lifetime (bullets g ! j) = 0" "0 \<le> dt"
  shows "length (bullets (advanceStage dt g)) < length (bullets g)"
proof -
  let ?bs = "map (Bullet_update dt) (bullets g)"
  have "?bs ! j \<in> set ?bs" using assms(1) by (intro nth_mem) simp
  moreover have "\<not> 0 < bullet_lifetime (?bs ! j)"
    using assms by (simp add: Bullet_update_def)
  ultimately have "length (filter (\<lambda>b. 0 < bullet_lifetime b) ?bs) < length ?bs"
    by (rule length_filter_less)
  then show ?thesis by (simp add: advanceStage_def)
qed

lemma advanceStage_removes_enemy:
  assumes "i < length (enemies g)" "ded (enemies g ! i)"
  shows "length (enemies (advanceStage dt g)) < length (enemies g)"
proof -
  let ?es = "map (Enemy_update dt (player_pos (player g))) (enemies g)"
  let ?P = "\<lambda>enemy. \<not> ded enemy \<and>
     V2_dist (enemy_pos enemy) (player_pos (player g)) < ENEMY_DESPAWN_DISTANCE"
  have "?es ! i \<in> set ?es" using assms(1) by (intro nth_mem) simp
  moreover have "\<not> ?P (?es ! i)"
    using assms by (simp add: Enemy_update_def Let_def)
  ultimately have "length (filter ?P ?es) < length ?es"
    by (rule length_filter_less)
  then show ?thesis by (simp add: advanceStage_def)
qed

lemma sample_pair:
  "enemies duelGame = [Enemy_new (V2 500 0)]" "bullets duelGame = [Bullet_new (V2 500 0) (V2 2000 0)]"
  "enemies fallenGame = [Enemy_new (V2 500 0)]" "bullets fallenGame = [Bullet_new (V2 500 0) (V2 2000 0)]"
  "health (player duelGame) = 95" "health (player fallenGame) = 0"
  "score duelGame = 0" "score fallenGame = 0" "randomCalls duelGame = 0"
  "randomCalls fallenGame = 0" "particles duelGame = []" "particles fallenGame = []"
  "accuracy (player duelGame) = 0"
  by (simp_all add: duelGame_def fallenGame_def trainedGame_def Game_new_def Player_new_def)

lemma sample_near:
  "V2_dist (enemy_pos (Enemy_new (V2 500 0))) (bullet_pos (Bullet_new (V2 500 0) (V2 2000 0)))
     \<le> BULLET_RADIUS + ENEMY_RADIUS"
  by (simp add: Enemy_new_def Bullet_new_def V2_dist_self BULLET_RADIUS_def ENEMY_RADIUS_def
      PLAYER_RADIUS_def)

lemma no_burst: "particleBurst zeroDraws k ps c col = (ps, Suc k)"
  by (simp add: particleBurst_def randomBetween_def zeroDraws_def PARTICLES_COUNT_RANGE_def)

lemma fallen_scan:
  "score (collisions zeroDraws fallenGame) = 100"
  "health (player (collisions zeroDraws fallenGame)) = 0"
  "ded (enemies (collisions zeroDraws fallenGame) ! 0)"
  using sample_near
  by (simp_all add: collisions_def collideEnemy_def bulletHit_def playerHit_def Let_def
      sample_pair no_burst Player_heal_fields ENEMY_KILL_SCORE_def Enemy_new_def)

subsection \<open>The stages of an update, field by field\<close>

lemma stage_camera:
  "camera (cameraStage dt g) = camera g"
  "camera (moveStage dt g) = camera g"
  "camera (shootStage now g) = camera g"
  "camera (tutorialStage coarse dt g) = camera g"
  "camera (collisions rnd g) = camera g"
  "camera (advanceStage dt g) = camera g"
  "camera (spawnScheduler rnd dt g) = camera g"
  using collisions_keeps [of g rnd]
  by (simp_all add: cameraStage_def moveStage_def shootStage_def tutorialStage_def
      advanceStage_def spawnScheduler_def spawnEnemy_def Let_def scanKeeps_def)

lemma Game_update_camera: "camera (Game_update coarse rnd now dt g) = camera g"
  by (simp add: Game_update_def Let_def stage_camera)

lemma stage_enemies:
  "enemies (cameraStage dt g) = enemies g"
  "enemies (moveStage dt g) = enemies g"
  "enemies (shootStage now g) = enemies g"
  "enemies (tutorialStage coarse dt g) = enemies g"
  by (simp_all add: cameraStage_def moveStage_def shootStage_def tutorialStage_def Let_def)

lemma stage_bullets:
  "bullets (cameraStage dt g) = bullets g"
  "bullets (moveStage dt g) = bullets g"
  "bullets (tutorialStage coarse dt g) = bullets g"
  "bullets (spawnScheduler rnd dt g) = bullets g"
  "bullets (advanceStage dt g) =
     filter (\<lambda>bullet. bullet_lifetime bullet > 0) (map (Bullet_update dt) (bullets g))"
  by (simp_all add: cameraStage_def moveStage_def tutorialStage_def advanceStage_def
      spawnScheduler_def spawnEnemy_def Let_def)

lemma stage_player_shoot:
  "shooting (player (moveStage dt (cameraStage dt' g))) = shooting (player g)"
  "lastShoot (player (moveStage dt (cameraStage dt' g))) = lastShoot (player g)"
  "shootCooldown (player (moveStage dt (cameraStage dt' g))) = shootCooldown (player g)"
  by (simp_all add: moveStage_def cameraStage_def Player_update_def Let_def)

lemma collisions_no_enemies: "enemies g = [] \<Longrightarrow> collisions rnd g = g"
  by (simp add: collisions_def)

lemma Game_update_bullets_no_enemies:
  assumes "\<not> paused g" "enemies g = []" "0 < health (player g)"
  shows "bullets (Game_update coarse rnd now dt g) =
     filter (\<lambda>bullet. bullet_lifetime bullet > 0)
       (map (Bullet_update dt) (bullets (shootStage now (moveStage dt (cameraStage dt
          (g\<lparr>renderer := (renderer g)
                  \<lparr>grayness := Some (1.0 - health (player g) / PLAYER_MAX_HEALTH)\<rparr>\<rparr>))))))"
  using assms
  by (simp add: Game_update_def Let_def frameTime_def stage_bullets stage_enemies
      collisions_no_enemies)

lemma aiming_fields:
  "\<not> paused aimingGame" "enemies aimingGame = []" "health (player aimingGame) = 100"
  "bullets aimingGame = []" "shooting (player aimingGame)" "lastShoot (player aimingGame) = 0"
  "shootCooldown (player aimingGame) = 1 / 4"
  by (simp_all add: aimingGame_def firstGame_def Game_new_def Player_new_def
      PLAYER_MAX_HEALTH_def PLAYER_SHOOT_COOLDOWN_def)

lemma shootStage_bullets:
  "bullets (shootStage now g) =
     (if shooting (player g) \<and> now - lastShoot (player g) > shootCooldown (player g)
      then bullets g @ [snd (Player_shoot ((player g)\<lparr>lastShoot := now\<rparr>))]
      else bullets g)"
  by (simp add: shootStage_def Let_def)

lemma shot_lifetime: "bullet_lifetime (snd (Player_shoot p)) = BULLET_LIFETIME"
  by (simp add: Player_shoot_def Let_def Bullet_new_def)

lemma bullets_idle: "bullets (Game_update False zeroDraws 0 (1 / 60) aimingGame) = []"
  by (simp add: Game_update_bullets_no_enemies aiming_fields shootStage_bullets
      stage_player_shoot stage_bullets)

lemma bullets_fired: "length (bullets (Game_update False zeroDraws 1 (1 / 60) aimingGame)) = 1"
  by (simp add: Game_update_bullets_no_enemies aiming_fields shootStage_bullets
      stage_player_shoot stage_bullets shot_lifetime Bullet_update_def BULLET_LIFETIME_def)

lemma stage_spawn_timers:
  "enemySpawnRate (cameraStage dt g) = enemySpawnRate g"
  "enemySpawnRate (moveStage dt g) = enemySpawnRate g"
  "enemySpawnRate (shootStage now g) = enemySpawnRate g"
  "enemySpawnRate (tutorialStage coarse dt g) = enemySpawnRate g"
  "enemySpawnRate (collisions rnd g) = enemySpawnRate g"
  "enemySpawnRate (advanceStage dt g) = enemySpawnRate g"
  "enemySpawnCooldown (cameraStage dt g) = enemySpawnCooldown g"
  "enemySpawnCooldown (moveStage dt g) = enemySpawnCooldown g"
  "enemySpawnCooldown (shootStage now g) = enemySpawnCooldown g"
  "enemySpawnCooldown (tutorialStage coarse dt g) = enemySpawnCooldown g"
  "enemySpawnCooldown (collisions rnd g) = enemySpawnCooldown g"
  "enemySpawnCooldown (advanceStage dt g) = enemySpawnCooldown g"
  using collisions_keeps [of g rnd]
  by (simp_all add: cameraStage_def moveStage_def shootStage_def tutorialStage_def
      advanceStage_def Let_def scanKeeps_def)

lemma spawnScheduler_timers:
  "(enemySpawnRate (spawnScheduler rnd dt g) = enemySpawnRate g
      \<and> (enemySpawnCooldown (spawnScheduler rnd dt g) = enemySpawnCooldown g
         \<or> enemySpawnCooldown (spawnScheduler rnd dt g) = enemySpawnCooldown g - dt))
   \<or> (enemySpawnRate (spawnScheduler rnd dt g) = enemySpawnRate g / ENEMY_SPAWN_GROWTH
      \<and> enemySpawnCooldown (spawnScheduler rnd dt g) = enemySpawnRate g)"
  by (simp add: spawnScheduler_def spawnEnemy_def Let_def)

lemma Game_update_unpaused:
  assumes "\<not> paused g"
  shows "Game_update coarse rnd now dt g =
     spawnScheduler rnd (frameTime dt g)
       (advanceStage (frameTime dt g)
          (collisions rnd
             (tutorialStage coarse (frameTime dt g)
                (shootStage now
                   (moveStage (frameTime dt g)
                      (cameraStage (frameTime dt g)
                         (g\<lparr>renderer := (renderer g)
                              \<lparr>grayness := Some (1.0 - health (player g) / PLAYER_MAX_HEALTH)\<rparr>\<rparr>)))))))"
  using assms by (simp add: Game_update_def Let_def frameTime_def)

lemma Game_update_spawn_timers:
  assumes "\<not> paused g"
  shows "(enemySpawnRate (Game_update coarse rnd now dt g) = enemySpawnRate g
      \<and> (enemySpawnCooldown (Game_update coarse rnd now dt g) = enemySpawnCooldown g
         \<or> enemySpawnCooldown (Game_update coarse rnd now dt g)
              = enemySpawnCooldown g - frameTime dt g))
   \<or> (enemySpawnRate (Game_update coarse rnd now dt g) = enemySpawnRate g / ENEMY_SPAWN_GROWTH
      \<and> enemySpawnCooldown (Game_update coarse rnd now dt g) = enemySpawnRate g)"
proof -
  let ?dt = "frameTime dt g"
  let ?pre = "advanceStage ?dt (collisions rnd (tutorialStage coarse ?dt
     (shootStage now (moveStage ?dt (cameraStage ?dt
        (g\<lparr>renderer := (renderer g)
             \<lparr>grayness := Some (1.0 - health (player g) / PLAYER_MAX_HEALTH)\<rparr>\<rparr>))))))"
  have r: "enemySpawnRate ?pre = enemySpawnRate g" "enemySpawnCooldown ?pre = enemySpawnCooldown g"
    by (simp_all add: stage_spawn_timers)
  show ?thesis
    unfolding Game_update_unpaused [OF assms]
    using spawnScheduler_timers [of rnd ?dt ?pre] r by simp
qed

lemma stage_trail_cooldown:
  "player_trail (player (cameraStage dt g)) = player_trail (player g)"
  "cooldown (player_trail (player (moveStage dt g)))
     = cooldown (Trail_push (player_pos (player g)) (player_trail (player g))) - dt"
  "player_trail (player (shootStage now g)) = player_trail (player g)"
  "player_trail (player (tutorialStage coarse dt g)) = player_trail (player g)"
  "cooldown (player_trail (player (collisions rnd g))) = cooldown (player_trail (player g))"
  "player_trail (player (advanceStage dt g)) = player_trail (player g)"
  "player_trail (player (spawnScheduler rnd dt g)) = player_trail (player g)"
  using collisions_keeps [of g rnd]
  by (simp_all add: cameraStage_def moveStage_def shootStage_def tutorialStage_def
      advanceStage_def spawnScheduler_def spawnEnemy_def Let_def scanKeeps_def
      Player_update_def Player_shoot_def Trail_update_def)

lemma stage_player_pos:
  "player_pos (player (cameraStage dt g)) = player_pos (player g)"
  by (simp add: cameraStage_def)

lemma Game_update_trail_cooldown:
  assumes "\<not> paused g"
  shows "cooldown (player_trail (player (Game_update coarse rnd now dt g)))
     = cooldown (Trail_push (player_pos (player g)) (player_trail (player g))) - frameTime dt g"
  unfolding Game_update_unpaused [OF assms]
  by (simp add: stage_trail_cooldown stage_player_pos)

lemma advance_popup:
  "alpha (popup (fst (advance stage ts))) = alpha (popup (fst ts))"
  "dalpha (popup (fst (advance stage ts))) = dalpha (popup (fst ts))
   \<or> dalpha (popup (fst (advance stage ts))) = - TUTORIAL_POPUP_SPEED"
  by (simp_all add: advance_def Let_def fadeOut_def)

lemma Tutorial_update_alpha:
  "alpha (popup (Tutorial_update coarse dt t)) = 0
   \<or> alpha (popup (Tutorial_update coarse dt t)) = 1
   \<or> alpha (popup (Tutorial_update coarse dt t)) = alpha (popup t) + dalpha (popup t) * dt"
  by (simp add: Tutorial_update_def Let_def fadeIn_def)

lemma stage_tutorial:
  "tutorial (cameraStage dt g) = tutorial g"
  "tutorial (tutorialStage coarse dt g) = Tutorial_update coarse dt (tutorial g)"
  "tutorial (collisions rnd g) = tutorial g"
  "tutorial (advanceStage dt g) = tutorial g"
  "tutorial (spawnScheduler rnd dt g) = tutorial g"
  using collisions_keeps [of g rnd]
  by (simp_all add: cameraStage_def tutorialStage_def advanceStage_def spawnScheduler_def
      spawnEnemy_def Let_def scanKeeps_def)

lemma moveStage_popup:
  "alpha (popup (tutorial (moveStage dt g))) = alpha (popup (tutorial g))"
  "dalpha (popup (tutorial (moveStage dt g))) = dalpha (popup (tutorial g))
   \<or> dalpha (popup (tutorial (moveStage dt g))) = - TUTORIAL_POPUP_SPEED"
  using advance_popup [of LearningMovement "(tutorial g, localStorage g)"]
  by (simp_all add: moveStage_def Let_def Tutorial_playerMoved_def)

lemma shootStage_popup:
  "alpha (popup (tutorial (shootStage now g))) = alpha (popup (tutorial g))"
  "dalpha (popup (tutorial (shootStage now g))) = dalpha (popup (tutorial g))
   \<or> dalpha (popup (tutorial (shootStage now g))) = - TUTORIAL_POPUP_SPEED"
  using advance_popup [of LearningShooting "(tutorial g, localStorage g)"]
  by (simp_all add: shootStage_def Let_def Tutorial_playerShot_def)

lemma Game_update_popup:
  assumes "\<not> paused g"
  shows "alpha (popup (tutorial (Game_update coarse rnd now dt g))) = 0
   \<or> alpha (popup (tutorial (Game_update coarse rnd now dt g))) = 1
   \<or> alpha (popup (tutorial (Game_update coarse rnd now dt g)))
        = alpha (popup (tutorial g)) + dalpha (popup (tutorial g)) * frameTime dt g
   \<or> alpha (popup (tutorial (Game_update coarse rnd now dt g)))
        = alpha (popup (tutorial g)) - TUTORIAL_POPUP_SPEED * frameTime dt g"
proof -
  let ?dt = "frameTime dt g"
  let ?g0 = "g\<lparr>renderer := (renderer g)
             \<lparr>grayness := Some (1.0 - health (player g) / PLAYER_MAX_HEALTH)\<rparr>\<rparr>"
  let ?m = "moveStage ?dt (cameraStage ?dt ?g0)"
  let ?s = "shootStage now ?m"
  have t: "tutorial (Game_update coarse rnd now dt g) = Tutorial_update coarse ?dt (tutorial ?s)"
    unfolding Game_update_unpaused [OF assms] by (simp add: stage_tutorial)
  have a: "alpha (popup (tutorial ?s)) = alpha (popup (tutorial g))"
    by (simp add: shootStage_popup moveStage_popup stage_tutorial)
  have "dalpha (popup (tutorial ?m)) = dalpha (popup (tutorial g))
     \<or> dalpha (popup (tutorial ?m)) = - TUTORIAL_POPUP_SPEED"
    using moveStage_popup(2) [of ?dt "cameraStage ?dt ?g0"] by (simp add: stage_tutorial)
  then have d: "dalpha (popup (tutorial ?s)) = dalpha (popup (tutorial g))
     \<or> dalpha (popup (tutorial ?s)) = - TUTORIAL_POPUP_SPEED"
    using shootStage_popup(2) [of now ?m] by auto
  show ?thesis
    unfolding t using Tutorial_update_alpha [of coarse ?dt "tutorial ?s"] a d by auto
qed


lemma Game_update_tutorial:
  assumes "\<not> paused g"
  shows "tutorial (Game_update coarse rnd now dt g) =
     Tutorial_update coarse (frameTime dt g)
       (tutorial (shootStage now (moveStage (frameTime dt g) (cameraStage (frameTime dt g)
          (g\<lparr>renderer := (renderer g)
               \<lparr>grayness := Some (1.0 - health (player g) / PLAYER_MAX_HEALTH)\<rparr>\<rparr>)))))"
  unfolding Game_update_unpaused [OF assms] by (simp add: stage_tutorial)

lemma idle_tutorial:
  assumes "pressedKeys g = []" "\<not> shooting (player g)"
  shows "tutorial (shootStage now (moveStage dt (cameraStage dt' g))) = tutorial g"
  using assms
  by (simp add: shootStage_def moveStage_def cameraStage_def heldKeys_def Let_def
      Player_update_def)

lemma first_fields:
  "\<not> paused firstGame" "\<not> shooting (player firstGame)" "pressedKeys firstGame = []"
  "health (player firstGame) = 100" "player_pos (player firstGame) = V2 0 0"
  "player_trail (player firstGame) = Trail_new PLAYER_RADIUS PLAYER_COLOR PLAYER_TRAIL_RATE"
  "enemySpawnCooldown firstGame = 1" "enemySpawnRate firstGame = 1"
  "tutorial firstGame = Tutorial_new False None"
  by (simp_all add: firstGame_def Game_new_def Player_new_def PLAYER_MAX_HEALTH_def
      ENEMY_SPAWN_COOLDOWN_def)



lemma stage_idle_fields:
  assumes "\<not> shooting (player g)"
  shows "enemies (tutorialStage coarse dt (shootStage now (moveStage dt (cameraStage dt g)))) = enemies g"
    "bullets (tutorialStage coarse dt (shootStage now (moveStage dt (cameraStage dt g)))) = bullets g"
    "particles (tutorialStage coarse dt (shootStage now (moveStage dt (cameraStage dt g)))) = particles g"
    "score (tutorialStage coarse dt (shootStage now (moveStage dt (cameraStage dt g)))) = score g"
    "randomCalls (tutorialStage coarse dt (shootStage now (moveStage dt (cameraStage dt g)))) = randomCalls g"
    "health (player (tutorialStage coarse dt (shootStage now (moveStage dt (cameraStage dt g)))))
       = health (player g)"
  using assms
  by (simp_all add: tutorialStage_def shootStage_def moveStage_def cameraStage_def Let_def
      Player_update_def)

lemma stage_tail_fields:
  "score (spawnScheduler rnd dt (advanceStage dt' g)) = score g"
  "player (spawnScheduler rnd dt (advanceStage dt' g)) = player g"
  by (simp_all add: spawnScheduler_def spawnEnemy_def advanceStage_def Let_def)

lemma duel_fields: "\<not> paused duelGame"
  by (simp add: duelGame_def trainedGame_def Game_new_def)

lemma fallen_fields:
  "\<not> paused fallenGame" "\<not> shooting (player fallenGame)" "health (player fallenGame) = 0"
  by (simp_all add: fallenGame_def trainedGame_def Game_new_def Player_new_def)

lemma scan_dead_player:
  assumes "enemies g = [e]" "bullets g = [b]" "\<not> ded e"
    and "V2_dist (enemy_pos e) (bullet_pos b) \<le> BULLET_RADIUS + ENEMY_RADIUS"
    and "health (player g) = 0"
  shows "score (collisions zeroDraws g) = score g + ENEMY_KILL_SCORE"
    and "health (player (collisions zeroDraws g)) = 0"
    and "ded (enemies (collisions zeroDraws g) ! 0)"
  using assms
  by (simp_all add: collisions_def collideEnemy_def bulletHit_def playerHit_def Let_def
      no_burst Player_heal_fields)

lemma fallen_frame:
  "score (Game_update False zeroDraws 0 (1 / 60) fallenGame) = 100"
  "health (player (Game_update False zeroDraws 0 (1 / 60) fallenGame)) = 0"
proof -
  let ?g0 = "fallenGame\<lparr>renderer := (renderer fallenGame)
       \<lparr>grayness := Some (1.0 - health (player fallenGame) / PLAYER_MAX_HEALTH)\<rparr>\<rparr>"
  let ?dt = "frameTime (1 / 60) fallenGame"
  let ?pre = "tutorialStage False ?dt (shootStage 0 (moveStage ?dt (cameraStage ?dt ?g0)))"
  have ns: "\<not> shooting (player ?g0)" by (simp add: fallen_fields)
  note f = stage_idle_fields [OF ns, of False ?dt 0]
  have pre: "enemies ?pre = [Enemy_new (V2 500 0)]"
    "bullets ?pre = [Bullet_new (V2 500 0) (V2 2000 0)]"
    "score ?pre = 0" "health (player ?pre) = 0"
    unfolding f by (simp_all add: sample_pair)
  have alive: "\<not> ded (Enemy_new (V2 500 0))" by (simp add: Enemy_new_def)
  note scan = scan_dead_player [OF pre(1) pre(2) alive sample_near pre(4)]
  show "score (Game_update False zeroDraws 0 (1 / 60) fallenGame) = 100"
    and "health (player (Game_update False zeroDraws 0 (1 / 60) fallenGame)) = 0"
    unfolding Game_update_unpaused [OF fallen_fields(1)] stage_tail_fields
    using scan(1,2) pre(3) by (simp_all add: ENEMY_KILL_SCORE_def)
qed

lemma scanKeeps_score:
  assumes "scanKeeps g g'"
  shows "score g \<le> score g'" "accuracy (player g) \<le> accuracy (player g')"
  using assms by (simp_all add: scanKeeps_def)

lemma bulletHit_awards:
  assumes "V2_dist (enemy_pos (enemies g ! i)) (bullet_pos (bullets g ! j))
           \<le> BULLET_RADIUS + ENEMY_RADIUS"
  shows "score (bulletHit rnd i j g) = score g + ENEMY_KILL_SCORE"
    and "accuracy (player (bulletHit rnd i j g)) = accuracy (player g) + 1"
  using assms by (simp_all add: bulletHit_def Let_def Player_heal_fields)

lemma collideEnemy_awards:
  assumes i: "i < length (enemies g)" and j: "j < length (bullets g)"
    and alive: "\<not> ded (enemies g ! i)"
    and near: "V2_dist (enemy_pos (enemies g ! i)) (bullet_pos (bullets g ! j))
                 \<le> BULLET_RADIUS + ENEMY_RADIUS"
  shows "score g + ENEMY_KILL_SCORE \<le> score (collideEnemy rnd i g)"
    and "accuracy (player g) + 1 \<le> accuracy (player (collideEnemy rnd i g))"
proof -
  let ?m = "length (bullets g)"
  let ?gb = "fold (bulletHit rnd i) [0..<j] g"
  let ?gc = "bulletHit rnd i j ?gb"
  let ?gd = "fold (bulletHit rnd i) [Suc j..<?m] ?gc"
  have kb: "scanKeeps g ?gb" by (rule fold_keeps) (rule bulletHit_keeps)
  have "V2_dist (enemy_pos (enemies ?gb ! i)) (bullet_pos (bullets ?gb ! j))
          \<le> BULLET_RADIUS + ENEMY_RADIUS"
    using near scanKeeps_enemy(1) [OF kb i] scanKeeps_bullet(1) [OF kb j] by simp
  then have c: "score ?gc = score ?gb + ENEMY_KILL_SCORE"
    "accuracy (player ?gc) = accuracy (player ?gb) + 1"
    by (simp_all add: bulletHit_awards)
  have kd: "scanKeeps ?gc ?gd" by (rule fold_keeps) (rule bulletHit_keeps)
  have ke: "scanKeeps ?gd (playerHit rnd i ?gd)" by (rule playerHit_keeps)
  have split: "fold (bulletHit rnd i) [0..<?m] g = ?gd"
    using upt_split [OF j] by simp
  have e: "collideEnemy rnd i g = playerHit rnd i ?gd"
    using alive split by (simp add: collideEnemy_def)
  show "score g + ENEMY_KILL_SCORE \<le> score (collideEnemy rnd i g)"
    unfolding e
    using c(1) scanKeeps_score(1) [OF kb] scanKeeps_score(1) [OF kd] scanKeeps_score(1) [OF ke]
    by linarith
  show "accuracy (player g) + 1 \<le> accuracy (player (collideEnemy rnd i g))"
    unfolding e
    using c(2) scanKeeps_score(2) [OF kb] scanKeeps_score(2) [OF kd] scanKeeps_score(2) [OF ke]
    by linarith
qed

lemma collisions_awards:
  assumes i: "i < length (enemies g)" and j: "j < length (bullets g)"
    and alive: "\<not> ded (enemies g ! i)"
    and near: "V2_dist (enemy_pos (enemies g ! i)) (bullet_pos (bullets g ! j))
                 \<le> BULLET_RADIUS + ENEMY_RADIUS"
  shows "score g + ENEMY_KILL_SCORE \<le> score (collisions rnd g)"
    and "accuracy (player g) + 1 \<le> accuracy (player (collisions rnd g))"
proof -
  let ?n = "length (enemies g)"
  let ?ga = "fold (collideEnemy rnd) [0..<i] g"
  let ?gb = "collideEnemy rnd i ?ga"
  let ?gc = "fold (collideEnemy rnd) [Suc i..<?n] ?gb"
  have ka: "scanKeeps g ?ga" by (rule fold_keeps) (rule collideEnemy_keeps)
  have ia: "i < length (enemies ?ga)" and ja: "j < length (bullets ?ga)"
    using i j scanKeeps_lengths [OF ka] by simp_all
  have "ded (enemies ?ga ! i) = ded (enemies g ! i)"
    using i by (intro collideEnemies_other) simp_all
  then have alive_a: "\<not> ded (enemies ?ga ! i)" using alive by simp
  have near_a: "V2_dist (enemy_pos (enemies ?ga ! i)) (bullet_pos (bullets ?ga ! j))
          \<le> BULLET_RADIUS + ENEMY_RADIUS"
    using near scanKeeps_enemy(1) [OF ka i] scanKeeps_bullet(1) [OF ka j] by simp
  note b = collideEnemy_awards [OF ia ja alive_a near_a, of rnd]
  have kc: "scanKeeps ?gb ?gc" by (rule fold_keeps) (rule collideEnemy_keeps)
  have e: "collisions rnd g = ?gc"
    using upt_split [OF i] by (simp add: collisions_def)
  show "score g + ENEMY_KILL_SCORE \<le> score (collisions rnd g)"
    unfolding e using b(1) scanKeeps_score(1) [OF ka] scanKeeps_score(1) [OF kc] by linarith
  show "accuracy (player g) + 1 \<le> accuracy (player (collisions rnd g))"
    unfolding e using b(2) scanKeeps_score(2) [OF ka] scanKeeps_score(2) [OF kc] by linarith
qed

text \<open>The stages before the scan keep the enemies, and keep the bullets but for a new
  bullet at the end of the array.\<close>

lemma before_scan:
  "enemies (tutorialStage coarse dt (shootStage now (moveStage dt (cameraStage dt g)))) = enemies g"
  "\<exists>new. bullets (tutorialStage coarse dt (shootStage now (moveStage dt (cameraStage dt g))))
            = bullets g @ new"
  "score (tutorialStage coarse dt (shootStage now (moveStage dt (cameraStage dt g)))) = score g"
  "accuracy (player (tutorialStage coarse dt (shootStage now (moveStage dt (cameraStage dt g)))))
     = accuracy (player g)"
  by (simp_all add: tutorialStage_def shootStage_def moveStage_def cameraStage_def Let_def
      Player_update_def Player_shoot_def)

lemma Game_update_awards:
  assumes np: "\<not> paused g"
    and i: "i < length (enemies g)" and j: "j < length (bullets g)"
    and alive: "\<not> ded (enemies g ! i)"
    and near: "V2_dist (enemy_pos (enemies g ! i)) (bullet_pos (bullets g ! j))
                 \<le> BULLET_RADIUS + ENEMY_RADIUS"
  shows "score g + ENEMY_KILL_SCORE \<le> score (Game_update coarse rnd now dt g)"
    and "accuracy (player g) + 1 \<le> accuracy (player (Game_update coarse rnd now dt g))"
proof -
  let ?g0 = "g\<lparr>renderer := (renderer g)
       \<lparr>grayness := Some (1.0 - health (player g) / PLAYER_MAX_HEALTH)\<rparr>\<rparr>"
  let ?dt = "frameTime dt g"
  let ?pre = "tutorialStage coarse ?dt (shootStage now (moveStage ?dt (cameraStage ?dt ?g0)))"
  note f = before_scan [of coarse ?dt now ?g0]
  obtain new where b: "bullets ?pre = bullets g @ new" using f(2) by auto
  have e: "enemies ?pre = enemies g" using f(1) by simp
  have i': "i < length (enemies ?pre)" and j': "j < length (bullets ?pre)"
    using i j e b by simp_all
  have alive': "\<not> ded (enemies ?pre ! i)" using alive e by simp
  have near': "V2_dist (enemy_pos (enemies ?pre ! i)) (bullet_pos (bullets ?pre ! j))
                 \<le> BULLET_RADIUS + ENEMY_RADIUS"
    using near e b j by (simp add: nth_append)
  note a = collisions_awards [OF i' j' alive' near', of rnd]
  have s: "score ?pre = score g" "accuracy (player ?pre) = accuracy (player g)"
    using f(3,4) by simp_all
  show "score g + ENEMY_KILL_SCORE \<le> score (Game_update coarse rnd now dt g)"
    and "accuracy (player g) + 1 \<le> accuracy (player (Game_update coarse rnd now dt g))"
    unfolding Game_update_unpaused [OF np] stage_tail_fields
    using a s by simp_all
qed

subsection \<open>Hits of bullets\<close>

text \<open>
  Claim C1, as the code has it. In the collision scan of \<open>Game.update\<close>, for an enemy
  and a bullet of the arrays whose centres are at a distance of at most the two radii
  (as they are at distance 0, the sum of the radii being positive), the body of the inner
  loop scores a hit: the enemy is marked dead, the lifetime of the bullet is set to 0
  and the bullet stays in the array, the score grows by the kill award, the hit counter
  grows by 1, a burst of particles at the enemy's position and in the enemy's colour is
  appended, and the player is healed by the fixed amount, clamped to the maximum, if
  the player is alive; the health of a dead player stays as it is. If the enemy is not
  marked dead when the scan starts, then after the whole scan the enemy is dead and the
  bullet's lifetime is 0, both arrays have kept their lengths, and the pruning step that
  follows removes the enemy and, for \<open>dt \<ge> 0\<close>, the bullet; the pruned arrays hold
  no dead enemy and no bullet without lifetime; and a whole \<open>Game.update\<close> of a game
  that is not paused raises the score by the kill award at least and the hit counter
  by 1 at least.
\<close>

theorem bullet_hit_scores:
  assumes i: "i < length (enemies this)" and j: "j < length (bullets this)"
    and near: "V2_dist (enemy_pos (enemies this ! i)) (bullet_pos (bullets this ! j))
                 \<le> BULLET_RADIUS + ENEMY_RADIUS"
  shows "ded (enemies (bulletHit rnd i j this) ! i)
       \<and> bullet_lifetime (bullets (bulletHit rnd i j this) ! j) = 0
       \<and> length (bullets (bulletHit rnd i j this)) = length (bullets this)
       \<and> score (bulletHit rnd i j this) = score this + ENEMY_KILL_SCORE
       \<and> health (player (bulletHit rnd i j this))
           = (if 0 < health (player this)
              then min (health (player this) + ENEMY_KILL_HEAL) PLAYER_MAX_HEALTH
              else health (player this))
       \<and> accuracy (player (bulletHit rnd i j this)) = accuracy (player this) + 1
       \<and> (\<exists>burst. particles (bulletHit rnd i j this) = particles this @ burst
             \<and> length burst = nat \<lceil>rnd (randomCalls this) * 50\<rceil>
             \<and> (\<forall>p \<in> set burst. particle_pos p = enemy_pos (enemies this ! i)
                                 \<and> particle_color p = ENEMY_COLOR))
       \<and> (\<not> ded (enemies this ! i) \<longrightarrow>
             ded (enemies (collisions rnd this) ! i)
           \<and> bullet_lifetime (bullets (collisions rnd this) ! j) = 0
           \<and> length (bullets (collisions rnd this)) = length (bullets this)
           \<and> length (enemies (collisions rnd this)) = length (enemies this)
           \<and> (0 \<le> dt \<longrightarrow>
                 length (bullets (advanceStage dt (collisions rnd this))) < length (bullets this))
           \<and> length (enemies (advanceStage dt (collisions rnd this))) < length (enemies this)
           \<and> (\<not> paused this \<longrightarrow>
                 score this + ENEMY_KILL_SCORE \<le> score (Game_update coarse rnd now dt this)
               \<and> accuracy (player this) + 1
                   \<le> accuracy (player (Game_update coarse rnd now dt this))))
       \<and> (\<forall>b \<in> set (bullets (advanceStage dt (collisions rnd this))). 0 < bullet_lifetime b)
       \<and> (\<forall>e \<in> set (enemies (advanceStage dt (collisions rnd this))). \<not> ded e)
       \<and> V2_dist (enemy_pos (enemies this ! i)) (enemy_pos (enemies this ! i)) = 0
       \<and> 0 < BULLET_RADIUS + ENEMY_RADIUS"
proof -
  let ?h = "bulletHit rnd i j this"
  let ?c = "collisions rnd this"
  have kh: "scanKeeps this ?h" by (rule bulletHit_keeps)
  have a1: "ded (enemies ?h ! i)" "bullet_lifetime (bullets ?h ! j) = 0"
    using bulletHit_fires [OF i j near] by simp_all
  have a2: "length (bullets ?h) = length (bullets this)" using scanKeeps_lengths [OF kh] by simp
  have a3: "score ?h = score this + ENEMY_KILL_SCORE"
    "accuracy (player ?h) = accuracy (player this) + 1"
    "health (player ?h) = (if 0 < health (player this)
              then min (health (player this) + ENEMY_KILL_HEAL) PLAYER_MAX_HEALTH
              else health (player this))"
    using near by (simp_all add: bulletHit_def Let_def Player_heal_fields)
  have p: "particles ?h = fst (particleBurst rnd (randomCalls this) (particles this)
                                (enemy_pos (enemies this ! i)) ENEMY_COLOR)"
    using near by (simp add: bulletHit_def Let_def)
  have a4: "\<exists>burst. particles ?h = particles this @ burst
             \<and> length burst = nat \<lceil>rnd (randomCalls this) * 50\<rceil>
             \<and> (\<forall>p \<in> set burst. particle_pos p = enemy_pos (enemies this ! i)
                                 \<and> particle_color p = ENEMY_COLOR)"
    unfolding p by (rule particleBurst_appends)
  have kc: "scanKeeps this ?c" by (rule collisions_keeps)
  have lens: "length (bullets ?c) = length (bullets this)" "length (enemies ?c) = length (enemies this)"
    using scanKeeps_lengths [OF kc] by simp_all
  have b: "ded (enemies ?c ! i) \<and> bullet_lifetime (bullets ?c ! j) = 0
           \<and> (0 \<le> dt \<longrightarrow> length (bullets (advanceStage dt ?c)) < length (bullets this))
           \<and> length (enemies (advanceStage dt ?c)) < length (enemies this)
           \<and> (\<not> paused this \<longrightarrow>
                 score this + ENEMY_KILL_SCORE \<le> score (Game_update coarse rnd now dt this)
               \<and> accuracy (player this) + 1
                   \<le> accuracy (player (Game_update coarse rnd now dt this)))"
    if alive: "\<not> ded (enemies this ! i)"
  proof -
    have frame: "score this + ENEMY_KILL_SCORE \<le> score (Game_update coarse rnd now dt this)
               \<and> accuracy (player this) + 1
                   \<le> accuracy (player (Game_update coarse rnd now dt this))"
      if "\<not> paused this"
      using Game_update_awards [OF that i j alive near, of coarse rnd now dt] by simp
    have h: "ded (enemies ?c ! i)" "bullet_lifetime (bullets ?c ! j) = 0"
      using collisions_hits [OF i j alive near] by simp_all
    have "length (bullets (advanceStage dt ?c)) < length (bullets ?c)" if "0 \<le> dt"
      using j lens(1) h(2) that by (intro advanceStage_removes_bullet) simp_all
    moreover have "length (enemies (advanceStage dt ?c)) < length (enemies ?c)"
      using i lens(2) h(1) by (intro advanceStage_removes_enemy) simp_all
    ultimately show ?thesis using h lens frame by simp
  qed
  have r: "0 < BULLET_RADIUS + ENEMY_RADIUS"
    by (simp add: BULLET_RADIUS_def ENEMY_RADIUS_def PLAYER_RADIUS_def)
  show ?thesis
    using a1 a2 a3 a4 b lens advanceStage_prunes [of dt ?c] r
    by (simp add: V2_dist_self)
qed

theorem bullet_hit_scores_witness:
  "0 < length (enemies duelGame) \<and> 0 < length (bullets duelGame)
   \<and> V2_dist (enemy_pos (enemies duelGame ! 0)) (bullet_pos (bullets duelGame ! 0))
        \<le> BULLET_RADIUS + ENEMY_RADIUS
   \<and> \<not> ded (enemies duelGame ! 0)
   \<and> ded (enemies (bulletHit zeroDraws 0 0 duelGame) ! 0)
   \<and> bullet_lifetime (bullets (bulletHit zeroDraws 0 0 duelGame) ! 0) = 0
   \<and> score (bulletHit zeroDraws 0 0 duelGame) = 100
   \<and> health (player (bulletHit zeroDraws 0 0 duelGame)) = 100
   \<and> accuracy (player (bulletHit zeroDraws 0 0 duelGame)) = 1
   \<and> ded (enemies (collisions zeroDraws duelGame) ! 0)
   \<and> bullet_lifetime (bullets (collisions zeroDraws duelGame) ! 0) = 0
   \<and> length (bullets (advanceStage (1 / 60) (collisions zeroDraws duelGame))) = 0
   \<and> length (enemies (advanceStage (1 / 60) (collisions zeroDraws duelGame))) = 0
   \<and> \<not> paused duelGame
   \<and> 100 \<le> score (Game_update False zeroDraws 0 (1 / 60) duelGame)
   \<and> 1 \<le> accuracy (player (Game_update False zeroDraws 0 (1 / 60) duelGame))"
proof -
  have i: "0 < length (enemies duelGame)" and j: "0 < length (bullets duelGame)"
    by (simp_all add: sample_pair)
  have near: "V2_dist (enemy_pos (enemies duelGame ! 0)) (bullet_pos (bullets duelGame ! 0))
        \<le> BULLET_RADIUS + ENEMY_RADIUS"
    using sample_near by (simp add: sample_pair)
  have alive: "\<not> ded (enemies duelGame ! 0)" by (simp add: sample_pair Enemy_new_def)
  show ?thesis
    using i j near alive duel_fields
      bullet_hit_scores [OF i j near, where rnd = zeroDraws and dt = "1 / 60"
        and coarse = False and now = 0]
    by (simp add: sample_pair ENEMY_KILL_SCORE_def ENEMY_KILL_HEAL_def PLAYER_MAX_HEALTH_def)
qed

text \<open>
  Claim C1 as stated promises the heal on every hit. With a dead player (health 0) the
  hit is scored, the enemy is marked dead and the score grows, and the health stays 0,
  where the heal clamped to the maximum would be 10; so it is after the scan, and after
  the whole \<open>Game.update\<close> of that frame.
\<close>

theorem dead_player_not_healed:
  "\<not> ded (enemies fallenGame ! 0)
   \<and> V2_dist (enemy_pos (enemies fallenGame ! 0)) (bullet_pos (bullets fallenGame ! 0))
        \<le> BULLET_RADIUS + ENEMY_RADIUS
   \<and> ded (enemies (collisions zeroDraws fallenGame) ! 0)
   \<and> score (collisions zeroDraws fallenGame) = score fallenGame + ENEMY_KILL_SCORE
   \<and> health (player fallenGame) = 0
   \<and> health (player (collisions zeroDraws fallenGame)) = 0
   \<and> score (Game_update False zeroDraws 0 (1 / 60) fallenGame)
        = score fallenGame + ENEMY_KILL_SCORE
   \<and> health (player (Game_update False zeroDraws 0 (1 / 60) fallenGame)) = 0
   \<and> min (health (player fallenGame) + ENEMY_KILL_HEAL) PLAYER_MAX_HEALTH = 10"
  using sample_near fallen_scan fallen_frame
  by (simp add: sample_pair ENEMY_KILL_SCORE_def ENEMY_KILL_HEAL_def PLAYER_MAX_HEALTH_def
      Enemy_new_def)

subsection \<open>The spawn scheduler\<close>


lemma spawnScheduler_tutorial:
  "tutorial (spawnScheduler rnd dt this) = tutorial this"
  by (simp add: spawnScheduler_def spawnEnemy_def Let_def)







subsection \<open>Clock and draws\<close>

text \<open>
  Claim C3, as the code has it. \<open>Game.update\<close> is a function of the game, of \<open>dt\<close>,
  of the draws of \<open>Math.random\<close> and of the reading of \<open>performance.now()\<close>: two
  runs from the same game with the same \<open>dt\<close> and the same draws produce equal games
  when they read the same clock, or when the player's shooting flag is not set. The
  clock is read by the shoot cooldown only, which is a comparison of wall-clock times
  and not a countdown by \<open>dt\<close>. The other timers are driven by the time of the
  frame: in a game that is not paused the cooldown of the player's trail is its value
  after \<open>push\<close> less the time of the frame; the spawn cooldown is kept, or lowered by
  the time of the frame, or reset to the spawn interval; and the alpha of the popup is
  0, or 1, or its old value moved by the time of the frame at its rate of change or at
  the fade-out rate.
\<close>

theorem Game_update_clock_and_draws:
  assumes "now1 = now2 \<or> \<not> shooting (player this)"
  shows "Game_update coarse rnd now1 dt this = Game_update coarse rnd now2 dt this
       \<and> (\<not> paused this \<longrightarrow>
             cooldown (player_trail (player (Game_update coarse rnd now1 dt this)))
               = cooldown (Trail_push (player_pos (player this)) (player_trail (player this)))
                   - frameTime dt this
           \<and> (enemySpawnCooldown (Game_update coarse rnd now1 dt this) = enemySpawnCooldown this
              \<or> enemySpawnCooldown (Game_update coarse rnd now1 dt this)
                   = enemySpawnCooldown this - frameTime dt this
              \<or> enemySpawnCooldown (Game_update coarse rnd now1 dt this) = enemySpawnRate this)
           \<and> (alpha (popup (tutorial (Game_update coarse rnd now1 dt this))) = 0
              \<or> alpha (popup (tutorial (Game_update coarse rnd now1 dt this))) = 1
              \<or> alpha (popup (tutorial (Game_update coarse rnd now1 dt this)))
                   = alpha (popup (tutorial this))
                       + dalpha (popup (tutorial this)) * frameTime dt this
              \<or> alpha (popup (tutorial (Game_update coarse rnd now1 dt this)))
                   = alpha (popup (tutorial this)) - TUTORIAL_POPUP_SPEED * frameTime dt this))"
proof -
  have eq: "Game_update coarse rnd now1 dt this = Game_update coarse rnd now2 dt this"
  proof (cases "now1 = now2")
    case True
    then show ?thesis by simp
  next
    case False
    with assms have ns: "\<not> shooting (player this)" by simp
    have "shootStage now1 (moveStage d (cameraStage d g)) = shootStage now2 (moveStage d (cameraStage d g))"
      if "\<not> shooting (player g)" for d g
      using that by (simp add: shootStage_def stage_player_shoot)
    then show ?thesis using ns by (simp add: Game_update_def Let_def)
  qed
  have timers: "cooldown (player_trail (player (Game_update coarse rnd now1 dt this)))
               = cooldown (Trail_push (player_pos (player this)) (player_trail (player this)))
                   - frameTime dt this
           \<and> (enemySpawnCooldown (Game_update coarse rnd now1 dt this) = enemySpawnCooldown this
              \<or> enemySpawnCooldown (Game_update coarse rnd now1 dt this)
                   = enemySpawnCooldown this - frameTime dt this
              \<or> enemySpawnCooldown (Game_update coarse rnd now1 dt this) = enemySpawnRate this)
           \<and> (alpha (popup (tutorial (Game_update coarse rnd now1 dt this))) = 0
              \<or> alpha (popup (tutorial (Game_update coarse rnd now1 dt this))) = 1
              \<or> alpha (popup (tutorial (Game_update coarse rnd now1 dt this)))
                   = alpha (popup (tutorial this))
                       + dalpha (popup (tutorial this)) * frameTime dt this
              \<or> alpha (popup (tutorial (Game_update coarse rnd now1 dt this)))
                   = alpha (popup (tutorial this)) - TUTORIAL_POPUP_SPEED * frameTime dt this)"
    if np: "\<not> paused this"
    using Game_update_trail_cooldown [OF np, of coarse rnd now1 dt]
      Game_update_spawn_timers [OF np, of coarse rnd now1 dt]
      Game_update_popup [OF np, of coarse rnd now1 dt]
    by blast
  show ?thesis using eq timers by blast
qed

theorem Game_update_clock_and_draws_witness:
  "\<not> shooting (player firstGame) \<and> \<not> paused firstGame
   \<and> Game_update False zeroDraws 0 (1 / 60) firstGame
        = Game_update False zeroDraws 1 (1 / 60) firstGame
   \<and> cooldown (player_trail (player (Game_update False zeroDraws 0 (1 / 60) firstGame))) = 0
   \<and> alpha (popup (tutorial (Game_update False zeroDraws 0 (1 / 60) firstGame))) = 17 / 600"
proof -
  have n: "\<not> shooting (player firstGame)" and p: "\<not> paused firstGame"
    by (simp_all add: first_fields)
  from n have h: "0 = (1 :: real) \<or> \<not> shooting (player firstGame)" by simp
  have ft: "frameTime (1 / 60) firstGame = 1 / 60" by (simp add: frameTime_def first_fields)
  have "tutorial (Game_update False zeroDraws 0 (1 / 60) firstGame)
          = Tutorial_update False (1 / 60) (Tutorial_new False None)"
    using Game_update_tutorial [OF p, of False zeroDraws 0 "1 / 60"]
      idle_tutorial [of "firstGame\<lparr>renderer := (renderer firstGame)
       \<lparr>grayness := Some (1.0 - health (player firstGame) / PLAYER_MAX_HEALTH)\<rparr>\<rparr>" 0 "1 / 60" "1 / 60"]
    by (simp add: ft first_fields)
  then have a: "alpha (popup (tutorial (Game_update False zeroDraws 0 (1 / 60) firstGame))) = 17 / 600"
    by (simp add: Tutorial_update_def Tutorial_new_def TutorialPopup_new_def fadeIn_def Let_def
        TUTORIAL_POPUP_SPEED_def)
  note T = Game_update_clock_and_draws [OF h, of False zeroDraws "1 / 60"]
  from T have e: "Game_update False zeroDraws 0 (1 / 60) firstGame
        = Game_update False zeroDraws 1 (1 / 60) firstGame" by (rule conjunct1)
  from T p have "cooldown (player_trail (player (Game_update False zeroDraws 0 (1 / 60) firstGame)))
      = cooldown (Trail_push (player_pos (player firstGame)) (player_trail (player firstGame)))
          - frameTime (1 / 60) firstGame" by blast
  then have c: "cooldown (player_trail (player (Game_update False zeroDraws 0 (1 / 60) firstGame))) = 0"
    by (simp add: ft first_fields Trail_push_def Trail_new_def TRAIL_COOLDOWN_def)
  from n p e c a show ?thesis by blast
qed

text \<open>
  Claim C3 as stated has no input but the state and \<open>dt\<close>. Two runs of
  \<open>Game.update\<close> from the same game, with the same \<open>dt\<close> and the same draws, differ
  when the clock differs: the player is shooting, with the clock at 0 seconds the shoot
  cooldown has not passed and no bullet is fired, with the clock at 1 second a bullet is
  fired.
\<close>

theorem Game_update_reads_clock:
  "Game_update False zeroDraws 0 (1 / 60) aimingGame
     \<noteq> Game_update False zeroDraws 1 (1 / 60) aimingGame"
proof
  assume "Game_update False zeroDraws 0 (1 / 60) aimingGame
     = Game_update False zeroDraws 1 (1 / 60) aimingGame"
  then have "bullets (Game_update False zeroDraws 0 (1 / 60) aimingGame)
     = bullets (Game_update False zeroDraws 1 (1 / 60) aimingGame)" by simp
  then show False using bullets_idle bullets_fired by simp
qed

subsection \<open>The handler of mouse moves\<close>

lemma fold_camera:
  assumes "\<And>x s. camera (f x s) = camera s"
  shows "camera (fold f xs g) = camera g"
  by (induction xs arbitrary: g) (simp_all add: assms)

lemma Game_restart_camera: "camera (Game_restart coarse g) = camera g"
  by (simp add: Game_restart_def)

lemma handler_camera:
  "camera (Game_keyDown coarse code g) = camera g"
  "camera (Game_keyUp code g) = camera g"
  "camera (Game_mouseUp g) = camera g"
  "camera (Game_touchMove ts g) = camera g"
  "camera (Game_touchDown coarse w ts g) = camera g"
  "camera (Game_touchUp ts g) = camera g"
  "camera (onBlur g) = camera g"
  "camera (Game_render g) = camera g"
  by (simp_all add: Game_keyDown_def Game_keyUp_def Game_mouseUp_def Game_touchMove_def
      Game_touchDown_def Game_touchUp_def onBlur_def Game_render_def Game_togglePause_def
      Game_restart_camera fold_camera touchMove1_def touchDown1_def touchUp1_def Let_def)

lemma mouse_camera:
  "Game_mouseMove ox oy g = Inr g' \<Longrightarrow> camera g' = camera g"
  "Game_mouseDown ox oy g = Inr g' \<Longrightarrow> camera g' = camera g"
  by (auto simp: Game_mouseMove_def Game_mouseDown_def split: if_splits option.splits sum.splits)

lemma handle_camera: "handle coarse rnd ev g = Inr g' \<Longrightarrow> camera g' = camera g"
  by (cases ev) (auto simp: handler_camera mouse_camera Game_update_camera)

lemma reachable_camera: "reachable coarse rnd g \<Longrightarrow> camera g = None"
proof (induction rule: reachable.induct)
  case (reach_game r stored calls)
  show ?case by (simp add: Game_new_def)
next
  case (reach_event g ev g')
  then show ?case using handle_camera [of coarse rnd ev g g'] by simp
qed

text \<open>
  Claim C10. In every game that the constructor and any sequence of input events and
  frames produce, the property \<open>camera\<close> is undefined (no method assigns it; the
  renderer is in \<open>renderer\<close>). So whenever the game is not paused and the player's
  shooting flag is set, \<open>mouseMove\<close> raises a \<open>TypeError\<close> for every position of
  the pointer, and the player's target is not assigned.
\<close>

theorem mouseMove_reads_unassigned_camera:
  assumes "reachable coarse rnd this" and "\<not> paused this" and "shooting (player this)"
  shows "camera this = None
       \<and> Game_mouseMove offsetX offsetY this = Inl TypeError
       \<and> handle coarse rnd (MouseMove offsetX offsetY) this = Inl TypeError"
  using assms reachable_camera [OF assms(1)] by (simp add: Game_mouseMove_def)

theorem mouseMove_reads_unassigned_camera_witness:
  "reachable False zeroDraws aimingGame \<and> \<not> paused aimingGame \<and> shooting (player aimingGame)
   \<and> Game_mouseMove 10 20 aimingGame = Inl TypeError"
proof -
  have "reachable False zeroDraws firstGame" unfolding firstGame_def by (rule reach_game)
  then have r: "reachable False zeroDraws aimingGame"
    using aimingGame_mouseDown by (rule reach_event)
  show ?thesis
    using r aiming_fields(1,5)
      mouseMove_reads_unassigned_camera [OF r aiming_fields(1) aiming_fields(5), of 10 20]
    by simp
qed

end
